theory Spec2Isabelle
  imports Main "HOL-Library.Word"
begin

unbundle bit_operations_syntax

section \<open>Shared memory as the consumer sees it\<close>

text \<open>
  The consumer maps producer-owned files under \<^verbatim>\<open>/dev/shm\<close>. The producer writes
  them at any moment, so the contents of a mapping are a function of time: \<open>mm_bytes m t i\<close>
  is the byte at offset \<open>i\<close> at the \<open>t\<close>-th access the consumer makes. Every access to the
  mapped bytes (\<^verbatim>\<open>unpack_from\<close>, \<^verbatim>\<open>mm[:n]\<close>) takes one tick of the clock \<open>now\<close>; the
  length of a mapping is fixed when it is created.

  The \<open>world\<close> is what lies outside the reader objects: the clock, the files under
  \<^verbatim>\<open>/dev/shm\<close>, the open descriptors, the live mappings, and for each mapping the number
  of memoryviews still borrowed from it (CPython refuses to close a mapping while that
  number is positive).
\<close>

type_synonym byte = "8 word"

datatype error =
    RuntimeError | StructError | NameError | FileNotFoundError
  | ValueError | BufferError | AttributeError | OSError

record shm_file =
  f_size :: nat
  f_bytes :: "nat \<Rightarrow> nat \<Rightarrow> byte"

record mmap =
  mm_id :: nat
  mm_size :: nat
  mm_bytes :: "nat \<Rightarrow> nat \<Rightarrow> byte"

record world =
  now :: nat
  files :: "string \<Rightarrow> shm_file option"
  open_fds :: "nat list"
  mapped :: "nat list"
  exports :: "nat \<Rightarrow> nat"

text \<open>A memoryview over mapping \<open>mv_id\<close>: the slice \<open>[mv_off, mv_off + mv_len)\<close> of its bytes.\<close>

record memoryview =
  mv_id :: nat
  mv_off :: nat
  mv_len :: nat

definition tick :: "world \<Rightarrow> world" where
  "tick w = w\<lparr>now := now w + 1\<rparr>"

text \<open>Little-endian decoding (\<^verbatim>\<open>"<"\<close> formats of \<^verbatim>\<open>struct\<close>: no padding).\<close>

fun le_nat :: "byte list \<Rightarrow> nat" where
  "le_nat [] = 0"
| "le_nat (b # bs) = unat b + 256 * le_nat bs"

text \<open>
  \<^verbatim>\<open>Struct.unpack_from(mm, off)\<close> for a struct of \<open>sz\<close> bytes: the bytes at tick \<open>t\<close>, or
  \<^verbatim>\<open>struct.error\<close> when fewer than \<open>sz\<close> bytes lie between \<open>off\<close> and the end of the mapping.
\<close>

definition unpack_from :: "nat \<Rightarrow> mmap \<Rightarrow> nat \<Rightarrow> nat \<Rightarrow> error + byte list" where
  "unpack_from sz m off t =
     (if off + sz \<le> mm_size m then Inr (map (mm_bytes m t) [off..<off + sz])
      else Inl StructError)"

text \<open>The unsigned field of \<open>n\<close> bytes at offset \<open>i\<close> of an unpacked struct.\<close>

definition field :: "byte list \<Rightarrow> nat \<Rightarrow> nat \<Rightarrow> nat" where
  "field bs i n = le_nat (take n (drop i bs))"

text \<open>
  \<^verbatim>\<open>memoryview(mm)[a:b]\<close> for \<open>0 \<le> a \<le> b\<close>: Python clips both ends to the mapping. The
  view borrows the mapping's buffer until it is released. Making the view copies nothing: no
  byte of the mapping is read and the clock does not move; the bytes are read by whoever
  reads the view, at that later moment.
\<close>

definition mm_slice :: "mmap \<Rightarrow> nat \<Rightarrow> nat \<Rightarrow> memoryview" where
  "mm_slice m a b =
     \<lparr>mv_id = mm_id m, mv_off = min a (mm_size m),
      mv_len = min b (mm_size m) - min a (mm_size m)\<rparr>"

definition borrow :: "mmap \<Rightarrow> world \<Rightarrow> world" where
  "borrow m w = w\<lparr>exports := (exports w)(mm_id m := exports w (mm_id m) + 1)\<rparr>"

text \<open>
  Releasing a view gives the export back. (CPython unmaps a mapping when the last reference
  to it goes; the model does not follow references and leaves \<open>mapped\<close> to \<^verbatim>\<open>close\<close>.)
\<close>

definition release :: "memoryview \<Rightarrow> world \<Rightarrow> world" where
  "release mv w = w\<lparr>exports := (exports w)(mv_id mv := exports w (mv_id mv) - 1)\<rparr>"

text \<open>
  \<^verbatim>\<open>if sleep_ns: time.sleep(sleep_ns * 1e-9)\<close>. The module imports \<^verbatim>\<open>mmap\<close>, \<^verbatim>\<open>os\<close>,
  \<^verbatim>\<open>struct\<close> and \<^verbatim>\<open>shared_memory\<close> only, so the name \<^verbatim>\<open>time\<close> is unbound and
  evaluating it raises \<^verbatim>\<open>NameError\<close>.
\<close>

definition sleep_if :: "int \<Rightarrow> error + unit" where
  "sleep_if sleep_ns = (if sleep_ns \<noteq> 0 then Inl NameError else Inr ())"

subsection \<open>Opening, mapping and closing\<close>

text \<open>\<^verbatim>\<open>os.open\<close> returns the lowest descriptor that is not open.\<close>

definition lowest_free :: "nat list \<Rightarrow> nat" where
  "lowest_free xs =
     (case find (\<lambda>n. n \<notin> set xs) [0..<Suc (length xs)] of
        Some n \<Rightarrow> n | None \<Rightarrow> Suc (length xs))"

definition os_open :: "string \<Rightarrow> world \<Rightarrow> (error + nat \<times> shm_file) \<times> world" where
  "os_open path w =
     (case files w path of
        None \<Rightarrow> (Inl FileNotFoundError, w)
      | Some f \<Rightarrow>
          let fd = lowest_free (open_fds w)
          in (Inr (fd, f), w\<lparr>open_fds := fd # open_fds w\<rparr>))"

text \<open>
  \<^verbatim>\<open>mmap.mmap(fd, st.st_size, MAP_SHARED, PROT_READ)\<close>: length 0 asks for the whole file,
  and an empty file cannot be mapped (\<^verbatim>\<open>ValueError\<close>).
\<close>

definition mmap_new :: "shm_file \<Rightarrow> world \<Rightarrow> (error + mmap) \<times> world" where
  "mmap_new f w =
     (if f_size f = 0 then (Inl ValueError, w)
      else
        let i = lowest_free (mapped w)
        in (Inr \<lparr>mm_id = i, mm_size = f_size f, mm_bytes = f_bytes f\<rparr>,
            w\<lparr>mapped := i # mapped w\<rparr>))"

text \<open>\<^verbatim>\<open>mm.close()\<close>: \<^verbatim>\<open>BufferError\<close> while a view is exported, else the unmap.\<close>

definition mmap_close :: "mmap \<Rightarrow> world \<Rightarrow> (error + unit) \<times> world" where
  "mmap_close m w =
     (if exports w (mm_id m) > 0 then (Inl BufferError, w)
      else (Inr (), w\<lparr>mapped := remove1 (mm_id m) (mapped w)\<rparr>))"

definition os_close :: "nat \<Rightarrow> world \<Rightarrow> (error + unit) \<times> world" where
  "os_close fd w =
     (if fd \<in> set (open_fds w) then (Inr (), w\<lparr>open_fds := remove1 fd (open_fds w)\<rparr>)
      else (Inl OSError, w))"

text \<open>The truth value of a mapping object is that of its length.\<close>

definition truthy :: "mmap option \<Rightarrow> bool" where
  "truthy mo = (case mo of None \<Rightarrow> False | Some m \<Rightarrow> mm_size m \<noteq> 0)"

definition FMT_RGB888 :: nat where "FMT_RGB888 = 0"
definition VERSION :: nat where "VERSION = 1"
definition MAGIC :: nat where "MAGIC = 0x55434642"
definition REG_MAGIC :: nat where "REG_MAGIC = 0x55435247"
definition GEOM_MAGIC :: nat where "GEOM_MAGIC = 0x5543474D"

section \<open>Frame channel reader\<close>

record FrameShmReader =
  fb_name :: string
  fb_fd :: "nat option"
  fb_mm :: "mmap option"
  fb_width :: nat
  fb_height :: nat
  fb_stride :: nat
  fb_bufcnt :: nat
  fb_header_size :: nat
  fb_onebuf_size :: nat
  fb_last_seq :: nat

definition FrameShmReader_init :: "string \<Rightarrow> FrameShmReader" where
  "FrameShmReader_init nm =
     \<lparr>fb_name = nm, fb_fd = None, fb_mm = None, fb_width = 0, fb_height = 0,
      fb_stride = 0, fb_bufcnt = 0, fb_header_size = 28, fb_onebuf_size = 0,
      fb_last_seq = 0\<rparr>"

definition startswith_slash :: "string \<Rightarrow> bool" where
  "startswith_slash s = (case s of [] \<Rightarrow> False | c # _ \<Rightarrow> c = CHR ''/'')"

definition fb_path :: "FrameShmReader \<Rightarrow> string" where
  "fb_path r =
     (if startswith_slash (fb_name r) then ''/dev/shm'' @ fb_name r
      else ''/dev/shm/'' @ fb_name r)"

text \<open>
  \<^verbatim>\<open>connect\<close>: open, map, read \<^verbatim>\<open>mm[:header_size]\<close> (clipped to the mapping), unpack the
  28-byte header (\<^verbatim>\<open>struct.error\<close> unless exactly 28 bytes were read), compare the magic.
  The version and the pixel format are unpacked and not looked at. The descriptor and the
  mapping are stored before the header is examined, so they stay set when it is rejected.
\<close>

definition FrameShmReader_connect ::
  "FrameShmReader \<Rightarrow> world \<Rightarrow> (error + unit) \<times> FrameShmReader \<times> world" where
  "FrameShmReader_connect r w =
     (case os_open (fb_path r) w of
        (Inl e, w1) \<Rightarrow> (Inl e, r, w1)
      | (Inr (fd, f), w1) \<Rightarrow>
          let r1 = r\<lparr>fb_fd := Some fd\<rparr> in
          (case mmap_new f w1 of
             (Inl e, w2) \<Rightarrow> (Inl e, r1, w2)
           | (Inr m, w2) \<Rightarrow>
               let r2 = r1\<lparr>fb_mm := Some m\<rparr>;
                   header = map (mm_bytes m (now w2))
                              [0..<min (fb_header_size r2) (mm_size m)];
                   w3 = tick w2
               in if length header \<noteq> 28 then (Inl StructError, r2, w3)
                  else
                    let magic = field header 0 4; ver = field header 4 2;
                        fmt = field header 6 2; wd = field header 8 4;
                        h = field header 12 4; stride = field header 16 4;
                        bufcnt = field header 20 4; active = field header 24 4
                    in if magic \<noteq> MAGIC then (Inl RuntimeError, r2, w3)
                       else (Inr (),
                             r2\<lparr>fb_width := wd, fb_height := h, fb_stride := stride,
                                fb_bufcnt := bufcnt, fb_onebuf_size := 8 + h * stride\<rparr>,
                             w3)))"

definition buf_base :: "FrameShmReader \<Rightarrow> nat \<Rightarrow> nat" where
  "buf_base r idx = fb_header_size r + idx * fb_onebuf_size r"

text \<open>
  The \<^verbatim>\<open>while spins < max_spins\<close> loop of \<^verbatim>\<open>latest_frame_view\<close>. The result carries the
  loop's final \<open>spins\<close>.
\<close>

function frame_spin ::
  "FrameShmReader \<Rightarrow> mmap \<Rightarrow> nat \<Rightarrow> int \<Rightarrow> int \<Rightarrow> int \<Rightarrow> world
     \<Rightarrow> (error + memoryview option \<times> nat) \<times> FrameShmReader \<times> int \<times> world" where
  "frame_spin r m base max_spins sleep_ns spins w =
     (if spins < max_spins then
        (case unpack_from 8 m base (now w) of
           Inl e \<Rightarrow> (Inl e, r, spins, w)
         | Inr b1 \<Rightarrow>
             let s1 = le_nat b1; w1 = tick w in
             if s1 AND 1 = 1 then
               (case sleep_if sleep_ns of
                  Inl e \<Rightarrow> (Inl e, r, spins, w1)
                | Inr _ \<Rightarrow>
                    (case unpack_from 8 m base (now w1) of
                       Inl e \<Rightarrow> (Inl e, r, spins, w1)
                     | Inr b2 \<Rightarrow>
                         let s2 = le_nat b2; w2 = tick w1 in
                         if s1 = s2 then
                           let payload_off = base + 8;
                               payload_len = fb_height r * fb_stride r;
                               mv = mm_slice m payload_off (payload_off + payload_len)
                           in (Inr (Some mv, s1), r\<lparr>fb_last_seq := s1\<rparr>, spins,
                               borrow m w2)
                         else
                           (case sleep_if sleep_ns of
                              Inl e \<Rightarrow> (Inl e, r, spins + 1, w2)
                            | Inr _ \<Rightarrow>
                                frame_spin r m base max_spins sleep_ns (spins + 1) w2)))
             else
               (case sleep_if sleep_ns of
                  Inl e \<Rightarrow> (Inl e, r, spins + 1, w1)
                | Inr _ \<Rightarrow> frame_spin r m base max_spins sleep_ns (spins + 1) w1))
      else (Inr (None, fb_last_seq r), r, spins, w))"
  by pat_completeness auto
termination
  by (relation "measure (\<lambda>(r, m, base, max_spins, sleep_ns, spins, w). nat (max_spins - spins))")
     auto

declare frame_spin.simps [simp del]

definition latest_frame_view ::
  "FrameShmReader \<Rightarrow> int \<Rightarrow> int \<Rightarrow> world
     \<Rightarrow> (error + memoryview option \<times> nat) \<times> FrameShmReader \<times> world" where
  "latest_frame_view r max_spins sleep_ns w =
     (case fb_mm r of
        None \<Rightarrow> (Inr (None, fb_last_seq r), r, w)
      | Some m \<Rightarrow>
          (case unpack_from 4 m 24 (now w) of
             Inl e \<Rightarrow> (Inl e, r, w)
           | Inr a \<Rightarrow>
               let active = le_nat a;
                   base = buf_base r active
               in (case frame_spin r m base max_spins sleep_ns 0 (tick w) of
                     (res, r', spins, w') \<Rightarrow> (res, r', w'))))"

definition latest_frame_view_fast ::
  "FrameShmReader \<Rightarrow> world
     \<Rightarrow> (error + memoryview option \<times> nat) \<times> FrameShmReader \<times> world" where
  "latest_frame_view_fast r w =
     (case fb_mm r of
        None \<Rightarrow> (Inr (None, fb_last_seq r), r, w)
      | Some m \<Rightarrow>
          (case unpack_from 4 m 24 (now w) of
             Inl e \<Rightarrow> (Inl e, r, w)
           | Inr a \<Rightarrow>
               let active_idx = le_nat a;
                   base = fb_header_size r + active_idx * fb_onebuf_size r;
                   w1 = tick w
               in (case unpack_from 8 m base (now w1) of
                     Inl e \<Rightarrow> (Inl e, r, w1)
                   | Inr b \<Rightarrow>
                       let seq = le_nat b; w2 = tick w1 in
                       if seq AND 1 = 0 then (Inr (None, fb_last_seq r), r, w2)
                       else
                         let payload_off = base + 8;
                             payload_len = fb_height r * fb_stride r;
                             mv = mm_slice m payload_off (payload_off + payload_len)
                         in (Inr (Some mv, seq), r\<lparr>fb_last_seq := seq\<rparr>,
                             borrow m w2))))"

text \<open>
  \<^verbatim>\<open>close\<close>: the \<^verbatim>\<open>finally\<close> clause clears both fields whether or not the \<^verbatim>\<open>try\<close> body
  raised, and the exception, if any, goes on to the caller.
\<close>

definition FrameShmReader_close ::
  "FrameShmReader \<Rightarrow> world \<Rightarrow> (error + unit) \<times> FrameShmReader \<times> world" where
  "FrameShmReader_close r w =
     (let (res, w') =
            (case (if truthy (fb_mm r) then mmap_close (the (fb_mm r)) w else (Inr (), w)) of
               (Inl e, w1) \<Rightarrow> (Inl e, w1)
             | (Inr _, w1) \<Rightarrow>
                 (case fb_fd r of None \<Rightarrow> (Inr (), w1) | Some fd \<Rightarrow> os_close fd w1))
      in (res, r\<lparr>fb_mm := None, fb_fd := None\<rparr>, w'))"

section \<open>Geometry channel reader\<close>

record GeoShmReader =
  geo_name :: string
  geo_fd :: "nat option"
  geo_mm :: "mmap option"
  geo_count :: nat
  geo_width :: nat
  geo_height :: nat
  geo_last_seq :: nat
  geo_hdr_size :: nat

definition GeoShmReader_init :: "string \<Rightarrow> GeoShmReader" where
  "GeoShmReader_init nm =
     \<lparr>geo_name = nm, geo_fd = None, geo_mm = None, geo_count = 0, geo_width = 0,
      geo_height = 0, geo_last_seq = 0, geo_hdr_size = 24\<rparr>"

definition GeoShmReader_connect ::
  "GeoShmReader \<Rightarrow> world \<Rightarrow> (error + unit) \<times> GeoShmReader \<times> world" where
  "GeoShmReader_connect g w =
     (case os_open (''/dev/shm'' @ geo_name g) w of
        (Inl e, w1) \<Rightarrow> (Inl e, g, w1)
      | (Inr (fd, f), w1) \<Rightarrow>
          let g1 = g\<lparr>geo_fd := Some fd\<rparr> in
          (case mmap_new f w1 of
             (Inl e, w2) \<Rightarrow> (Inl e, g1, w2)
           | (Inr m, w2) \<Rightarrow>
               let g2 = g1\<lparr>geo_mm := Some m\<rparr> in
               (case unpack_from 16 m 0 (now w2) of
                  Inl e \<Rightarrow> (Inl e, g2, w2)
                | Inr hdr \<Rightarrow>
                    let magic = field hdr 0 4; count = field hdr 4 4;
                        wd = field hdr 8 4; h = field hdr 12 4;
                        w3 = tick w2
                    in if magic \<noteq> GEOM_MAGIC then (Inl RuntimeError, g2, w3)
                       else (Inr (),
                             g2\<lparr>geo_count := count, geo_width := wd, geo_height := h\<rparr>,
                             w3))))"

text \<open>The \<^verbatim>\<open>meta\<close> dictionary \<^verbatim>\<open>{"count", "width", "height"}\<close>.\<close>

record geo_meta =
  meta_count :: nat
  meta_width :: nat
  meta_height :: nat

type_synonym geo_result = "memoryview option \<times> geo_meta option \<times> nat"

function geo_spin ::
  "GeoShmReader \<Rightarrow> mmap \<Rightarrow> int \<Rightarrow> int \<Rightarrow> int \<Rightarrow> world
     \<Rightarrow> (error + geo_result) \<times> GeoShmReader \<times> int \<times> world" where
  "geo_spin g m max_spins sleep_ns spins w =
     (if spins < max_spins then
        (case unpack_from 8 m 16 (now w) of
           Inl e \<Rightarrow> (Inl e, g, spins, w)
         | Inr b1 \<Rightarrow>
             let s1 = le_nat b1; w1 = tick w in
             if s1 AND 1 = 1 then
               (case sleep_if sleep_ns of
                  Inl e \<Rightarrow> (Inl e, g, spins, w1)
                | Inr _ \<Rightarrow>
                    (case unpack_from 8 m 16 (now w1) of
                       Inl e \<Rightarrow> (Inl e, g, spins, w1)
                     | Inr b2 \<Rightarrow>
                         let s2 = le_nat b2; w2 = tick w1 in
                         if s1 = s2 then
                           let payload = mm_slice m (geo_hdr_size g)
                                           (geo_hdr_size g + geo_count g * 8);
                               meta = \<lparr>meta_count = geo_count g, meta_width = geo_width g,
                                       meta_height = geo_height g\<rparr>
                           in (Inr (Some payload, Some meta, s1), g\<lparr>geo_last_seq := s1\<rparr>,
                               spins, borrow m w2)
                         else
                           (case sleep_if sleep_ns of
                              Inl e \<Rightarrow> (Inl e, g, spins + 1, w2)
                            | Inr _ \<Rightarrow> geo_spin g m max_spins sleep_ns (spins + 1) w2)))
             else
               (case sleep_if sleep_ns of
                  Inl e \<Rightarrow> (Inl e, g, spins + 1, w1)
                | Inr _ \<Rightarrow> geo_spin g m max_spins sleep_ns (spins + 1) w1))
      else (Inr (None, None, geo_last_seq g), g, spins, w))"
  by pat_completeness auto
termination
  by (relation "measure (\<lambda>(g, m, max_spins, sleep_ns, spins, w). nat (max_spins - spins))")
     auto

declare geo_spin.simps [simp del]

definition GeoShmReader_latest ::
  "GeoShmReader \<Rightarrow> int \<Rightarrow> int \<Rightarrow> world \<Rightarrow> (error + geo_result) \<times> GeoShmReader \<times> world" where
  "GeoShmReader_latest g max_spins sleep_ns w =
     (case geo_mm g of
        None \<Rightarrow> (Inr (None, None, geo_last_seq g), g, w)
      | Some m \<Rightarrow>
          (case geo_spin g m max_spins sleep_ns 0 w of
             (res, g', spins, w') \<Rightarrow> (res, g', w')))"

definition GeoShmReader_latest_fast ::
  "GeoShmReader \<Rightarrow> world \<Rightarrow> (error + geo_result) \<times> GeoShmReader \<times> world" where
  "GeoShmReader_latest_fast g w =
     (case geo_mm g of
        None \<Rightarrow> (Inr (None, None, geo_last_seq g), g, w)
      | Some m \<Rightarrow>
          (case unpack_from 8 m 16 (now w) of
             Inl e \<Rightarrow> (Inl e, g, w)
           | Inr b \<Rightarrow>
               let seq = le_nat b; w1 = tick w in
               if seq AND 1 = 0 then (Inr (None, None, geo_last_seq g), g, w1)
               else
                 let payload = mm_slice m (geo_hdr_size g) (geo_hdr_size g + geo_count g * 8);
                     meta = \<lparr>meta_count = geo_count g, meta_width = geo_width g,
                             meta_height = geo_height g\<rparr>
                 in (Inr (Some payload, Some meta, seq), g\<lparr>geo_last_seq := seq\<rparr>,
                     borrow m w1)))"

definition GeoShmReader_close ::
  "GeoShmReader \<Rightarrow> world \<Rightarrow> (error + unit) \<times> GeoShmReader \<times> world" where
  "GeoShmReader_close g w =
     (let (res, w') =
            (case (if truthy (geo_mm g) then mmap_close (the (geo_mm g)) w else (Inr (), w)) of
               (Inl e, w1) \<Rightarrow> (Inl e, w1)
             | (Inr _, w1) \<Rightarrow>
                 (case geo_fd g of None \<Rightarrow> (Inr (), w1) | Some fd \<Rightarrow> os_close fd w1))
      in (res, g\<lparr>geo_mm := None, geo_fd := None\<rparr>, w'))"

section \<open>Registry reader\<close>

record RegistryReader =
  reg_name :: string
  reg_fd :: "nat option"
  reg_mm :: "mmap option"

definition RegistryReader_init :: "string \<Rightarrow> RegistryReader" where
  "RegistryReader_init nm = \<lparr>reg_name = nm, reg_fd = None, reg_mm = None\<rparr>"

definition RegistryReader_connect ::
  "RegistryReader \<Rightarrow> world \<Rightarrow> (error + unit) \<times> RegistryReader \<times> world" where
  "RegistryReader_connect rd w =
     (case os_open (''/dev/shm'' @ reg_name rd) w of
        (Inl e, w1) \<Rightarrow> (Inl e, rd, w1)
      | (Inr (fd, f), w1) \<Rightarrow>
          let rd1 = rd\<lparr>reg_fd := Some fd\<rparr> in
          (case mmap_new f w1 of
             (Inl e, w2) \<Rightarrow> (Inl e, rd1, w2)
           | (Inr m, w2) \<Rightarrow> (Inr (), rd1\<lparr>reg_mm := Some m\<rparr>, w2)))"

text \<open>
  A camera descriptor, the dictionary \<^verbatim>\<open>{"name", "index", "count", "width", "height"}\<close>.
  The name is what \<^verbatim>\<open>bytes.decode('utf-8', 'ignore')\<close> makes of the bytes before the first
  NUL; the decoder belongs to the Python library and is a parameter \<open>decode\<close> here.
\<close>

record 's camera =
  cam_name :: 's
  cam_index :: nat
  cam_count :: nat
  cam_width :: nat
  cam_height :: nat

text \<open>\<^verbatim>\<open>name_b.split(b'\x00', 1)[0]\<close>: the bytes before the first NUL.\<close>

definition split_nul :: "byte list \<Rightarrow> byte list" where
  "split_nul bs = takeWhile (\<lambda>b. b \<noteq> 0) bs"

text \<open>One 48-byte descriptor \<^verbatim>\<open>"<32s I I I I"\<close>.\<close>

definition unpack_cam :: "(byte list \<Rightarrow> 's) \<Rightarrow> byte list \<Rightarrow> 's camera" where
  "unpack_cam decode b =
     \<lparr>cam_name = decode (split_nul (take 32 b)), cam_index = field b 32 4,
      cam_count = field b 36 4, cam_width = field b 40 4, cam_height = field b 44 4\<rparr>"

text \<open>The \<^verbatim>\<open>for _ in range(count)\<close> loop, with the iterations left as first argument.\<close>

fun cams_loop ::
  "nat \<Rightarrow> (byte list \<Rightarrow> 's) \<Rightarrow> mmap \<Rightarrow> nat \<Rightarrow> 's camera list \<Rightarrow> world
     \<Rightarrow> (error + 's camera list) \<times> world" where
  "cams_loop 0 decode m off cams w = (Inr cams, w)"
| "cams_loop (Suc n) decode m off cams w =
     (case unpack_from 48 m off (now w) of
        Inl e \<Rightarrow> (Inl e, w)
      | Inr b \<Rightarrow> cams_loop n decode m (off + 48) (cams @ [unpack_cam decode b]) (tick w))"

definition list_cameras ::
  "(byte list \<Rightarrow> 's) \<Rightarrow> RegistryReader \<Rightarrow> world \<Rightarrow> (error + 's camera list) \<times> world" where
  "list_cameras decode rd w =
     (if \<not> truthy (reg_mm rd) then (Inr [], w)
      else
        let m = the (reg_mm rd) in
        (case unpack_from 12 m 0 (now w) of
           Inl e \<Rightarrow> (Inl e, w)
         | Inr hdr \<Rightarrow>
             let magic = field hdr 0 4; ver = field hdr 4 4; count = field hdr 8 4;
                 w1 = tick w
             in if magic \<noteq> REG_MAGIC then (Inr [], w1)
                else cams_loop count decode m 12 [] w1))"

section \<open>Control channel writer\<close>

text \<open>
  The float fields are Python floats; \<^verbatim>\<open>struct\<close> rounds each to an IEEE single or
  raises. That conversion is a parameter \<open>pack_f\<close> giving the 32-bit pattern or the error.
  The mapped control segment is the byte list \<open>ctrl_shm\<close>.
\<close>

record 'f CtrlShmWriter =
  ctrl_name :: string
  ctrl_shm :: "byte list option"
  ctrl_seq :: int
  ctrl_pause :: int
  ctrl_dt_scale :: 'f
  ctrl_cam_pos :: "'f list"
  ctrl_cam_look :: "'f list"
  ctrl_cam_up :: "'f list"
  ctrl_debug_flags :: int

fun le_bytes :: "nat \<Rightarrow> nat \<Rightarrow> byte list" where
  "le_bytes 0 v = []"
| "le_bytes (Suc n) v = word_of_nat (v mod 256) # le_bytes n (v div 256)"

text \<open>An unsigned field of \<open>n\<close> bytes: \<^verbatim>\<open>struct.error\<close> when the value does not fit.\<close>

definition pack_uint :: "nat \<Rightarrow> int \<Rightarrow> error + byte list" where
  "pack_uint n v =
     (if 0 \<le> v \<and> v < 2 ^ (8 * n) then Inr (le_bytes n (nat v)) else Inl StructError)"

definition pack_float :: "('f \<Rightarrow> error + 32 word) \<Rightarrow> 'f \<Rightarrow> error + byte list" where
  "pack_float pack_f x =
     (case pack_f x of Inl e \<Rightarrow> Inl e | Inr p \<Rightarrow> Inr (le_bytes 4 (unat p)))"

fun pack_floats :: "('f \<Rightarrow> error + 32 word) \<Rightarrow> 'f list \<Rightarrow> error + byte list" where
  "pack_floats pack_f [] = Inr []"
| "pack_floats pack_f (x # xs) =
     (case pack_float pack_f x of
        Inl e \<Rightarrow> Inl e
      | Inr b \<Rightarrow> (case pack_floats pack_f xs of Inl e \<Rightarrow> Inl e | Inr bs \<Rightarrow> Inr (b @ bs)))"

definition CTRL_STRUCT_size :: nat where
  "CTRL_STRUCT_size = 56"

text \<open>
  \<^verbatim>\<open>Struct("<Q B x x x f 3f 3f 3f I").pack\<close>: thirteen values (the sequence, the pause
  flag, the time scale, nine vector components, the debug flags), packed in order.
\<close>

definition CTRL_STRUCT_pack ::
  "('f \<Rightarrow> error + 32 word) \<Rightarrow> int \<Rightarrow> int \<Rightarrow> 'f \<Rightarrow> 'f list \<Rightarrow> int \<Rightarrow> error + byte list" where
  "CTRL_STRUCT_pack pack_f sq pause dt vecs flags =
     (if length vecs \<noteq> 9 then Inl StructError
      else
        (case pack_uint 8 sq of Inl e \<Rightarrow> Inl e | Inr b_seq \<Rightarrow>
        (case pack_uint 1 pause of Inl e \<Rightarrow> Inl e | Inr b_pause \<Rightarrow>
        (case pack_float pack_f dt of Inl e \<Rightarrow> Inl e | Inr b_dt \<Rightarrow>
        (case pack_floats pack_f vecs of Inl e \<Rightarrow> Inl e | Inr b_vecs \<Rightarrow>
        (case pack_uint 4 flags of Inl e \<Rightarrow> Inl e | Inr b_flags \<Rightarrow>
           Inr (b_seq @ b_pause @ [0, 0, 0] @ b_dt @ b_vecs @ b_flags)))))))"

text \<open>
  \<^verbatim>\<open>write\<close>: the counter goes up first; then the record is packed; then
  \<^verbatim>\<open>shm.buf[:size] = buf\<close>, which needs a segment (\<^verbatim>\<open>AttributeError\<close> on \<^verbatim>\<open>None\<close>) and a
  slice as long as the record (\<^verbatim>\<open>ValueError\<close> otherwise).
\<close>

definition CtrlShmWriter_write ::
  "('f \<Rightarrow> error + 32 word) \<Rightarrow> 'f CtrlShmWriter \<Rightarrow> (error + unit) \<times> 'f CtrlShmWriter" where
  "CtrlShmWriter_write pack_f c =
     (let c1 = c\<lparr>ctrl_seq := ctrl_seq c + 1\<rparr> in
      (case CTRL_STRUCT_pack pack_f (ctrl_seq c1) (ctrl_pause c1) (ctrl_dt_scale c1)
              (ctrl_cam_pos c1 @ ctrl_cam_look c1 @ ctrl_cam_up c1) (ctrl_debug_flags c1) of
         Inl e \<Rightarrow> (Inl e, c1)
       | Inr buf \<Rightarrow>
           (case ctrl_shm c1 of
              None \<Rightarrow> (Inl AttributeError, c1)
            | Some region \<Rightarrow>
                if length (take CTRL_STRUCT_size region) \<noteq> length buf
                then (Inl ValueError, c1)
                else (Inr (), c1\<lparr>ctrl_shm := Some (buf @ drop CTRL_STRUCT_size region)\<rparr>))))"

section \<open>Camera switching in the viewport\<close>

text \<open>
  The viewport's reader slots, the active camera index, the borrowed frame view it keeps
  alive, and the single-shot timers it has armed: each holds the delay and the two old
  readers that the \<^verbatim>\<open>_delayed_close\<close> closure captured.
\<close>

record Viewport =
  vp_fb :: "FrameShmReader option"
  vp_geom :: "GeoShmReader option"
  vp_active_idx :: int
  vp_view_keepalive :: "memoryview option"
  vp_timers :: "(nat \<times> FrameShmReader option \<times> GeoShmReader option) list"

text \<open>Dropping the kept view releases the buffer it borrowed.\<close>

definition release_current_buffers :: "Viewport \<Rightarrow> world \<Rightarrow> Viewport \<times> world" where
  "release_current_buffers vp w =
     (vp\<lparr>vp_view_keepalive := None\<rparr>,
      case vp_view_keepalive vp of None \<Rightarrow> w | Some mv \<Rightarrow> release mv w)"

text \<open>
  \<^verbatim>\<open>_delayed_close\<close>: \<open>Inr True\<close> when it re-armed itself after a \<^verbatim>\<open>BufferError\<close>,
  \<open>Inr False\<close> when it ran to its end; any other exception than \<^verbatim>\<open>BufferError\<close> and
  \<^verbatim>\<open>AttributeError\<close> leaves the callback.
\<close>

definition delayed_close ::
  "FrameShmReader option \<Rightarrow> GeoShmReader option \<Rightarrow> world
     \<Rightarrow> (error + bool) \<times> FrameShmReader option \<times> GeoShmReader option \<times> world" where
  "delayed_close old_fb old_geom w =
     (let (res1, fb', w1) =
            (case old_fb of
               None \<Rightarrow> (Inr False, None, w)
             | Some r \<Rightarrow>
                 (case FrameShmReader_close r w of
                    (Inl e, r', w') \<Rightarrow>
                      if e = BufferError then (Inr True, Some r', w')
                      else if e = AttributeError then (Inr False, Some r', w')
                      else (Inl e, Some r', w')
                  | (Inr _, r', w') \<Rightarrow> (Inr False, Some r', w')))
      in if res1 \<noteq> Inr False then (res1, fb', old_geom, w1)
         else
           (case old_geom of
              None \<Rightarrow> (Inr False, fb', None, w1)
            | Some g \<Rightarrow>
                (case GeoShmReader_close g w1 of
                   (Inl e, g', w') \<Rightarrow>
                     if e = BufferError then (Inr True, fb', Some g', w')
                     else if e = AttributeError then (Inr False, fb', Some g', w')
                     else (Inl e, fb', Some g', w')
                 | (Inr _, g', w') \<Rightarrow> (Inr False, fb', Some g', w'))))"

text \<open>The decimal digits an f-string puts for an integer.\<close>

function digits :: "nat \<Rightarrow> string" where
  "digits n =
     (if n < 10 then [''0123456789'' ! n]
      else digits (n div 10) @ [''0123456789'' ! (n mod 10)])"
  by pat_completeness auto
termination
  by (relation "measure (\<lambda>n. n)") auto

declare digits.simps [simp del]

definition str_int :: "int \<Rightarrow> string" where
  "str_int i = (if i < 0 then CHR ''-'' # digits (nat (- i)) else digits (nat i))"

definition open_camera_by_index ::
  "Viewport \<Rightarrow> int \<Rightarrow> world \<Rightarrow> (error + unit) \<times> Viewport \<times> world" where
  "open_camera_by_index vp idx w =
     (let old_fb = vp_fb vp; old_geom = vp_geom vp;
          (vp1, w1) = release_current_buffers vp w;
          vp2 = vp1\<lparr>vp_timers := vp_timers vp1 @ [(0, old_fb, old_geom)]\<rparr>;
          fb_nm = ''/uc3d_fb'' @ str_int idx;
          geom_nm = ''/uc3d_geom'' @ str_int idx
      in (case FrameShmReader_connect (FrameShmReader_init fb_nm) w1 of
            (Inl e, r, w2) \<Rightarrow> (Inl e, vp2\<lparr>vp_fb := Some r\<rparr>, w2)
          | (Inr _, r, w2) \<Rightarrow>
              let vp3 = vp2\<lparr>vp_fb := Some r\<rparr> in
              (case GeoShmReader_connect (GeoShmReader_init geom_nm) w2 of
                 (Inl e, g, w3) \<Rightarrow> (Inl e, vp3\<lparr>vp_geom := Some g\<rparr>, w3)
               | (Inr _, g, w3) \<Rightarrow>
                   (Inr (), vp3\<lparr>vp_geom := Some g, vp_active_idx := idx\<rparr>, w3))))"

section \<open>Reading the memory directly\<close>

text \<open>
  The little-endian value of the \<open>n\<close> bytes at offset \<open>off\<close> of a memory snapshot, and the
  64-bit sequence a mapping holds at offset \<open>base\<close> at tick \<open>t\<close>.
\<close>

definition le_at :: "(nat \<Rightarrow> byte) \<Rightarrow> nat \<Rightarrow> nat \<Rightarrow> nat" where
  "le_at mem off n = le_nat (map mem [off..<off + n])"

definition seq_at :: "mmap \<Rightarrow> nat \<Rightarrow> nat \<Rightarrow> nat" where
  "seq_at m base t = le_at (mm_bytes m t) base 8"

text \<open>The bytes found under a view by a caller who reads it at tick \<open>t\<close>.\<close>

definition view_bytes :: "mmap \<Rightarrow> memoryview \<Rightarrow> nat \<Rightarrow> byte list" where
  "view_bytes m v t = map (mm_bytes m t) [mv_off v..<mv_off v + mv_len v]"

text \<open>
  The integer a decimal numeral denotes: an optional minus sign, then decimal digits with no
  leading zero (the numeral \<^verbatim>\<open>0\<close> apart, and \<^verbatim>\<open>-0\<close> is not one). Every integer has exactly
  one such numeral; it is the camera index that a segment name carries as its suffix.
\<close>

definition decimal_digit :: "char \<Rightarrow> nat option" where
  "decimal_digit c = (if c \<in> set ''0123456789'' then Some (of_char c - 48) else None)"

fun decimal_nat :: "nat \<Rightarrow> string \<Rightarrow> nat option" where
  "decimal_nat acc [] = Some acc"
| "decimal_nat acc (c # cs) =
     (case decimal_digit c of None \<Rightarrow> None | Some d \<Rightarrow> decimal_nat (10 * acc + d) cs)"

definition parse_nat :: "string \<Rightarrow> nat option" where
  "parse_nat s =
     (if s = [] then None
      else if hd s = CHR ''0'' \<and> 1 < length s then None
      else decimal_nat 0 s)"

definition parse_int :: "string \<Rightarrow> int option" where
  "parse_int s =
     (case s of
        [] \<Rightarrow> None
      | c # cs \<Rightarrow>
          if c = CHR ''-'' then
            (case parse_nat cs of
               None \<Rightarrow> None
             | Some n \<Rightarrow> if n = 0 then None else Some (- int n))
          else map_option int (parse_nat s))"

text \<open>The camera descriptor stored at offset \<open>off\<close> of a memory snapshot.\<close>

definition descriptor_at :: "(byte list \<Rightarrow> 's) \<Rightarrow> (nat \<Rightarrow> byte) \<Rightarrow> nat \<Rightarrow> 's camera" where
  "descriptor_at decode mem off =
     \<lparr>cam_name = decode (takeWhile (\<lambda>b. b \<noteq> 0) (map mem [off..<off + 32])),
      cam_index = le_at mem (off + 32) 4, cam_count = le_at mem (off + 36) 4,
      cam_width = le_at mem (off + 40) 4, cam_height = le_at mem (off + 44) 4\<rparr>"

text \<open>
  The header C4 calls valid, in the claim's words: the magic and the version match, the
  pixel format is RGB888, and the file is at least as long as the header implies,
  \<open>28 + buffer_count * (8 + height * stride)\<close>.
\<close>

definition header_valid :: "shm_file \<Rightarrow> nat \<Rightarrow> bool" where
  "header_valid f t =
     (le_at (f_bytes f t) 0 4 = MAGIC \<and> le_at (f_bytes f t) 4 2 = VERSION
      \<and> le_at (f_bytes f t) 6 2 = FMT_RGB888
      \<and> 28 + le_at (f_bytes f t) 20 4 * (8 + le_at (f_bytes f t) 12 4 * le_at (f_bytes f t) 16 4)
          \<le> f_size f)"

text \<open>
  The control record in the layout the spec gives: sequence (64-bit unsigned), pause flag
  (one byte) and three bytes of padding, time scale, camera position, look and up vectors
  (32-bit floats), debug flags (32-bit unsigned), all little-endian. \<open>packs\<close> says that
  \<open>pack_f\<close> accepts a float, \<open>f32_bits\<close> is the pattern it gives then.
\<close>

definition f32_bits :: "('f \<Rightarrow> error + 32 word) \<Rightarrow> 'f \<Rightarrow> 32 word" where
  "f32_bits pack_f x = (case pack_f x of Inl e \<Rightarrow> 0 | Inr p \<Rightarrow> p)"

definition packs :: "('f \<Rightarrow> error + 32 word) \<Rightarrow> 'f \<Rightarrow> bool" where
  "packs pack_f x = (case pack_f x of Inl e \<Rightarrow> False | Inr p \<Rightarrow> True)"

definition ctrl_record :: "('f \<Rightarrow> error + 32 word) \<Rightarrow> 'f CtrlShmWriter \<Rightarrow> byte list" where
  "ctrl_record pack_f c =
     le_bytes 8 (nat (ctrl_seq c)) @ le_bytes 1 (nat (ctrl_pause c)) @ [0, 0, 0]
     @ le_bytes 4 (unat (f32_bits pack_f (ctrl_dt_scale c)))
     @ concat (map (\<lambda>x. le_bytes 4 (unat (f32_bits pack_f x))) (ctrl_cam_pos c))
     @ concat (map (\<lambda>x. le_bytes 4 (unat (f32_bits pack_f x))) (ctrl_cam_look c))
     @ concat (map (\<lambda>x. le_bytes 4 (unat (f32_bits pack_f x))) (ctrl_cam_up c))
     @ le_bytes 4 (nat (ctrl_debug_flags c))"

text \<open>The values a writer can put in the record: each field in its range, nine floats.\<close>

definition ctrl_fits :: "('f \<Rightarrow> error + 32 word) \<Rightarrow> 'f CtrlShmWriter \<Rightarrow> bool" where
  "ctrl_fits pack_f c =
     (0 \<le> ctrl_seq c \<and> ctrl_seq c < 2 ^ 64 \<and> 0 \<le> ctrl_pause c \<and> ctrl_pause c < 2 ^ 8
      \<and> 0 \<le> ctrl_debug_flags c \<and> ctrl_debug_flags c < 2 ^ 32
      \<and> length (ctrl_cam_pos c @ ctrl_cam_look c @ ctrl_cam_up c) = 9
      \<and> list_all (packs pack_f)
           (ctrl_dt_scale c # ctrl_cam_pos c @ ctrl_cam_look c @ ctrl_cam_up c))"

section \<open>Example segments\<close>

definition byte_at :: "byte list \<Rightarrow> nat \<Rightarrow> byte" where
  "byte_at bs i = (if i < length bs then bs ! i else 0)"

text \<open>A file whose contents never change.\<close>

definition static_file :: "byte list \<Rightarrow> shm_file" where
  "static_file bs = \<lparr>f_size = length bs, f_bytes = (\<lambda>t. byte_at bs)\<rparr>"

definition mmap_of :: "nat \<Rightarrow> shm_file \<Rightarrow> mmap" where
  "mmap_of i f = \<lparr>mm_id = i, mm_size = f_size f, mm_bytes = f_bytes f\<rparr>"

definition world0 :: world where
  "world0 = \<lparr>now = 0, files = (\<lambda>p. None), open_fds = [], mapped = [], exports = (\<lambda>i. 0)\<rparr>"

text \<open>
  A frame segment as in scenario B: two buffers of one row of three bytes, buffer 0 active
  with sequence 7, buffer 1 with sequence 4 (a write in progress).
\<close>

definition fb_two_bytes :: "byte list" where
  "fb_two_bytes =
     [0x42, 0x46, 0x43, 0x55,  1, 0,  0, 0,  1, 0, 0, 0,  1, 0, 0, 0,  3, 0, 0, 0,
      2, 0, 0, 0,  0, 0, 0, 0,
      7, 0, 0, 0, 0, 0, 0, 0,  10, 20, 30,
      4, 0, 0, 0, 0, 0, 0, 0,  40, 50, 60]"

text \<open>The same segment with buffer 1 active: its sequence stays even.\<close>

definition fb_busy_bytes :: "byte list" where
  "fb_busy_bytes =
     [0x42, 0x46, 0x43, 0x55,  1, 0,  0, 0,  1, 0, 0, 0,  1, 0, 0, 0,  3, 0, 0, 0,
      2, 0, 0, 0,  1, 0, 0, 0,
      7, 0, 0, 0, 0, 0, 0, 0,  10, 20, 30,
      4, 0, 0, 0, 0, 0, 0, 0,  40, 50, 60]"

text \<open>
  A frame segment cut short: the header declares one buffer of two rows of three bytes,
  the file ends after the first row.
\<close>

definition fb_short_bytes :: "byte list" where
  "fb_short_bytes =
     [0x42, 0x46, 0x43, 0x55,  1, 0,  0, 0,  1, 0, 0, 0,  2, 0, 0, 0,  3, 0, 0, 0,
      1, 0, 0, 0,  0, 0, 0, 0,
      7, 0, 0, 0, 0, 0, 0, 0,  10, 20, 30]"

text \<open>
  A header alone, of version 2 and format RGB888, declaring two buffers that the file
  does not hold.
\<close>

definition fb_v2_bytes :: "byte list" where
  "fb_v2_bytes =
     [0x42, 0x46, 0x43, 0x55,  2, 0,  0, 0,  1, 0, 0, 0,  2, 0, 0, 0,  3, 0, 0, 0,
      2, 0, 0, 0,  0, 0, 0, 0]"

text \<open>
  A segment of one buffer that the producer rewrites while the consumer reads: the sequence
  is 7 up to tick 3, 8 at tick 4 (a write in progress) and 9 from tick 5 on.
\<close>

definition fb_seq_bytes :: "byte \<Rightarrow> byte list" where
  "fb_seq_bytes s =
     [0x42, 0x46, 0x43, 0x55,  1, 0,  0, 0,  1, 0, 0, 0,  1, 0, 0, 0,  3, 0, 0, 0,
      1, 0, 0, 0,  0, 0, 0, 0,
      s, 0, 0, 0, 0, 0, 0, 0,  10, 20, 30]"

definition fb_moving :: shm_file where
  "fb_moving =
     \<lparr>f_size = 39,
      f_bytes = (\<lambda>t. byte_at (fb_seq_bytes (if t \<le> 3 then 7 else if t = 4 then 8 else 9)))\<rparr>"

definition fb_moving_mm :: mmap where
  "fb_moving_mm = \<lparr>mm_id = 0, mm_size = f_size fb_moving, mm_bytes = f_bytes fb_moving\<rparr>"

definition fb_moving_reader :: FrameShmReader where
  "fb_moving_reader =
     \<lparr>fb_name = ''/uc3d_fb0'', fb_fd = Some 0, fb_mm = Some fb_moving_mm, fb_width = 1,
      fb_height = 1, fb_stride = 3, fb_bufcnt = 1, fb_header_size = 28, fb_onebuf_size = 11,
      fb_last_seq = 0\<rparr>"

text \<open>
  The segment cut short, rewritten by the producer: up to tick 3 it holds sequence 7 and the
  row 10, 20, 30; from tick 4 on it holds sequence 8 (a write in progress) and the row 11,
  21, 31. The world holding it, and the reader and the world that \<^verbatim>\<open>connect\<close> makes there.
\<close>

definition fb_rewritten_bytes :: "byte list" where
  "fb_rewritten_bytes =
     [0x42, 0x46, 0x43, 0x55,  1, 0,  0, 0,  1, 0, 0, 0,  2, 0, 0, 0,  3, 0, 0, 0,
      1, 0, 0, 0,  0, 0, 0, 0,
      8, 0, 0, 0, 0, 0, 0, 0,  11, 21, 31]"

definition fb_torn :: shm_file where
  "fb_torn =
     \<lparr>f_size = 39,
      f_bytes = (\<lambda>t. byte_at (if t \<le> 3 then fb_short_bytes else fb_rewritten_bytes))\<rparr>"

definition fb_torn_world :: world where
  "fb_torn_world =
     world0\<lparr>files := (\<lambda>p. if p = ''/dev/shm/uc3d_fb0'' then Some fb_torn else None)\<rparr>"

definition fb_torn_mm :: mmap where
  "fb_torn_mm = \<lparr>mm_id = 0, mm_size = f_size fb_torn, mm_bytes = f_bytes fb_torn\<rparr>"

definition fb_torn_reader :: FrameShmReader where
  "fb_torn_reader =
     fst (snd (FrameShmReader_connect (FrameShmReader_init ''/uc3d_fb0'') fb_torn_world))"

definition fb_torn_connected :: world where
  "fb_torn_connected =
     snd (snd (FrameShmReader_connect (FrameShmReader_init ''/uc3d_fb0'') fb_torn_world))"

text \<open>Geometry segments: two points with sequence 5; two points declared, one present.\<close>

definition geo_two_bytes :: "byte list" where
  "geo_two_bytes =
     [0x4D, 0x47, 0x43, 0x55,  2, 0, 0, 0,  192, 0, 0, 0,  96, 0, 0, 0,
      5, 0, 0, 0, 0, 0, 0, 0,
      1, 2, 3, 4, 5, 6, 7, 8,  9, 10, 11, 12, 13, 14, 15, 16]"

definition geo_short_bytes :: "byte list" where
  "geo_short_bytes =
     [0x4D, 0x47, 0x43, 0x55,  2, 0, 0, 0,  192, 0, 0, 0,  96, 0, 0, 0,
      5, 0, 0, 0, 0, 0, 0, 0,
      1, 2, 3, 4, 5, 6, 7, 8]"

text \<open>Scenario C: a geometry header with sequence 4 (even).\<close>

definition geo_busy_bytes :: "byte list" where
  "geo_busy_bytes =
     [0x4D, 0x47, 0x43, 0x55,  2, 0, 0, 0,  192, 0, 0, 0,  96, 0, 0, 0,
      4, 0, 0, 0, 0, 0, 0, 0,
      1, 2, 3, 4, 5, 6, 7, 8,  9, 10, 11, 12, 13, 14, 15, 16]"

text \<open>A world holding one file, and the readers that \<^verbatim>\<open>connect\<close> makes there.\<close>

definition world_with :: "string \<Rightarrow> byte list \<Rightarrow> world" where
  "world_with path bs =
     world0\<lparr>files := (\<lambda>p. if p = path then Some (static_file bs) else None)\<rparr>"

definition fb_reader_on :: "byte list \<Rightarrow> FrameShmReader" where
  "fb_reader_on bs =
     fst (snd (FrameShmReader_connect (FrameShmReader_init ''/uc3d_fb0'')
                 (world_with ''/dev/shm/uc3d_fb0'' bs)))"

definition fb_world_on :: "byte list \<Rightarrow> world" where
  "fb_world_on bs =
     snd (snd (FrameShmReader_connect (FrameShmReader_init ''/uc3d_fb0'')
                 (world_with ''/dev/shm/uc3d_fb0'' bs)))"

definition geo_reader_on :: "byte list \<Rightarrow> GeoShmReader" where
  "geo_reader_on bs =
     fst (snd (GeoShmReader_connect (GeoShmReader_init ''/uc3d_geom0'')
                 (world_with ''/dev/shm/uc3d_geom0'' bs)))"

definition geo_world_on :: "byte list \<Rightarrow> world" where
  "geo_world_on bs =
     snd (snd (GeoShmReader_connect (GeoShmReader_init ''/uc3d_geom0'')
                 (world_with ''/dev/shm/uc3d_geom0'' bs)))"

text \<open>
  Scenario A: a registry of two cameras, \<^verbatim>\<open>front\<close> and \<^verbatim>\<open>rear\<close>; and a registry
  header that announces one camera and ends there.
\<close>

definition reg_two_bytes :: "byte list" where
  "reg_two_bytes =
     [0x47, 0x52, 0x43, 0x55,  1, 0, 0, 0,  2, 0, 0, 0,
      0x66, 0x72, 0x6F, 0x6E, 0x74, 0, 0, 0,  0, 0, 0, 0, 0, 0, 0, 0,
      0, 0, 0, 0, 0, 0, 0, 0,  0, 0, 0, 0, 0, 0, 0, 0,
      0, 0, 0, 0,  100, 0, 0, 0,  192, 0, 0, 0,  96, 0, 0, 0,
      0x72, 0x65, 0x61, 0x72, 0, 0, 0, 0,  0, 0, 0, 0, 0, 0, 0, 0,
      0, 0, 0, 0, 0, 0, 0, 0,  0, 0, 0, 0, 0, 0, 0, 0,
      1, 0, 0, 0,  100, 0, 0, 0,  192, 0, 0, 0,  96, 0, 0, 0]"

definition reg_short_bytes :: "byte list" where
  "reg_short_bytes = [0x47, 0x52, 0x43, 0x55,  1, 0, 0, 0,  1, 0, 0, 0]"

definition reg_reader_on :: "byte list \<Rightarrow> RegistryReader" where
  "reg_reader_on bs =
     fst (snd (RegistryReader_connect (RegistryReader_init ''/uc3d_reg'')
                 (world_with ''/dev/shm/uc3d_reg'' bs)))"

definition reg_world_on :: "byte list \<Rightarrow> world" where
  "reg_world_on bs =
     snd (snd (RegistryReader_connect (RegistryReader_init ''/uc3d_reg'')
                 (world_with ''/dev/shm/uc3d_reg'' bs)))"

text \<open>A decoder for names made of ASCII bytes, on which UTF-8 decoding is the identity.\<close>

definition decode_ascii :: "byte list \<Rightarrow> string" where
  "decode_ascii bs = map (\<lambda>b. char_of (unat b)) bs"

text \<open>
  A writer as the constructor leaves it (floats given by their IEEE patterns: 1.0 is
  \<open>0x3F800000\<close>, -1.0 is \<open>0xBF800000\<close>), paused, connected to a segment of 60 bytes.
\<close>

definition ctrl_example :: "32 word CtrlShmWriter" where
  "ctrl_example =
     \<lparr>ctrl_name = ''uc3d_ctrl'', ctrl_shm = Some (replicate 56 0xFF @ [0xAA, 0xBB, 0xCC, 0xDD]),
      ctrl_seq = 0,
      ctrl_pause = 1, ctrl_dt_scale = 0x3F800000, ctrl_cam_pos = [0, 0, 0],
      ctrl_cam_look = [0, 0, 0xBF800000], ctrl_cam_up = [0, 0x3F800000, 0],
      ctrl_debug_flags = 0\<rparr>"

text \<open>
  A viewport on camera 0 (frame of two rows, two points) in a world that also holds the
  segments of camera 3 (frame of one row of three bytes, one point on a 64 by 32 grid) and
  of camera 12 (frame of one row of six bytes, three points on a 128 by 48 grid);
  \<open>switched_to i\<close> is the viewport after switching to camera \<open>i\<close> there.
\<close>

definition geo_cam3_bytes :: "byte list" where
  "geo_cam3_bytes =
     [0x4D, 0x47, 0x43, 0x55,  1, 0, 0, 0,  64, 0, 0, 0,  32, 0, 0, 0,
      9, 0, 0, 0, 0, 0, 0, 0,
      1, 2, 3, 4, 5, 6, 7, 8]"

definition fb_cam12_bytes :: "byte list" where
  "fb_cam12_bytes =
     [0x42, 0x46, 0x43, 0x55,  1, 0,  0, 0,  2, 0, 0, 0,  1, 0, 0, 0,  6, 0, 0, 0,
      1, 0, 0, 0,  0, 0, 0, 0,
      1, 0, 0, 0, 0, 0, 0, 0,  1, 2, 3, 4, 5, 6]"

definition geo_cam12_bytes :: "byte list" where
  "geo_cam12_bytes =
     [0x4D, 0x47, 0x43, 0x55,  3, 0, 0, 0,  128, 0, 0, 0,  48, 0, 0, 0,
      3, 0, 0, 0, 0, 0, 0, 0,
      1, 2, 3, 4, 5, 6, 7, 8,  1, 2, 3, 4, 5, 6, 7, 8,  1, 2, 3, 4, 5, 6, 7, 8]"

definition vp_cam0 :: Viewport where
  "vp_cam0 =
     \<lparr>vp_fb = Some (fb_reader_on fb_short_bytes), vp_geom = Some (geo_reader_on geo_two_bytes),
      vp_active_idx = 0, vp_view_keepalive = None, vp_timers = []\<rparr>"

definition world_cams :: world where
  "world_cams =
     world0\<lparr>files := (\<lambda>p. if p = ''/dev/shm/uc3d_fb3'' then Some (static_file fb_two_bytes)
                         else if p = ''/dev/shm/uc3d_geom3'' then Some (static_file geo_cam3_bytes)
                         else if p = ''/dev/shm/uc3d_fb12'' then Some (static_file fb_cam12_bytes)
                         else if p = ''/dev/shm/uc3d_geom12''
                           then Some (static_file geo_cam12_bytes)
                         else if p = ''/dev/shm/uc3d_fb0'' then Some (static_file fb_short_bytes)
                         else if p = ''/dev/shm/uc3d_geom0'' then Some (static_file geo_two_bytes)
                         else None),
            now := 2, open_fds := [1, 0], mapped := [1, 0]\<rparr>"

definition switched_to :: "int \<Rightarrow> Viewport" where
  "switched_to i = fst (snd (open_camera_by_index vp_cam0 i world_cams))"

text \<open>
  A frame reader right after \<^verbatim>\<open>latest_frame_view_fast\<close> handed out a view, the world at
  that moment, and the view.
\<close>

definition held_reader :: FrameShmReader where
  "held_reader =
     fst (snd (latest_frame_view_fast (fb_reader_on fb_two_bytes) (fb_world_on fb_two_bytes)))"

definition held_world :: world where
  "held_world =
     snd (snd (latest_frame_view_fast (fb_reader_on fb_two_bytes) (fb_world_on fb_two_bytes)))"

definition held_view :: memoryview where
  "held_view = \<lparr>mv_id = 0, mv_off = 36, mv_len = 3\<rparr>"

section \<open>Evaluating the examples\<close>

lemma map_byte_at_upt:
  "j \<le> length bs \<Longrightarrow> map (byte_at bs) [i..<j] = take (j - i) (drop i bs)"
  by (auto simp: list_eq_iff_nth_eq byte_at_def)

lemmas ex_defs = map_byte_at_upt world0_def world_with_def os_open_def mmap_new_def
  lowest_free_def static_file_def unpack_from_def field_def tick_def Let_def mm_slice_def
  borrow_def mmap_of_def

lemma and1_odd: "(n::nat) AND 1 = 1 \<longleftrightarrow> odd n"
  by (simp add: and_one_eq odd_iff_mod_2_eq_one)

lemma and1_even: "(n::nat) AND 1 = 0 \<longleftrightarrow> even n"
  by (simp add: and_one_eq even_iff_mod_2_eq_zero)

lemma le_at_static:
  "off + n \<le> length bs \<Longrightarrow> le_at (byte_at bs) off n = le_nat (take n (drop off bs))"
  by (simp add: le_at_def map_byte_at_upt)

lemma seq_at_static:
  "base + 8 \<le> length bs \<Longrightarrow>
   seq_at (mmap_of i (static_file bs)) base t = le_nat (take 8 (drop base bs))"
  by (simp add: seq_at_def mmap_of_def static_file_def le_at_static)

lemma fb_connect_static:
  assumes "length bs = n" and "28 \<le> n" and "field (take 28 bs) 0 4 = MAGIC"
  shows "FrameShmReader_connect (FrameShmReader_init ''/uc3d_fb0'')
           (world_with ''/dev/shm/uc3d_fb0'' bs) =
     (Inr (),
      \<lparr>fb_name = ''/uc3d_fb0'', fb_fd = Some 0, fb_mm = Some (mmap_of 0 (static_file bs)),
       fb_width = field (take 28 bs) 8 4, fb_height = field (take 28 bs) 12 4,
       fb_stride = field (take 28 bs) 16 4, fb_bufcnt = field (take 28 bs) 20 4,
       fb_header_size = 28,
       fb_onebuf_size = 8 + field (take 28 bs) 12 4 * field (take 28 bs) 16 4,
       fb_last_seq = 0\<rparr>,
      (world_with ''/dev/shm/uc3d_fb0'' bs)\<lparr>now := 1, open_fds := [0], mapped := [0]\<rparr>)"
  using assms
  by (simp add: FrameShmReader_connect_def FrameShmReader_init_def fb_path_def
      startswith_slash_def ex_defs)

lemma geo_connect_static:
  assumes "length bs = n" and "16 \<le> n" and "field (take 16 bs) 0 4 = GEOM_MAGIC"
  shows "GeoShmReader_connect (GeoShmReader_init ''/uc3d_geom0'')
           (world_with ''/dev/shm/uc3d_geom0'' bs) =
     (Inr (),
      \<lparr>geo_name = ''/uc3d_geom0'', geo_fd = Some 0,
       geo_mm = Some (mmap_of 0 (static_file bs)),
       geo_count = field (take 16 bs) 4 4, geo_width = field (take 16 bs) 8 4,
       geo_height = field (take 16 bs) 12 4, geo_last_seq = 0, geo_hdr_size = 24\<rparr>,
      (world_with ''/dev/shm/uc3d_geom0'' bs)\<lparr>now := 1, open_fds := [0], mapped := [0]\<rparr>)"
  using assms
  by (simp add: GeoShmReader_connect_def GeoShmReader_init_def ex_defs)

lemma mm_id_mmap_of [simp]: "mm_id (mmap_of i f) = i"
  by (simp add: mmap_of_def)

lemma mm_size_static [simp]: "mm_size (mmap_of i (static_file bs)) = length bs"
  by (simp add: mmap_of_def static_file_def)

lemma le_at_mmap_static:
  "off + n \<le> length bs \<Longrightarrow>
   le_at (mm_bytes (mmap_of i (static_file bs)) t) off n = le_nat (take n (drop off bs))"
  by (simp add: mmap_of_def static_file_def le_at_static)

lemma fb_on_static:
  assumes "length bs = n" and "28 \<le> n" and "field (take 28 bs) 0 4 = MAGIC"
  shows "fb_reader_on bs =
     \<lparr>fb_name = ''/uc3d_fb0'', fb_fd = Some 0, fb_mm = Some (mmap_of 0 (static_file bs)),
      fb_width = field (take 28 bs) 8 4, fb_height = field (take 28 bs) 12 4,
      fb_stride = field (take 28 bs) 16 4, fb_bufcnt = field (take 28 bs) 20 4,
      fb_header_size = 28,
      fb_onebuf_size = 8 + field (take 28 bs) 12 4 * field (take 28 bs) 16 4,
      fb_last_seq = 0\<rparr>"
    and "now (fb_world_on bs) = 1"
    and "fst (FrameShmReader_connect (FrameShmReader_init ''/uc3d_fb0'')
                (world_with ''/dev/shm/uc3d_fb0'' bs)) = Inr ()"
  by (simp_all add: fb_reader_on_def fb_world_on_def fb_connect_static [OF assms])

lemma geo_on_static:
  assumes "length bs = n" and "16 \<le> n" and "field (take 16 bs) 0 4 = GEOM_MAGIC"
  shows "geo_reader_on bs =
     \<lparr>geo_name = ''/uc3d_geom0'', geo_fd = Some 0,
      geo_mm = Some (mmap_of 0 (static_file bs)),
      geo_count = field (take 16 bs) 4 4, geo_width = field (take 16 bs) 8 4,
      geo_height = field (take 16 bs) 12 4, geo_last_seq = 0, geo_hdr_size = 24\<rparr>"
    and "now (geo_world_on bs) = 1"
    and "fst (GeoShmReader_connect (GeoShmReader_init ''/uc3d_geom0'')
                (world_with ''/dev/shm/uc3d_geom0'' bs)) = Inr ()"
  by (simp_all add: geo_reader_on_def geo_world_on_def geo_connect_static [OF assms])

lemma fb_two_facts:
  "fb_mm (fb_reader_on fb_two_bytes) = Some (mmap_of 0 (static_file fb_two_bytes))"
  "fb_header_size (fb_reader_on fb_two_bytes) = 28"
  "fb_onebuf_size (fb_reader_on fb_two_bytes) = 11"
  "fb_height (fb_reader_on fb_two_bytes) = 1"
  "fb_stride (fb_reader_on fb_two_bytes) = 3"
  "fb_last_seq (fb_reader_on fb_two_bytes) = 0"
  "now (fb_world_on fb_two_bytes) = 1"
  "length fb_two_bytes = 50"
  "le_at (mm_bytes (mmap_of 0 (static_file fb_two_bytes)) t) 24 4 = 0"
  "seq_at (mmap_of 0 (static_file fb_two_bytes)) 28 t = 7"
proof -
  have l: "length fb_two_bytes = 50" and m: "field (take 28 fb_two_bytes) 0 4 = MAGIC"
    by (simp_all add: fb_two_bytes_def field_def MAGIC_def)
  note on = fb_on_static [OF l _ m]
  show "fb_mm (fb_reader_on fb_two_bytes) = Some (mmap_of 0 (static_file fb_two_bytes))"
    "fb_header_size (fb_reader_on fb_two_bytes) = 28"
    "now (fb_world_on fb_two_bytes) = 1"
    "fb_last_seq (fb_reader_on fb_two_bytes) = 0"
    "length fb_two_bytes = 50"
    by (simp_all add: on l)
  show "fb_onebuf_size (fb_reader_on fb_two_bytes) = 11"
    "fb_height (fb_reader_on fb_two_bytes) = 1"
    "fb_stride (fb_reader_on fb_two_bytes) = 3"
    by (simp_all add: on(1)) (simp_all add: fb_two_bytes_def field_def)
  show "le_at (mm_bytes (mmap_of 0 (static_file fb_two_bytes)) t) 24 4 = 0"
    by (simp add: le_at_mmap_static l) (simp add: fb_two_bytes_def)
  show "seq_at (mmap_of 0 (static_file fb_two_bytes)) 28 t = 7"
    by (simp add: seq_at_static l) (simp add: fb_two_bytes_def)
qed

lemma fb_busy_facts:
  "fb_mm (fb_reader_on fb_busy_bytes) = Some (mmap_of 0 (static_file fb_busy_bytes))"
  "fb_header_size (fb_reader_on fb_busy_bytes) = 28"
  "fb_onebuf_size (fb_reader_on fb_busy_bytes) = 11"
  "fb_height (fb_reader_on fb_busy_bytes) = 1"
  "fb_stride (fb_reader_on fb_busy_bytes) = 3"
  "fb_last_seq (fb_reader_on fb_busy_bytes) = 0"
  "now (fb_world_on fb_busy_bytes) = 1"
  "length fb_busy_bytes = 50"
  "le_at (mm_bytes (mmap_of 0 (static_file fb_busy_bytes)) t) 24 4 = 1"
  "seq_at (mmap_of 0 (static_file fb_busy_bytes)) 39 t = 4"
proof -
  have l: "length fb_busy_bytes = 50" and m: "field (take 28 fb_busy_bytes) 0 4 = MAGIC"
    by (simp_all add: fb_busy_bytes_def field_def MAGIC_def)
  note on = fb_on_static [OF l _ m]
  show "fb_mm (fb_reader_on fb_busy_bytes) = Some (mmap_of 0 (static_file fb_busy_bytes))"
    "fb_header_size (fb_reader_on fb_busy_bytes) = 28"
    "now (fb_world_on fb_busy_bytes) = 1"
    "fb_last_seq (fb_reader_on fb_busy_bytes) = 0"
    "length fb_busy_bytes = 50"
    by (simp_all add: on l)
  show "fb_onebuf_size (fb_reader_on fb_busy_bytes) = 11"
    "fb_height (fb_reader_on fb_busy_bytes) = 1"
    "fb_stride (fb_reader_on fb_busy_bytes) = 3"
    by (simp_all add: on(1)) (simp_all add: fb_busy_bytes_def field_def)
  show "le_at (mm_bytes (mmap_of 0 (static_file fb_busy_bytes)) t) 24 4 = 1"
    by (simp add: le_at_mmap_static l) (simp add: fb_busy_bytes_def)
  show "seq_at (mmap_of 0 (static_file fb_busy_bytes)) 39 t = 4"
    by (simp add: seq_at_static l) (simp add: fb_busy_bytes_def)
qed

lemma fb_short_facts:
  "fb_mm (fb_reader_on fb_short_bytes) = Some (mmap_of 0 (static_file fb_short_bytes))"
  "fb_header_size (fb_reader_on fb_short_bytes) = 28"
  "fb_onebuf_size (fb_reader_on fb_short_bytes) = 14"
  "fb_height (fb_reader_on fb_short_bytes) = 2"
  "fb_stride (fb_reader_on fb_short_bytes) = 3"
  "fb_last_seq (fb_reader_on fb_short_bytes) = 0"
  "now (fb_world_on fb_short_bytes) = 1"
  "length fb_short_bytes = 39"
  "le_at (mm_bytes (mmap_of 0 (static_file fb_short_bytes)) t) 24 4 = 0"
  "seq_at (mmap_of 0 (static_file fb_short_bytes)) 28 t = 7"
  "fst (FrameShmReader_connect (FrameShmReader_init ''/uc3d_fb0'')
          (world_with ''/dev/shm/uc3d_fb0'' fb_short_bytes)) = Inr ()"
proof -
  have l: "length fb_short_bytes = 39" and m: "field (take 28 fb_short_bytes) 0 4 = MAGIC"
    by (simp_all add: fb_short_bytes_def field_def MAGIC_def)
  note on = fb_on_static [OF l _ m]
  show "fb_mm (fb_reader_on fb_short_bytes) = Some (mmap_of 0 (static_file fb_short_bytes))"
    "fb_header_size (fb_reader_on fb_short_bytes) = 28"
    "now (fb_world_on fb_short_bytes) = 1"
    "fb_last_seq (fb_reader_on fb_short_bytes) = 0"
    "length fb_short_bytes = 39"
    "fst (FrameShmReader_connect (FrameShmReader_init ''/uc3d_fb0'')
          (world_with ''/dev/shm/uc3d_fb0'' fb_short_bytes)) = Inr ()"
    by (simp_all add: on l)
  show "fb_onebuf_size (fb_reader_on fb_short_bytes) = 14"
    "fb_height (fb_reader_on fb_short_bytes) = 2"
    "fb_stride (fb_reader_on fb_short_bytes) = 3"
    by (simp_all add: on(1)) (simp_all add: fb_short_bytes_def field_def)
  show "le_at (mm_bytes (mmap_of 0 (static_file fb_short_bytes)) t) 24 4 = 0"
    by (simp add: le_at_mmap_static l) (simp add: fb_short_bytes_def)
  show "seq_at (mmap_of 0 (static_file fb_short_bytes)) 28 t = 7"
    by (simp add: seq_at_static l) (simp add: fb_short_bytes_def)
qed

lemma geo_facts_gen:
  assumes "length bs = n" and "24 \<le> n" and "field (take 16 bs) 0 4 = GEOM_MAGIC"
  shows "geo_mm (geo_reader_on bs) = Some (mmap_of 0 (static_file bs))"
    and "geo_hdr_size (geo_reader_on bs) = 24"
    and "geo_last_seq (geo_reader_on bs) = 0"
    and "geo_count (geo_reader_on bs) = field (take 16 bs) 4 4"
    and "geo_width (geo_reader_on bs) = field (take 16 bs) 8 4"
    and "geo_height (geo_reader_on bs) = field (take 16 bs) 12 4"
    and "now (geo_world_on bs) = 1"
    and "seq_at (mmap_of 0 (static_file bs)) 16 t = le_nat (take 8 (drop 16 bs))"
    and "fst (GeoShmReader_connect (GeoShmReader_init ''/uc3d_geom0'')
                (world_with ''/dev/shm/uc3d_geom0'' bs)) = Inr ()"
proof -
  from assms have "16 \<le> n" by simp
  note on = geo_on_static [OF assms(1) this assms(3)]
  show "geo_mm (geo_reader_on bs) = Some (mmap_of 0 (static_file bs))"
    and "geo_hdr_size (geo_reader_on bs) = 24"
    and "geo_last_seq (geo_reader_on bs) = 0"
    and "geo_count (geo_reader_on bs) = field (take 16 bs) 4 4"
    and "geo_width (geo_reader_on bs) = field (take 16 bs) 8 4"
    and "geo_height (geo_reader_on bs) = field (take 16 bs) 12 4"
    and "now (geo_world_on bs) = 1"
    and "fst (GeoShmReader_connect (GeoShmReader_init ''/uc3d_geom0'')
                (world_with ''/dev/shm/uc3d_geom0'' bs)) = Inr ()"
    by (simp_all add: on)
  show "seq_at (mmap_of 0 (static_file bs)) 16 t = le_nat (take 8 (drop 16 bs))"
    using assms by (simp add: seq_at_static)
qed

lemma geo_two_hdr:
  "length geo_two_bytes = 40" "field (take 16 geo_two_bytes) 0 4 = GEOM_MAGIC"
  "field (take 16 geo_two_bytes) 4 4 = 2" "field (take 16 geo_two_bytes) 8 4 = 192"
  "field (take 16 geo_two_bytes) 12 4 = 96" "le_nat (take 8 (drop 16 geo_two_bytes)) = 5"
  by (simp_all add: geo_two_bytes_def field_def GEOM_MAGIC_def)

lemma geo_busy_hdr:
  "length geo_busy_bytes = 40" "field (take 16 geo_busy_bytes) 0 4 = GEOM_MAGIC"
  "field (take 16 geo_busy_bytes) 4 4 = 2" "field (take 16 geo_busy_bytes) 8 4 = 192"
  "field (take 16 geo_busy_bytes) 12 4 = 96" "le_nat (take 8 (drop 16 geo_busy_bytes)) = 4"
  by (simp_all add: geo_busy_bytes_def field_def GEOM_MAGIC_def)

lemma geo_short_hdr:
  "length geo_short_bytes = 32" "field (take 16 geo_short_bytes) 0 4 = GEOM_MAGIC"
  "field (take 16 geo_short_bytes) 4 4 = 2" "field (take 16 geo_short_bytes) 8 4 = 192"
  "field (take 16 geo_short_bytes) 12 4 = 96" "le_nat (take 8 (drop 16 geo_short_bytes)) = 5"
  by (simp_all add: geo_short_bytes_def field_def GEOM_MAGIC_def)

lemmas geo_two_facts = geo_facts_gen [OF geo_two_hdr(1) _ geo_two_hdr(2), simplified geo_two_hdr]
lemmas geo_busy_facts = geo_facts_gen [OF geo_busy_hdr(1) _ geo_busy_hdr(2), simplified geo_busy_hdr]
lemmas geo_short_facts = geo_facts_gen [OF geo_short_hdr(1) _ geo_short_hdr(2), simplified geo_short_hdr]

section \<open>Connecting the frame reader\<close>

lemma field_map_upt:
  "i + n \<le> k \<Longrightarrow> field (map mem [0..<k]) i n = le_at mem i n"
  by (simp add: field_def le_at_def drop_map take_map take_upt)

lemma FrameShmReader_connect_eq:
  assumes "files w (fb_path r) = Some f" and "28 \<le> f_size f" and "fb_header_size r = 28"
  shows "FrameShmReader_connect r w =
     (let fd = lowest_free (open_fds w);
          m = \<lparr>mm_id = lowest_free (mapped w), mm_size = f_size f, mm_bytes = f_bytes f\<rparr>;
          w' = tick (w\<lparr>open_fds := fd # open_fds w, mapped := mm_id m # mapped w\<rparr>);
          mem = f_bytes f (now w)
      in if le_at mem 0 4 = MAGIC
         then (Inr (),
               r\<lparr>fb_fd := Some fd, fb_mm := Some m, fb_width := le_at mem 8 4,
                  fb_height := le_at mem 12 4, fb_stride := le_at mem 16 4,
                  fb_bufcnt := le_at mem 20 4,
                  fb_onebuf_size := 8 + le_at mem 12 4 * le_at mem 16 4\<rparr>, w')
         else (Inl RuntimeError, r\<lparr>fb_fd := Some fd, fb_mm := Some m\<rparr>, w'))"
  using assms
  by (simp add: FrameShmReader_connect_def os_open_def mmap_new_def Let_def field_map_upt
      min_absorb1 tick_def)

lemma files_world_with:
  "files (world_with p bs) p = Some (static_file bs)" "now (world_with p bs) = 0"
  by (simp_all add: world_with_def world0_def)

lemma fb_path_init: "fb_path (FrameShmReader_init ''/uc3d_fb0'') = ''/dev/shm/uc3d_fb0''"
  by (simp add: fb_path_def FrameShmReader_init_def startswith_slash_def)

lemma static_file_sel [simp]:
  "f_size (static_file bs) = length bs" "f_bytes (static_file bs) t = byte_at bs"
  by (simp_all add: static_file_def)

text \<open>
  C4 (as amended). For a segment that exists, is at least 28 bytes long and declares the
  pixel format RGB888, \<^verbatim>\<open>connect\<close> fails exactly when the magic does not match (with
  \<^verbatim>\<open>RuntimeError\<close>, the descriptor and the mapping staying set); otherwise it succeeds
  and stores the declared width, height, stride and buffer count and
  \<open>onebuf_size = 8 + height * stride\<close>. Neither the version nor the length of the file
  beyond the header is looked at. Segments of another pixel format are outside this
  statement (the sibling reader \<^verbatim>\<open>read_header\<close> of \<^verbatim>\<open>uc3d_view.py\<close> refuses them,
  \<^verbatim>\<open>connect\<close> does not look).
\<close>

theorem connect_amended:
  assumes "files w (fb_path r) = Some f" and "28 \<le> f_size f" and "fb_header_size r = 28"
    and "le_at (f_bytes f (now w)) 6 2 = FMT_RGB888"
  shows "FrameShmReader_connect r w =
     (let fd = lowest_free (open_fds w);
          m = \<lparr>mm_id = lowest_free (mapped w), mm_size = f_size f, mm_bytes = f_bytes f\<rparr>;
          w' = tick (w\<lparr>open_fds := fd # open_fds w, mapped := mm_id m # mapped w\<rparr>);
          mem = f_bytes f (now w)
      in if le_at mem 0 4 = MAGIC
         then (Inr (),
               r\<lparr>fb_fd := Some fd, fb_mm := Some m, fb_width := le_at mem 8 4,
                  fb_height := le_at mem 12 4, fb_stride := le_at mem 16 4,
                  fb_bufcnt := le_at mem 20 4,
                  fb_onebuf_size := 8 + le_at mem 12 4 * le_at mem 16 4\<rparr>, w')
         else (Inl RuntimeError, r\<lparr>fb_fd := Some fd, fb_mm := Some m\<rparr>, w'))"
  using assms(1-3) by (rule FrameShmReader_connect_eq)

text \<open>
  The two-buffer segment is accepted with its declared geometry; a geometry segment
  offered under the frame name (magic \<^verbatim>\<open>UCGM\<close>) is refused.
\<close>

theorem connect_amended_witness:
  "files (world_with ''/dev/shm/uc3d_fb0'' fb_two_bytes)
       (fb_path (FrameShmReader_init ''/uc3d_fb0'')) = Some (static_file fb_two_bytes)
   \<and> 28 \<le> f_size (static_file fb_two_bytes)
   \<and> fb_header_size (FrameShmReader_init ''/uc3d_fb0'') = 28
   \<and> le_at (f_bytes (static_file fb_two_bytes) 0) 6 2 = FMT_RGB888
   \<and> fst (FrameShmReader_connect (FrameShmReader_init ''/uc3d_fb0'')
            (world_with ''/dev/shm/uc3d_fb0'' fb_two_bytes)) = Inr ()
   \<and> fb_width (fb_reader_on fb_two_bytes) = 1 \<and> fb_height (fb_reader_on fb_two_bytes) = 1
   \<and> fb_stride (fb_reader_on fb_two_bytes) = 3 \<and> fb_bufcnt (fb_reader_on fb_two_bytes) = 2
   \<and> fb_onebuf_size (fb_reader_on fb_two_bytes) = 11
   \<and> files (world_with ''/dev/shm/uc3d_fb0'' geo_two_bytes)
       (fb_path (FrameShmReader_init ''/uc3d_fb0'')) = Some (static_file geo_two_bytes)
   \<and> 28 \<le> f_size (static_file geo_two_bytes)
   \<and> le_at (f_bytes (static_file geo_two_bytes) 0) 6 2 = FMT_RGB888
   \<and> fst (FrameShmReader_connect (FrameShmReader_init ''/uc3d_fb0'')
            (world_with ''/dev/shm/uc3d_fb0'' geo_two_bytes)) = Inl RuntimeError"
proof -
  let ?r = "FrameShmReader_init ''/uc3d_fb0''"
  let ?w = "world_with ''/dev/shm/uc3d_fb0'' fb_two_bytes"
  let ?v = "world_with ''/dev/shm/uc3d_fb0'' geo_two_bytes"
  have a: "files ?w (fb_path ?r) = Some (static_file fb_two_bytes)"
    and a': "files ?v (fb_path ?r) = Some (static_file geo_two_bytes)"
    by (simp_all add: fb_path_init files_world_with)
  have b: "28 \<le> f_size (static_file fb_two_bytes)"
    and b': "28 \<le> f_size (static_file geo_two_bytes)"
    by (simp_all add: fb_two_bytes_def geo_two_bytes_def)
  have c: "fb_header_size ?r = 28"
    by (simp add: FrameShmReader_init_def)
  have d: "le_at (f_bytes (static_file fb_two_bytes) (now ?w)) 6 2 = FMT_RGB888"
    and d': "le_at (f_bytes (static_file geo_two_bytes) (now ?v)) 6 2 = FMT_RGB888"
    by (simp_all add: le_at_static FMT_RGB888_def fb_two_bytes_def geo_two_bytes_def)
  have e: "le_at (byte_at fb_two_bytes) 0 4 = MAGIC" "le_at (byte_at fb_two_bytes) 8 4 = 1"
    "le_at (byte_at fb_two_bytes) 12 4 = 1" "le_at (byte_at fb_two_bytes) 16 4 = 3"
    "le_at (byte_at fb_two_bytes) 20 4 = 2"
    by (simp_all add: le_at_static MAGIC_def fb_two_bytes_def)
  have e': "le_at (byte_at geo_two_bytes) 0 4 \<noteq> MAGIC"
    by (simp add: le_at_static MAGIC_def geo_two_bytes_def)
  have "fst (FrameShmReader_connect ?r ?w) = Inr ()
      \<and> fb_width (fb_reader_on fb_two_bytes) = 1 \<and> fb_height (fb_reader_on fb_two_bytes) = 1
      \<and> fb_stride (fb_reader_on fb_two_bytes) = 3 \<and> fb_bufcnt (fb_reader_on fb_two_bytes) = 2
      \<and> fb_onebuf_size (fb_reader_on fb_two_bytes) = 11"
    unfolding fb_reader_on_def connect_amended [OF a b c d]
    by (simp add: Let_def files_world_with e)
  moreover have "fst (FrameShmReader_connect ?r ?v) = Inl RuntimeError"
    unfolding connect_amended [OF a' b' c d']
    by (simp add: Let_def files_world_with e')
  ultimately show ?thesis
    using a b c d a' b' d' by (simp add: files_world_with)
qed

text \<open>
  The claim as stated fails on a 28-byte segment of version 2 that declares two buffers of
  two rows of three bytes (56 bytes in all): the header is invalid in the claim's sense
  twice over, the format is RGB888, and \<^verbatim>\<open>connect\<close> succeeds.
\<close>

theorem connect_unchecked_counterexample:
  "\<not> header_valid (static_file fb_v2_bytes) 0
   \<and> le_at (f_bytes (static_file fb_v2_bytes) 0) 4 2 = 2
   \<and> le_at (f_bytes (static_file fb_v2_bytes) 0) 6 2 = FMT_RGB888
   \<and> f_size (static_file fb_v2_bytes) = 28
   \<and> 28 + le_at (f_bytes (static_file fb_v2_bytes) 0) 20 4
          * (8 + le_at (f_bytes (static_file fb_v2_bytes) 0) 12 4
                 * le_at (f_bytes (static_file fb_v2_bytes) 0) 16 4) = 56
   \<and> fst (FrameShmReader_connect (FrameShmReader_init ''/uc3d_fb0'')
            (world_with ''/dev/shm/uc3d_fb0'' fb_v2_bytes)) = Inr ()"
proof -
  have l: "length fb_v2_bytes = 28" and m: "field (take 28 fb_v2_bytes) 0 4 = MAGIC"
    by (simp_all add: fb_v2_bytes_def field_def MAGIC_def)
  have f: "le_at (byte_at fb_v2_bytes) 4 2 = 2" "le_at (byte_at fb_v2_bytes) 6 2 = FMT_RGB888"
    "le_at (byte_at fb_v2_bytes) 20 4 = 2" "le_at (byte_at fb_v2_bytes) 12 4 = 2"
    "le_at (byte_at fb_v2_bytes) 16 4 = 3"
    by (simp_all add: le_at_static FMT_RGB888_def fb_v2_bytes_def)
  have "fst (FrameShmReader_connect (FrameShmReader_init ''/uc3d_fb0'')
            (world_with ''/dev/shm/uc3d_fb0'' fb_v2_bytes)) = Inr ()"
    by (simp add: fb_connect_static [OF l _ m])
  then show ?thesis
    by (simp add: header_valid_def f l VERSION_def)
qed

section \<open>The bounded-spin frame read\<close>

lemma now_tick [simp]: "now (tick w) = now w + 1"
  by (simp add: tick_def)

lemma now_borrow [simp]: "now (borrow m w) = now w"
  by (simp add: borrow_def)

lemma frame_spin_unfold:
  assumes "base + 8 \<le> mm_size m"
  shows "frame_spin r m base N sl sp w =
    (if sp < N then
       if odd (seq_at m base (now w)) then
         if sl \<noteq> 0 then (Inl NameError, r, sp, tick w)
         else if seq_at m base (now w) = seq_at m base (now w + 1) then
           (Inr (Some (mm_slice m (base + 8) (base + 8 + fb_height r * fb_stride r)),
                 seq_at m base (now w)),
            r\<lparr>fb_last_seq := seq_at m base (now w)\<rparr>, sp, borrow m (tick (tick w)))
         else frame_spin r m base N sl (sp + 1) (tick (tick w))
       else if sl \<noteq> 0 then (Inl NameError, r, sp + 1, tick w)
       else frame_spin r m base N sl (sp + 1) (tick w)
     else (Inr (None, fb_last_seq r), r, sp, w))"
  using assms
  by (subst frame_spin.simps)
     (simp add: unpack_from_def seq_at_def le_at_def sleep_if_def odd_iff_mod_2_eq_one tick_def Let_def)

lemma frame_spin_view:
  assumes "base + 8 \<le> mm_size m"
  shows "frame_spin r m base N sl sp w = (Inr (Some v, s), r', sp', w') \<Longrightarrow>
     now w + 2 \<le> now w' \<and> seq_at m base (now w' - 2) = s \<and> seq_at m base (now w' - 1) = s
     \<and> odd s \<and> v = mm_slice m (base + 8) (base + 8 + fb_height r * fb_stride r)
     \<and> r' = r\<lparr>fb_last_seq := s\<rparr> \<and> sl = 0"
proof (induction "nat (N - sp)" arbitrary: sp w)
  case 0
  then show ?case
    by (simp add: frame_spin_unfold [OF assms])
next
  case (Suc k)
  from Suc.hyps(2) have lt: "sp < N" and k: "k = nat (N - (sp + 1))" by linarith+
  show ?case
  proof (cases "odd (seq_at m base (now w))")
    case True
    show ?thesis
    proof (cases "sl \<noteq> 0")
      case True
      with Suc.prems lt \<open>odd _\<close> show ?thesis
        by (simp add: frame_spin_unfold [OF assms, of r N sl sp w])
    next
      case sl0: False
      show ?thesis
      proof (cases "seq_at m base (now w) = seq_at m base (now w + 1)")
        case True
        with Suc.prems lt \<open>odd _\<close> sl0 show ?thesis
          by (auto simp add: frame_spin_unfold [OF assms, of r N sl sp w])
      next
        case False
        with Suc.prems lt \<open>odd _\<close> sl0
        have "frame_spin r m base N sl (sp + 1) (tick (tick w)) = (Inr (Some v, s), r', sp', w')"
          by (simp add: frame_spin_unfold [OF assms, of r N sl sp w])
        from Suc.hyps(1) [OF k this] show ?thesis by auto
      qed
    qed
  next
    case False
    show ?thesis
    proof (cases "sl \<noteq> 0")
      case True
      with Suc.prems lt False show ?thesis
        by (simp add: frame_spin_unfold [OF assms, of r N sl sp w])
    next
      case sl0: False
      with Suc.prems lt False
      have "frame_spin r m base N sl (sp + 1) (tick w) = (Inr (Some v, s), r', sp', w')"
        by (simp add: frame_spin_unfold [OF assms, of r N sl sp w])
      from Suc.hyps(1) [OF k this] show ?thesis by auto
    qed
  qed
qed

lemma frame_spin_no_view:
  assumes "base + 8 \<le> mm_size m"
  shows "frame_spin r m base N sl sp w = (res, r', sp', w') \<Longrightarrow>
     \<forall>v s. res \<noteq> Inr (Some v, s) \<Longrightarrow>
     now w' = now w \<or> (sl \<noteq> 0 \<and> now w' = now w + 1) \<or> even (seq_at m base (now w' - 1))
     \<or> (now w + 2 \<le> now w' \<and> seq_at m base (now w' - 2) \<noteq> seq_at m base (now w' - 1))"
proof (induction "nat (N - sp)" arbitrary: sp w)
  case 0
  then show ?case
    by (simp add: frame_spin_unfold [OF assms])
next
  case (Suc k)
  from Suc.hyps(2) have lt: "sp < N" and k: "k = nat (N - (sp + 1))" by linarith+
  show ?case
  proof (cases "odd (seq_at m base (now w))")
    case True
    show ?thesis
    proof (cases "sl \<noteq> 0")
      case True
      with Suc.prems lt \<open>odd _\<close> show ?thesis
        by (auto simp add: frame_spin_unfold [OF assms, of r N sl sp w])
    next
      case sl0: False
      show ?thesis
      proof (cases "seq_at m base (now w) = seq_at m base (now w + 1)")
        case True
        with Suc.prems lt \<open>odd _\<close> sl0 show ?thesis
          by (auto simp add: frame_spin_unfold [OF assms, of r N sl sp w])
      next
        case False
        with Suc.prems lt \<open>odd _\<close> sl0
        have "frame_spin r m base N sl (sp + 1) (tick (tick w)) = (res, r', sp', w')"
          by (simp add: frame_spin_unfold [OF assms, of r N sl sp w])
        from Suc.hyps(1) [OF k this Suc.prems(2)] False sl0 show ?thesis by auto
      qed
    qed
  next
    case False
    show ?thesis
    proof (cases "sl \<noteq> 0")
      case True
      with Suc.prems lt False show ?thesis
        by (auto simp add: frame_spin_unfold [OF assms, of r N sl sp w])
    next
      case sl0: False
      with Suc.prems lt False
      have "frame_spin r m base N sl (sp + 1) (tick w) = (res, r', sp', w')"
        by (simp add: frame_spin_unfold [OF assms, of r N sl sp w])
      from Suc.hyps(1) [OF k this Suc.prems(2)] False sl0 show ?thesis by auto
    qed
  qed
qed

text \<open>
  What a call leaves of the world: the clock has moved and, when a view was handed out, the
  mapping is borrowed once more. A call that hands out no view (with \<open>sleep_ns = 0\<close>) has
  read the sequence at least once in each of the attempts left to it.
\<close>

lemma tick_now_upd: "(tick w)\<lparr>now := k\<rparr> = w\<lparr>now := k\<rparr>"
  by (simp add: tick_def)

lemma frame_spin_frame:
  assumes "base + 8 \<le> mm_size m"
  shows "frame_spin r m base N sl sp w = (res, r', sp', w') \<Longrightarrow>
     w' = (if \<exists>v s. res = Inr (Some v, s) then borrow m (w\<lparr>now := now w'\<rparr>)
           else w\<lparr>now := now w'\<rparr>)"
proof (induction "nat (N - sp)" arbitrary: sp w)
  case 0
  then show ?case
    by (auto simp add: frame_spin_unfold [OF assms])
next
  case (Suc k)
  from Suc.hyps(2) have lt: "sp < N" and k: "k = nat (N - (sp + 1))" by linarith+
  show ?case
  proof (cases "odd (seq_at m base (now w))")
    case True
    show ?thesis
    proof (cases "sl \<noteq> 0")
      case True
      with Suc.prems lt \<open>odd _\<close> show ?thesis
        by (auto simp add: frame_spin_unfold [OF assms, of r N sl sp w] tick_def)
    next
      case sl0: False
      show ?thesis
      proof (cases "seq_at m base (now w) = seq_at m base (now w + 1)")
        case True
        with Suc.prems lt \<open>odd _\<close> sl0 show ?thesis
          by (auto simp add: frame_spin_unfold [OF assms, of r N sl sp w] tick_def borrow_def)
      next
        case False
        with Suc.prems lt \<open>odd _\<close> sl0
        have "frame_spin r m base N sl (sp + 1) (tick (tick w)) = (res, r', sp', w')"
          by (simp add: frame_spin_unfold [OF assms, of r N sl sp w])
        from Suc.hyps(1) [OF k this] show ?thesis by (simp only: tick_now_upd)
      qed
    qed
  next
    case False
    show ?thesis
    proof (cases "sl \<noteq> 0")
      case True
      with Suc.prems lt False show ?thesis
        by (auto simp add: frame_spin_unfold [OF assms, of r N sl sp w] tick_def)
    next
      case sl0: False
      with Suc.prems lt False
      have "frame_spin r m base N sl (sp + 1) (tick w) = (res, r', sp', w')"
        by (simp add: frame_spin_unfold [OF assms, of r N sl sp w])
      from Suc.hyps(1) [OF k this] show ?thesis by (simp only: tick_now_upd)
    qed
  qed
qed

lemma frame_spin_none:
  assumes "base + 8 \<le> mm_size m"
  shows "frame_spin r m base N 0 sp w = (res, r', sp', w') \<Longrightarrow>
     \<forall>v s. res \<noteq> Inr (Some v, s) \<Longrightarrow>
     res = Inr (None, fb_last_seq r) \<and> r' = r \<and> now w + nat (N - sp) \<le> now w'"
proof (induction "nat (N - sp)" arbitrary: sp w)
  case 0
  then show ?case
    by (auto simp add: frame_spin_unfold [OF assms])
next
  case (Suc k)
  from Suc.hyps(2) have lt: "sp < N" and k: "k = nat (N - (sp + 1))" by linarith+
  from Suc.hyps(2) k have n: "nat (N - sp) = Suc (nat (N - (sp + 1)))" by simp
  show ?case
  proof (cases "odd (seq_at m base (now w))")
    case True
    show ?thesis
    proof (cases "seq_at m base (now w) = seq_at m base (now w + 1)")
      case True
      with Suc.prems lt \<open>odd _\<close> show ?thesis
        by (auto simp add: frame_spin_unfold [OF assms, of r N 0 sp w])
    next
      case False
      with Suc.prems lt \<open>odd _\<close>
      have "frame_spin r m base N 0 (sp + 1) (tick (tick w)) = (res, r', sp', w')"
        by (simp add: frame_spin_unfold [OF assms, of r N 0 sp w])
      from Suc.hyps(1) [OF k this Suc.prems(2)] show ?thesis unfolding n by simp
    qed
  next
    case False
    with Suc.prems lt
    have "frame_spin r m base N 0 (sp + 1) (tick w) = (res, r', sp', w')"
      by (simp add: frame_spin_unfold [OF assms, of r N 0 sp w])
    from Suc.hyps(1) [OF k this Suc.prems(2)] show ?thesis unfolding n by simp
  qed
qed

text \<open>A clipped view has its full length when the mapping reaches the end of the slice.\<close>

lemma view_len_exact: "a + n \<le> size_m \<Longrightarrow> min n (size_m - a) = (n::nat)"
  by simp

lemma mm_slice_in_range:
  "a \<le> mm_size m \<Longrightarrow>
   mm_slice m a (a + n) = \<lparr>mv_id = mm_id m, mv_off = a, mv_len = min n (mm_size m - a)\<rparr>"
  by (auto simp: mm_slice_def min_def)

lemma latest_frame_view_unfold:
  assumes "fb_mm r = Some m" and "28 \<le> mm_size m"
  shows "latest_frame_view r N sl w =
     (case frame_spin r m (buf_base r (le_at (mm_bytes m (now w)) 24 4)) N sl 0 (tick w) of
        (res, r', sp, w') \<Rightarrow> (res, r', w'))"
  using assms by (simp add: latest_frame_view_def unpack_from_def le_at_def)

lemma latest_frame_view_stable:
  assumes "fb_mm r = Some m" and "28 \<le> mm_size m"
    and "base = buf_base r (le_at (mm_bytes m (now w)) 24 4)"
    and "base + 8 \<le> mm_size m" and "0 < N"
    and "odd (seq_at m base (now w + 1))"
    and "seq_at m base (now w + 1) = seq_at m base (now w + 2)"
  shows "latest_frame_view r N 0 w =
     (Inr (Some \<lparr>mv_id = mm_id m, mv_off = base + 8,
                 mv_len = min (fb_height r * fb_stride r) (mm_size m - (base + 8))\<rparr>,
           seq_at m base (now w + 1)),
      r\<lparr>fb_last_seq := seq_at m base (now w + 1)\<rparr>, borrow m (tick (tick (tick w))))"
proof -
  have "frame_spin r m base N 0 0 (tick w) =
     (Inr (Some (mm_slice m (base + 8) (base + 8 + fb_height r * fb_stride r)),
           seq_at m base (now w + 1)),
      r\<lparr>fb_last_seq := seq_at m base (now w + 1)\<rparr>, 0, borrow m (tick (tick (tick w))))"
    using assms(5-7) by (subst frame_spin_unfold [OF assms(4)]) simp
  then show ?thesis
    using assms(3,4)
    by (simp add: latest_frame_view_unfold [OF assms(1,2)] mm_slice_in_range)
qed

lemma fb_busy_exhausted:
  "latest_frame_view (fb_reader_on fb_busy_bytes) 3 0 (fb_world_on fb_busy_bytes) =
     (Inr (None, 0), fb_reader_on fb_busy_bytes, (fb_world_on fb_busy_bytes)\<lparr>now := 5\<rparr>)"
proof -
  have sz: "39 + 8 \<le> mm_size (mmap_of 0 (static_file fb_busy_bytes))"
    by (simp add: fb_busy_facts)
  have t: "tick (tick (tick (tick (fb_world_on fb_busy_bytes))))
      = (fb_world_on fb_busy_bytes)\<lparr>now := 5\<rparr>"
    by (simp add: tick_def fb_busy_facts)
  have "frame_spin (fb_reader_on fb_busy_bytes) (mmap_of 0 (static_file fb_busy_bytes)) 39 3 0 0
          (tick (fb_world_on fb_busy_bytes))
      = (Inr (None, 0), fb_reader_on fb_busy_bytes, 3,
         tick (tick (tick (tick (fb_world_on fb_busy_bytes)))))"
    by (simp add: frame_spin_unfold [OF sz] fb_busy_facts)
  moreover have "le_at (byte_at fb_busy_bytes) 24 4 = 1"
    by (simp add: le_at_static fb_busy_facts(8)) (simp add: fb_busy_bytes_def)
  ultimately show ?thesis
    by (simp add: latest_frame_view_unfold [OF fb_busy_facts(1)] fb_busy_facts buf_base_def t)
qed

lemma fb_torn_facts:
  "fst (FrameShmReader_connect (FrameShmReader_init ''/uc3d_fb0'') fb_torn_world) = Inr ()"
  "fb_torn_reader =
     \<lparr>fb_name = ''/uc3d_fb0'', fb_fd = Some 0, fb_mm = Some fb_torn_mm, fb_width = 1,
      fb_height = 2, fb_stride = 3, fb_bufcnt = 1, fb_header_size = 28, fb_onebuf_size = 14,
      fb_last_seq = 0\<rparr>"
  "now fb_torn_connected = 1"
proof -
  have f: "files fb_torn_world (fb_path (FrameShmReader_init ''/uc3d_fb0'')) = Some fb_torn"
    by (simp add: fb_path_init fb_torn_world_def world0_def)
  have s: "28 \<le> f_size fb_torn"
    by (simp add: fb_torn_def)
  have h: "fb_header_size (FrameShmReader_init ''/uc3d_fb0'') = 28"
    by (simp add: FrameShmReader_init_def)
  have n: "now fb_torn_world = 0" "open_fds fb_torn_world = []" "mapped fb_torn_world = []"
    by (simp_all add: fb_torn_world_def world0_def)
  have b: "f_bytes fb_torn 0 = byte_at fb_short_bytes"
    by (simp add: fb_torn_def)
  have e: "le_at (byte_at fb_short_bytes) 0 4 = MAGIC" "le_at (byte_at fb_short_bytes) 8 4 = 1"
    "le_at (byte_at fb_short_bytes) 12 4 = 2" "le_at (byte_at fb_short_bytes) 16 4 = 3"
    "le_at (byte_at fb_short_bytes) 20 4 = 1"
    by (simp_all add: le_at_static MAGIC_def fb_short_bytes_def)
  note c = FrameShmReader_connect_eq [OF f s h]
  show "fst (FrameShmReader_connect (FrameShmReader_init ''/uc3d_fb0'') fb_torn_world) = Inr ()"
    by (simp add: c Let_def n b e)
  show "fb_torn_reader =
     \<lparr>fb_name = ''/uc3d_fb0'', fb_fd = Some 0, fb_mm = Some fb_torn_mm, fb_width = 1,
      fb_height = 2, fb_stride = 3, fb_bufcnt = 1, fb_header_size = 28, fb_onebuf_size = 14,
      fb_last_seq = 0\<rparr>"
    by (simp add: fb_torn_reader_def c Let_def n b e lowest_free_def fb_torn_mm_def)
       (simp add: FrameShmReader_init_def)
  show "now fb_torn_connected = 1"
    by (simp add: fb_torn_connected_def c Let_def n b e)
qed

lemma fb_torn_bytes:
  "t \<le> 3 \<Longrightarrow> mm_bytes fb_torn_mm t = byte_at fb_short_bytes"
  "3 < t \<Longrightarrow> mm_bytes fb_torn_mm t = byte_at fb_rewritten_bytes"
  by (simp_all add: fb_torn_mm_def fb_torn_def)

lemma view_bytes_static:
  "mm_bytes m t = byte_at bs \<Longrightarrow> mv_off v + mv_len v \<le> length bs \<Longrightarrow>
   view_bytes m v t = take (mv_len v) (drop (mv_off v) bs)"
  by (simp add: view_bytes_def map_byte_at_upt)

lemma fb_torn_memory:
  "mm_size fb_torn_mm = 39" "mm_id fb_torn_mm = 0"
  "le_at (mm_bytes fb_torn_mm 1) 24 4 = 0"
  "seq_at fb_torn_mm 28 2 = 7" "seq_at fb_torn_mm 28 3 = 7" "seq_at fb_torn_mm 28 4 = 8"
  "view_bytes fb_torn_mm \<lparr>mv_id = 0, mv_off = 36, mv_len = 3\<rparr> 3 = [10, 20, 30]"
  "view_bytes fb_torn_mm \<lparr>mv_id = 0, mv_off = 36, mv_len = 3\<rparr> 4 = [11, 21, 31]"
proof -
  have b: "mm_bytes fb_torn_mm 1 = byte_at fb_short_bytes"
    "mm_bytes fb_torn_mm 2 = byte_at fb_short_bytes"
    "mm_bytes fb_torn_mm 3 = byte_at fb_short_bytes"
    "mm_bytes fb_torn_mm 4 = byte_at fb_rewritten_bytes"
    by (simp_all add: fb_torn_bytes)
  have l: "length fb_short_bytes = 39" "length fb_rewritten_bytes = 39"
    by (simp_all add: fb_short_bytes_def fb_rewritten_bytes_def)
  show "mm_size fb_torn_mm = 39" "mm_id fb_torn_mm = 0"
    by (simp_all add: fb_torn_mm_def fb_torn_def)
  show "le_at (mm_bytes fb_torn_mm 1) 24 4 = 0"
    using b(1) by (simp add: le_at_static l) (simp add: fb_short_bytes_def)
  show "seq_at fb_torn_mm 28 2 = 7" "seq_at fb_torn_mm 28 3 = 7"
    unfolding seq_at_def b by (simp_all add: le_at_static l) (simp_all add: fb_short_bytes_def)
  show "seq_at fb_torn_mm 28 4 = 8"
    unfolding seq_at_def b by (simp add: le_at_static l) (simp add: fb_rewritten_bytes_def)
  show "view_bytes fb_torn_mm \<lparr>mv_id = 0, mv_off = 36, mv_len = 3\<rparr> 3 = [10, 20, 30]"
    by (subst view_bytes_static [OF b(3)]) (simp_all add: l, simp add: fb_short_bytes_def)
  show "view_bytes fb_torn_mm \<lparr>mv_id = 0, mv_off = 36, mv_len = 3\<rparr> 4 = [11, 21, 31]"
    by (subst view_bytes_static [OF b(4)]) (simp_all add: l, simp add: fb_rewritten_bytes_def)
qed

text \<open>
  C1 (as amended). On a connected reader whose active index and active buffer's sequence
  can be read, \<^verbatim>\<open>latest_frame_view\<close> reads the active index and then, attempt after
  attempt, the sequence of the active buffer: once, and when that is odd a second time right
  after. The clock counts the reads, so \<open>now w' - 2\<close> and \<open>now w' - 1\<close> are the ticks of the
  last two reads the call made.

  \<^item> It returns a view exactly when its last two reads were two successive reads of the
    sequence that are equal and odd. They are consecutive accesses: the payload is not read
    between them, nor at any other moment of the call.
  \<^item> When it returns a view, the sequence returned is that stable value and the reader
    remembers it; the view starts 8 bytes past the active buffer's base and covers
    \<open>height * stride\<close> bytes clipped to the end of the mapping (all of them when the mapping
    holds the whole buffer, \<open>view_len_exact\<close>); and the world has changed in the clock and
    in the borrow of the mapping only: the view is a window on the shared memory, made after
    the second read, whose bytes the caller reads later.
  \<^item> With \<open>max_spins > 0\<close> and \<open>sleep_ns = 0\<close>, when the first two reads of the sequence
    are odd and equal the call returns the view with that sequence after exactly three
    reads.
  \<^item> With \<open>sleep_ns = 0\<close>, a call that returns no view has read the sequence at least
    \<open>max_spins\<close> times after the active index, returns the last known sequence, and leaves
    the reader as it was.
\<close>

theorem latest_frame_view_amended:
  assumes "fb_mm r = Some m" and "28 \<le> mm_size m"
    and "base = buf_base r (le_at (mm_bytes m (now w)) 24 4)"
    and "base + 8 \<le> mm_size m"
    and "latest_frame_view r max_spins sleep_ns w = (res, r', w')"
  shows "((\<exists>v s. res = Inr (Some v, s)) \<longleftrightarrow>
            now w + 3 \<le> now w' \<and> odd (seq_at m base (now w' - 2))
            \<and> seq_at m base (now w' - 2) = seq_at m base (now w' - 1))
       \<and> (\<forall>v s. res = Inr (Some v, s) \<longrightarrow>
            s = seq_at m base (now w' - 2)
            \<and> v = \<lparr>mv_id = mm_id m, mv_off = base + 8,
                    mv_len = min (fb_height r * fb_stride r) (mm_size m - (base + 8))\<rparr>
            \<and> r' = r\<lparr>fb_last_seq := s\<rparr>
            \<and> w' = borrow m (w\<lparr>now := now w'\<rparr>))
       \<and> (0 < max_spins \<and> sleep_ns = 0 \<and> odd (seq_at m base (now w + 1))
            \<and> seq_at m base (now w + 1) = seq_at m base (now w + 2) \<longrightarrow>
            (\<exists>v. res = Inr (Some v, seq_at m base (now w + 1))) \<and> now w' = now w + 3)
       \<and> (sleep_ns = 0 \<and> (\<forall>v s. res \<noteq> Inr (Some v, s)) \<longrightarrow>
            res = Inr (None, fb_last_seq r) \<and> r' = r \<and> w' = w\<lparr>now := now w'\<rparr>
            \<and> now w + 1 + nat max_spins \<le> now w')"
proof -
  obtain sp' where spin:
    "frame_spin r m base max_spins sleep_ns 0 (tick w) = (res, r', sp', w')"
  proof -
    obtain res0 r0 sp0 w0 where
      e: "frame_spin r m base max_spins sleep_ns 0 (tick w) = (res0, r0, sp0, w0)"
      using prod_cases4 by blast
    have "latest_frame_view r max_spins sleep_ns w = (res0, r0, w0)"
      using assms(1-3) e
      by (simp add: latest_frame_view_def unpack_from_def le_at_def Let_def)
    with assms(5) e that show ?thesis by simp
  qed
  note frame = frame_spin_frame [OF assms(4) spin, unfolded tick_now_upd]
  have view: "now w + 3 \<le> now w' \<and> seq_at m base (now w' - 2) = s
        \<and> seq_at m base (now w' - 1) = s \<and> odd s
        \<and> v = \<lparr>mv_id = mm_id m, mv_off = base + 8,
                mv_len = min (fb_height r * fb_stride r) (mm_size m - (base + 8))\<rparr>
        \<and> r' = r\<lparr>fb_last_seq := s\<rparr>"
    if "res = Inr (Some v, s)" for v s
    using frame_spin_view [OF assms(4) spin [unfolded that]] assms(4)
    by (simp add: mm_slice_in_range)
  have noview: "\<not> (now w + 3 \<le> now w' \<and> odd (seq_at m base (now w' - 2))
        \<and> seq_at m base (now w' - 2) = seq_at m base (now w' - 1))"
    if "\<forall>v s. res \<noteq> Inr (Some v, s)"
    using frame_spin_no_view [OF assms(4) spin that] by auto
  have c1: "(\<exists>v s. res = Inr (Some v, s)) \<longleftrightarrow>
            now w + 3 \<le> now w' \<and> odd (seq_at m base (now w' - 2))
            \<and> seq_at m base (now w' - 2) = seq_at m base (now w' - 1)"
  proof (cases "\<exists>v s. res = Inr (Some v, s)")
    case True
    then obtain v s where "res = Inr (Some v, s)" by blast
    with view [OF this] show ?thesis by simp
  next
    case False
    with noview show ?thesis by simp
  qed
  have c2: "\<forall>v s. res = Inr (Some v, s) \<longrightarrow>
            s = seq_at m base (now w' - 2)
            \<and> v = \<lparr>mv_id = mm_id m, mv_off = base + 8,
                    mv_len = min (fb_height r * fb_stride r) (mm_size m - (base + 8))\<rparr>
            \<and> r' = r\<lparr>fb_last_seq := s\<rparr>
            \<and> w' = borrow m (w\<lparr>now := now w'\<rparr>)"
  proof (intro allI impI)
    fix v s assume v: "res = Inr (Some v, s)"
    from frame v have "w' = borrow m (w\<lparr>now := now w'\<rparr>)" by simp
    with view [OF v] show "s = seq_at m base (now w' - 2)
            \<and> v = \<lparr>mv_id = mm_id m, mv_off = base + 8,
                    mv_len = min (fb_height r * fb_stride r) (mm_size m - (base + 8))\<rparr>
            \<and> r' = r\<lparr>fb_last_seq := s\<rparr>
            \<and> w' = borrow m (w\<lparr>now := now w'\<rparr>)" by blast
  qed
  have c3: "0 < max_spins \<and> sleep_ns = 0 \<and> odd (seq_at m base (now w + 1))
            \<and> seq_at m base (now w + 1) = seq_at m base (now w + 2) \<longrightarrow>
            (\<exists>v. res = Inr (Some v, seq_at m base (now w + 1))) \<and> now w' = now w + 3"
  proof
    assume a: "0 < max_spins \<and> sleep_ns = 0 \<and> odd (seq_at m base (now w + 1))
            \<and> seq_at m base (now w + 1) = seq_at m base (now w + 2)"
    then have "latest_frame_view r max_spins 0 w =
     (Inr (Some \<lparr>mv_id = mm_id m, mv_off = base + 8,
                 mv_len = min (fb_height r * fb_stride r) (mm_size m - (base + 8))\<rparr>,
           seq_at m base (now w + 1)),
      r\<lparr>fb_last_seq := seq_at m base (now w + 1)\<rparr>, borrow m (tick (tick (tick w))))"
      by (intro latest_frame_view_stable [OF assms(1-4)]) auto
    with assms(5) a
    have "res = Inr (Some \<lparr>mv_id = mm_id m, mv_off = base + 8,
                 mv_len = min (fb_height r * fb_stride r) (mm_size m - (base + 8))\<rparr>,
           seq_at m base (now w + 1))" and "w' = borrow m (tick (tick (tick w)))"
      by simp_all
    then show "(\<exists>v. res = Inr (Some v, seq_at m base (now w + 1))) \<and> now w' = now w + 3"
      by simp
  qed
  have c4: "sleep_ns = 0 \<and> (\<forall>v s. res \<noteq> Inr (Some v, s)) \<longrightarrow>
            res = Inr (None, fb_last_seq r) \<and> r' = r \<and> w' = w\<lparr>now := now w'\<rparr>
            \<and> now w + 1 + nat max_spins \<le> now w'"
  proof
    assume a: "sleep_ns = 0 \<and> (\<forall>v s. res \<noteq> Inr (Some v, s))"
    then have nv: "\<forall>v s. res \<noteq> Inr (Some v, s)" and sl: "sleep_ns = 0" by simp_all
    from frame_spin_none [OF assms(4) spin [unfolded sl] nv]
    have "res = Inr (None, fb_last_seq r)" "r' = r" "now w + 1 + nat max_spins \<le> now w'"
      by simp_all
    moreover from frame nv have "w' = w\<lparr>now := now w'\<rparr>" by simp
    ultimately show "res = Inr (None, fb_last_seq r) \<and> r' = r \<and> w' = w\<lparr>now := now w'\<rparr>
            \<and> now w + 1 + nat max_spins \<le> now w'" by blast
  qed
  from c1 c2 c3 c4 show ?thesis by blast
qed

text \<open>
  Scenario B under the bounded-spin read: the first attempt reads 7 twice (ticks 2 and 3,
  after the active index at tick 1) and returns the three payload bytes. On the segment
  whose active buffer stays at sequence 4, three attempts read it three times (ticks 2, 3
  and 4) and the call returns no view, the last known sequence 0 and the reader unchanged.
\<close>

theorem latest_frame_view_amended_witness:
  "fb_mm (fb_reader_on fb_two_bytes) = Some (mmap_of 0 (static_file fb_two_bytes))
   \<and> 28 \<le> mm_size (mmap_of 0 (static_file fb_two_bytes))
   \<and> 28 + 8 \<le> mm_size (mmap_of 0 (static_file fb_two_bytes))
   \<and> latest_frame_view (fb_reader_on fb_two_bytes) 64 0 (fb_world_on fb_two_bytes) =
       (Inr (Some \<lparr>mv_id = 0, mv_off = 36, mv_len = 3\<rparr>, 7),
        (fb_reader_on fb_two_bytes)\<lparr>fb_last_seq := 7\<rparr>,
        borrow (mmap_of 0 (static_file fb_two_bytes))
          (tick (tick (tick (fb_world_on fb_two_bytes)))))
   \<and> now (fb_world_on fb_two_bytes) = 1
   \<and> odd (seq_at (mmap_of 0 (static_file fb_two_bytes)) 28 2)
   \<and> seq_at (mmap_of 0 (static_file fb_two_bytes)) 28 2
       = seq_at (mmap_of 0 (static_file fb_two_bytes)) 28 3
   \<and> now (borrow (mmap_of 0 (static_file fb_two_bytes))
              (tick (tick (tick (fb_world_on fb_two_bytes)))))
       = now (fb_world_on fb_two_bytes) + 3
   \<and> fb_mm (fb_reader_on fb_busy_bytes) = Some (mmap_of 0 (static_file fb_busy_bytes))
   \<and> 39 + 8 \<le> mm_size (mmap_of 0 (static_file fb_busy_bytes))
   \<and> even (seq_at (mmap_of 0 (static_file fb_busy_bytes)) 39 2)
   \<and> latest_frame_view (fb_reader_on fb_busy_bytes) 3 0 (fb_world_on fb_busy_bytes) =
       (Inr (None, 0), fb_reader_on fb_busy_bytes, (fb_world_on fb_busy_bytes)\<lparr>now := 5\<rparr>)
   \<and> now (fb_world_on fb_busy_bytes) + 1 + nat 3
       \<le> now ((fb_world_on fb_busy_bytes)\<lparr>now := 5\<rparr>)"
proof -
  have act2: "le_at (byte_at fb_two_bytes) 24 4 = 0"
    by (simp add: le_at_static fb_two_facts(8)) (simp add: fb_two_bytes_def)
  have a: "28 \<le> mm_size (mmap_of 0 (static_file fb_two_bytes))"
    and b: "28 = buf_base (fb_reader_on fb_two_bytes)
                  (le_at (mm_bytes (mmap_of 0 (static_file fb_two_bytes))
                            (now (fb_world_on fb_two_bytes))) 24 4)"
    and c: "28 + 8 \<le> mm_size (mmap_of 0 (static_file fb_two_bytes))"
    by (simp_all add: fb_two_facts act2 buf_base_def)
  have d: "latest_frame_view (fb_reader_on fb_two_bytes) 64 0 (fb_world_on fb_two_bytes) =
       (Inr (Some \<lparr>mv_id = 0, mv_off = 36, mv_len = 3\<rparr>, 7),
        (fb_reader_on fb_two_bytes)\<lparr>fb_last_seq := 7\<rparr>,
        borrow (mmap_of 0 (static_file fb_two_bytes))
          (tick (tick (tick (fb_world_on fb_two_bytes)))))"
    by (subst latest_frame_view_stable [OF fb_two_facts(1) a b c])
       (simp_all add: fb_two_facts)
  note T = latest_frame_view_amended [OF fb_two_facts(1) a b c d, THEN conjunct1]
  have n: "now (borrow (mmap_of 0 (static_file fb_two_bytes))
                  (tick (tick (tick (fb_world_on fb_two_bytes))))) = 4"
    by (simp add: fb_two_facts(7))
  have m: "(4::nat) - 2 = 2" "(4::nat) - 1 = 3" by simp_all
  from T have two: "odd (seq_at (mmap_of 0 (static_file fb_two_bytes)) 28 2)
      \<and> seq_at (mmap_of 0 (static_file fb_two_bytes)) 28 2
          = seq_at (mmap_of 0 (static_file fb_two_bytes)) 28 3"
    unfolding n m by blast
  have st: "0 < (64::int) \<and> (0::int) = 0
      \<and> odd (seq_at (mmap_of 0 (static_file fb_two_bytes)) 28 (now (fb_world_on fb_two_bytes) + 1))
      \<and> seq_at (mmap_of 0 (static_file fb_two_bytes)) 28 (now (fb_world_on fb_two_bytes) + 1)
          = seq_at (mmap_of 0 (static_file fb_two_bytes)) 28 (now (fb_world_on fb_two_bytes) + 2)"
    by (simp add: fb_two_facts(10))
  from latest_frame_view_amended [OF fb_two_facts(1) a b c d, THEN conjunct2, THEN conjunct2,
      THEN conjunct1] st
  have three: "now (borrow (mmap_of 0 (static_file fb_two_bytes))
                      (tick (tick (tick (fb_world_on fb_two_bytes)))))
       = now (fb_world_on fb_two_bytes) + 3"
    by blast
  have act: "le_at (byte_at fb_busy_bytes) 24 4 = 1"
    by (simp add: le_at_static fb_busy_facts(8)) (simp add: fb_busy_bytes_def)
  have a': "28 \<le> mm_size (mmap_of 0 (static_file fb_busy_bytes))"
    and b': "39 = buf_base (fb_reader_on fb_busy_bytes)
                  (le_at (mm_bytes (mmap_of 0 (static_file fb_busy_bytes))
                            (now (fb_world_on fb_busy_bytes))) 24 4)"
    and c': "39 + 8 \<le> mm_size (mmap_of 0 (static_file fb_busy_bytes))"
    by (simp_all add: fb_busy_facts act buf_base_def)
  note B = latest_frame_view_amended [OF fb_busy_facts(1) a' b' c' fb_busy_exhausted,
      THEN conjunct2, THEN conjunct2, THEN conjunct2]
  then have busy: "now (fb_world_on fb_busy_bytes) + 1 + nat 3
       \<le> now ((fb_world_on fb_busy_bytes)\<lparr>now := 5\<rparr>)"
    by simp
  have ev: "even (seq_at (mmap_of 0 (static_file fb_busy_bytes)) 39 2)"
    by (simp add: fb_busy_facts(10))
  from two three busy ev fb_two_facts(1,7) fb_busy_facts(1) a c c' d fb_busy_exhausted
  show ?thesis by blast
qed

text \<open>
  The claim as stated fails on the segment cut short that the producer rewrites, which
  \<^verbatim>\<open>connect\<close> accepts. The call starts at tick 1, reads the active index, reads the
  sequence at ticks 2 and 3 (7 both times) and returns at tick 4 with a view and the
  sequence 7. It has made three reads and none of them is of the payload: the sequence was
  not read again after the payload was. The view holds 3 bytes where \<open>height * stride\<close> is
  6. The bytes under it were 10, 20, 30 when the sequence was checked; at tick 4, the first
  moment the caller can read them, they are 11, 21, 31 and the sequence is 8, a write in
  progress.
\<close>

theorem latest_frame_view_unread_payload_counterexample:
  "fst (FrameShmReader_connect (FrameShmReader_init ''/uc3d_fb0'') fb_torn_world) = Inr ()
   \<and> now fb_torn_connected = 1
   \<and> latest_frame_view fb_torn_reader 64 0 fb_torn_connected =
       (Inr (Some \<lparr>mv_id = 0, mv_off = 36, mv_len = 3\<rparr>, 7),
        fb_torn_reader\<lparr>fb_last_seq := 7\<rparr>,
        borrow fb_torn_mm (fb_torn_connected\<lparr>now := 4\<rparr>))
   \<and> fb_height fb_torn_reader * fb_stride fb_torn_reader = 6
   \<and> seq_at fb_torn_mm 28 2 = 7 \<and> seq_at fb_torn_mm 28 3 = 7
   \<and> view_bytes fb_torn_mm \<lparr>mv_id = 0, mv_off = 36, mv_len = 3\<rparr> 3 = [10, 20, 30]
   \<and> seq_at fb_torn_mm 28 4 = 8
   \<and> view_bytes fb_torn_mm \<lparr>mv_id = 0, mv_off = 36, mv_len = 3\<rparr> 4 = [11, 21, 31]"
proof -
  have idx: "le_at (mm_bytes fb_torn_mm (now fb_torn_connected)) 24 4 = 0"
    unfolding fb_torn_facts(3) by (rule fb_torn_memory(3))
  have mm: "fb_mm fb_torn_reader = Some fb_torn_mm"
    and dims: "fb_height fb_torn_reader * fb_stride fb_torn_reader = 6"
    and base: "28 = buf_base fb_torn_reader
                      (le_at (mm_bytes fb_torn_mm (now fb_torn_connected)) 24 4)"
    unfolding idx by (simp_all add: fb_torn_facts(2) buf_base_def)
  have sz: "28 \<le> mm_size fb_torn_mm" "28 + 8 \<le> mm_size fb_torn_mm"
    by (simp_all add: fb_torn_memory)
  have t: "tick (tick (tick fb_torn_connected)) = fb_torn_connected\<lparr>now := 4\<rparr>"
    by (simp add: tick_def fb_torn_facts(3))
  have n: "now fb_torn_connected + 1 = 2" "now fb_torn_connected + 2 = 3"
    by (simp_all add: fb_torn_facts(3))
  have st: "odd (seq_at fb_torn_mm 28 (now fb_torn_connected + 1))"
    "seq_at fb_torn_mm 28 (now fb_torn_connected + 1)
       = seq_at fb_torn_mm 28 (now fb_torn_connected + 2)"
    "seq_at fb_torn_mm 28 (now fb_torn_connected + 1) = 7"
    unfolding n by (simp_all add: fb_torn_memory)
  have "latest_frame_view fb_torn_reader 64 0 fb_torn_connected =
       (Inr (Some \<lparr>mv_id = 0, mv_off = 36, mv_len = 3\<rparr>, 7),
        fb_torn_reader\<lparr>fb_last_seq := 7\<rparr>,
        borrow fb_torn_mm (fb_torn_connected\<lparr>now := 4\<rparr>))"
    using latest_frame_view_stable [OF mm sz(1) base sz(2) _ st(1,2), of 64, unfolded st(3)]
    by (simp add: dims t fb_torn_memory(1,2))
  with dims show ?thesis
    by (simp add: fb_torn_facts(1,3) fb_torn_memory)
qed

lemma fb_moving_seq:
  "seq_at fb_moving_mm 28 3 = 7" "seq_at fb_moving_mm 28 4 = 8"
  "seq_at fb_moving_mm 28 5 = 9" "seq_at fb_moving_mm 28 6 = 9"
  "le_at (mm_bytes fb_moving_mm 2) 24 4 = 0" "mm_size fb_moving_mm = 39"
  by (simp_all add: seq_at_def fb_moving_mm_def fb_moving_def le_at_static fb_seq_bytes_def)

text \<open>
  A torn read is retried: the first attempt reads 7 and then 8 and is thrown away, the
  second reads 9 twice and returns the view (five reads in all after the active index).
\<close>

lemma torn_read_is_retried:
  "latest_frame_view fb_moving_reader 64 0 (world0\<lparr>now := 2\<rparr>) =
     (Inr (Some \<lparr>mv_id = 0, mv_off = 36, mv_len = 3\<rparr>, 9),
      fb_moving_reader\<lparr>fb_last_seq := 9\<rparr>,
      borrow fb_moving_mm (world0\<lparr>now := 7\<rparr>))"
proof -
  have mm: "fb_mm fb_moving_reader = Some fb_moving_mm"
    and base: "buf_base fb_moving_reader 0 = 28"
    and len: "fb_height fb_moving_reader * fb_stride fb_moving_reader = 3"
    by (simp_all add: fb_moving_reader_def buf_base_def)
  have sz: "28 + 8 \<le> mm_size fb_moving_mm" "28 \<le> mm_size fb_moving_mm"
    by (simp_all add: fb_moving_seq)
  have t: "tick (world0\<lparr>now := 2\<rparr>) = world0\<lparr>now := 3\<rparr>"
    "tick (tick (world0\<lparr>now := 3\<rparr>)) = world0\<lparr>now := 5\<rparr>"
    "tick (tick (world0\<lparr>now := 5\<rparr>)) = world0\<lparr>now := 7\<rparr>"
    by (simp_all add: tick_def)
  have s2: "frame_spin fb_moving_reader fb_moving_mm 28 64 0 1 (world0\<lparr>now := 5\<rparr>) =
      (Inr (Some (mm_slice fb_moving_mm 36 39), 9), fb_moving_reader\<lparr>fb_last_seq := 9\<rparr>, 1,
       borrow fb_moving_mm (world0\<lparr>now := 7\<rparr>))"
    by (subst frame_spin_unfold [OF sz(1)]) (simp add: fb_moving_seq len t)
  have s1: "frame_spin fb_moving_reader fb_moving_mm 28 64 0 0 (world0\<lparr>now := 3\<rparr>) =
      (Inr (Some (mm_slice fb_moving_mm 36 39), 9), fb_moving_reader\<lparr>fb_last_seq := 9\<rparr>, 1,
       borrow fb_moving_mm (world0\<lparr>now := 7\<rparr>))"
    by (subst frame_spin_unfold [OF sz(1)]) (simp add: fb_moving_seq t s2)
  show ?thesis
    by (simp add: latest_frame_view_unfold [OF mm sz(2)] fb_moving_seq base t s1)
       (simp add: mm_slice_def fb_moving_mm_def fb_moving_def)
qed


section \<open>The bounded-spin reads when the sequence never stabilises\<close>

lemma geo_spin_unfold:
  assumes "24 \<le> mm_size m"
  shows "geo_spin g m N sl sp w =
    (if sp < N then
       if odd (seq_at m 16 (now w)) then
         if sl \<noteq> 0 then (Inl NameError, g, sp, tick w)
         else if seq_at m 16 (now w) = seq_at m 16 (now w + 1) then
           (Inr (Some (mm_slice m (geo_hdr_size g) (geo_hdr_size g + geo_count g * 8)),
                 Some \<lparr>meta_count = geo_count g, meta_width = geo_width g,
                       meta_height = geo_height g\<rparr>,
                 seq_at m 16 (now w)),
            g\<lparr>geo_last_seq := seq_at m 16 (now w)\<rparr>, sp, borrow m (tick (tick w)))
         else geo_spin g m N sl (sp + 1) (tick (tick w))
       else if sl \<noteq> 0 then (Inl NameError, g, sp + 1, tick w)
       else geo_spin g m N sl (sp + 1) (tick w)
     else (Inr (None, None, geo_last_seq g), g, sp, w))"
  using assms
  by (subst geo_spin.simps)
     (simp add: unpack_from_def seq_at_def le_at_def sleep_if_def odd_iff_mod_2_eq_one tick_def
        Let_def del: upt_rec_numeral)

text \<open>With \<open>sleep_ns = 0\<close> the loop does what C3 says.\<close>

lemma frame_spin_exhausts:
  assumes "base + 8 \<le> mm_size m"
    and "\<And>u. now w \<le> u \<Longrightarrow> \<not> (odd (seq_at m base u) \<and> seq_at m base u = seq_at m base (u + 1))"
    and "sp \<le> N"
  shows "\<exists>w'. frame_spin r m base N 0 sp w = (Inr (None, fb_last_seq r), r, N, w')"
  using assms(2,3)
proof (induction "nat (N - sp)" arbitrary: sp w)
  case 0
  then have "sp = N" by simp
  then show ?case by (simp add: frame_spin_unfold [OF assms(1)])
next
  case (Suc k)
  from Suc.hyps(2) have lt: "sp < N" and k: "k = nat (N - (sp + 1))" and le: "sp + 1 \<le> N"
    by linarith+
  have st: "\<not> (odd (seq_at m base (now w)) \<and> seq_at m base (now w) = seq_at m base (now w + 1))"
    using Suc.prems(1) [of "now w"] by simp
  have "\<exists>w'. frame_spin r m base N 0 (sp + 1) (tick w) = (Inr (None, fb_last_seq r), r, N, w')"
    by (rule Suc.hyps(1) [OF k _ le]) (use Suc.prems(1) in simp)
  moreover
  have "\<exists>w'. frame_spin r m base N 0 (sp + 1) (tick (tick w)) = (Inr (None, fb_last_seq r), r, N, w')"
    by (rule Suc.hyps(1) [OF k _ le]) (use Suc.prems(1) in simp)
  ultimately show ?case
    using lt st by (subst frame_spin_unfold [OF assms(1)]) auto
qed

lemma geo_spin_exhausts:
  assumes "24 \<le> mm_size m"
    and "\<And>u. now w \<le> u \<Longrightarrow> \<not> (odd (seq_at m 16 u) \<and> seq_at m 16 u = seq_at m 16 (u + 1))"
    and "sp \<le> N"
  shows "\<exists>w'. geo_spin g m N 0 sp w = (Inr (None, None, geo_last_seq g), g, N, w')"
  using assms(2,3)
proof (induction "nat (N - sp)" arbitrary: sp w)
  case 0
  then have "sp = N" by simp
  then show ?case by (simp add: geo_spin_unfold [OF assms(1)])
next
  case (Suc k)
  from Suc.hyps(2) have lt: "sp < N" and k: "k = nat (N - (sp + 1))" and le: "sp + 1 \<le> N"
    by linarith+
  have st: "\<not> (odd (seq_at m 16 (now w)) \<and> seq_at m 16 (now w) = seq_at m 16 (now w + 1))"
    using Suc.prems(1) [of "now w"] by simp
  have "\<exists>w'. geo_spin g m N 0 (sp + 1) (tick w) = (Inr (None, None, geo_last_seq g), g, N, w')"
    by (rule Suc.hyps(1) [OF k _ le]) (use Suc.prems(1) in simp)
  moreover
  have "\<exists>w'. geo_spin g m N 0 (sp + 1) (tick (tick w)) = (Inr (None, None, geo_last_seq g), g, N, w')"
    by (rule Suc.hyps(1) [OF k _ le]) (use Suc.prems(1) in simp)
  ultimately show ?case
    using lt st by (subst geo_spin_unfold [OF assms(1)]) auto
qed

text \<open>With a non-zero \<open>sleep_ns\<close> the first attempt ends in \<^verbatim>\<open>NameError\<close>.\<close>

lemma frame_spin_sleep_raises:
  assumes "base + 8 \<le> mm_size m" and "sl \<noteq> 0" and "sp < N"
  shows "fst (frame_spin r m base N sl sp w) = Inl NameError"
  using assms by (subst frame_spin_unfold) simp_all

lemma geo_spin_sleep_raises:
  assumes "24 \<le> mm_size m" and "sl \<noteq> 0" and "sp < N"
  shows "fst (geo_spin g m N sl sp w) = Inl NameError"
  using assms by (subst geo_spin_unfold) simp_all

lemma latest_frame_view_sleep_raises:
  assumes "fb_mm r = Some m" and "28 \<le> mm_size m"
    and "buf_base r (le_at (mm_bytes m (now w)) 24 4) + 8 \<le> mm_size m"
    and "sl \<noteq> 0" and "0 < N"
  shows "fst (latest_frame_view r N sl w) = Inl NameError"
  using frame_spin_sleep_raises [OF assms(3,4,5), of r "tick w"]
  by (auto simp add: latest_frame_view_unfold [OF assms(1,2)] split: prod.splits)

lemma geo_latest_sleep_raises:
  assumes "geo_mm g = Some m" and "24 \<le> mm_size m" and "sl \<noteq> 0" and "0 < N"
  shows "fst (GeoShmReader_latest g N sl w) = Inl NameError"
  using geo_spin_sleep_raises [OF assms(2,3,4), of g w]
  by (auto simp add: GeoShmReader_latest_def assms(1) split: prod.splits)

lemma latest_frame_view_no_sleep_exhausts:
  assumes "fb_mm r = Some m" and "28 \<le> mm_size m"
    and "base = buf_base r (le_at (mm_bytes m (now w)) 24 4)" and "base + 8 \<le> mm_size m"
    and "\<And>u. now w < u \<Longrightarrow>
           \<not> (odd (seq_at m base u) \<and> seq_at m base u = seq_at m base (u + 1))"
    and "0 \<le> N"
  shows "\<exists>w'. latest_frame_view r N 0 w = (Inr (None, fb_last_seq r), r, w')"
proof -
  have "\<exists>w'. frame_spin r m base N 0 0 (tick w) = (Inr (None, fb_last_seq r), r, N, w')"
    by (rule frame_spin_exhausts [OF assms(4) _ assms(6)]) (use assms(5) in simp)
  then show ?thesis
    using assms(3) by (auto simp add: latest_frame_view_unfold [OF assms(1,2)])
qed

lemma geo_latest_no_sleep_exhausts:
  assumes "geo_mm g = Some m" and "24 \<le> mm_size m"
    and "\<And>u. now w \<le> u \<Longrightarrow>
           \<not> (odd (seq_at m 16 u) \<and> seq_at m 16 u = seq_at m 16 (u + 1))"
    and "0 \<le> N"
  shows "\<exists>w'. GeoShmReader_latest g N 0 w = (Inr (None, None, geo_last_seq g), g, w')"
proof -
  have "\<exists>w'. geo_spin g m N 0 0 w = (Inr (None, None, geo_last_seq g), g, N, w')"
    by (rule geo_spin_exhausts [OF assms(2) _ assms(4)]) (use assms(3) in simp)
  then show ?thesis
    by (auto simp add: GeoShmReader_latest_def assms(1))
qed

text \<open>
  C3. The claim asks, for every \<open>sleep_ns\<close>, for \<open>N\<close> attempts and a normal return when the
  sequence never stabilises. The loops do that when \<open>sleep_ns = 0\<close> (lemmas
  \<open>frame_spin_exhausts\<close> and \<open>geo_spin_exhausts\<close>: the final \<open>spins\<close> is \<open>N\<close>). With any
  other \<open>sleep_ns\<close> and \<open>N > 0\<close> the first attempt reaches \<^verbatim>\<open>time.sleep\<close> and raises
  \<^verbatim>\<open>NameError\<close>: here on the segments whose sequence stays at 4, with \<open>max_spins = 3\<close>
  and \<open>sleep_ns = 1000\<close>.
\<close>

theorem bounded_spin_sleep_name_error:
  "fst (latest_frame_view (fb_reader_on fb_busy_bytes) 3 1000 (fb_world_on fb_busy_bytes))
     = Inl NameError
   \<and> fst (GeoShmReader_latest (geo_reader_on geo_busy_bytes) 3 1000 (geo_world_on geo_busy_bytes))
     = Inl NameError"
proof -
  have "fst (latest_frame_view (fb_reader_on fb_busy_bytes) 3 1000 (fb_world_on fb_busy_bytes))
     = Inl NameError"
    by (rule latest_frame_view_sleep_raises [OF fb_busy_facts(1)])
       (simp_all add: fb_busy_facts buf_base_def)
  moreover
  have "fst (GeoShmReader_latest (geo_reader_on geo_busy_bytes) 3 1000 (geo_world_on geo_busy_bytes))
     = Inl NameError"
    by (rule geo_latest_sleep_raises [OF geo_busy_facts(1)]) (simp_all add: geo_busy_hdr)
  ultimately show ?thesis by simp
qed

text \<open>The same calls with \<open>sleep_ns = 0\<close>.\<close>

lemma bounded_spin_no_sleep_example:
  "\<exists>w'. latest_frame_view (fb_reader_on fb_busy_bytes) 3 0 (fb_world_on fb_busy_bytes)
     = (Inr (None, 0), fb_reader_on fb_busy_bytes, w')"
proof -
  have "\<exists>w'. frame_spin (fb_reader_on fb_busy_bytes) (mmap_of 0 (static_file fb_busy_bytes))
           39 3 0 0 (tick (fb_world_on fb_busy_bytes))
        = (Inr (None, fb_last_seq (fb_reader_on fb_busy_bytes)), fb_reader_on fb_busy_bytes, 3, w')"
    by (rule frame_spin_exhausts) (simp_all add: fb_busy_facts)
  then show ?thesis
    by (auto simp add: latest_frame_view_unfold [OF fb_busy_facts(1)] fb_busy_facts buf_base_def)
qed

section \<open>The immediate frame read\<close>

lemma latest_frame_view_fast_eq:
  assumes "fb_mm r = Some m" and "28 \<le> mm_size m"
    and "base = fb_header_size r + le_at (mm_bytes m (now w)) 24 4 * fb_onebuf_size r"
    and "base + 8 \<le> mm_size m"
  shows "latest_frame_view_fast r w =
     (if even (seq_at m base (now w + 1))
      then (Inr (None, fb_last_seq r), r, tick (tick w))
      else (Inr (Some \<lparr>mv_id = mm_id m, mv_off = base + 8,
                       mv_len = min (fb_height r * fb_stride r) (mm_size m - (base + 8))\<rparr>,
                 seq_at m base (now w + 1)),
            r\<lparr>fb_last_seq := seq_at m base (now w + 1)\<rparr>, borrow m (tick (tick w))))"
  using assms
  by (auto simp: latest_frame_view_fast_def unpack_from_def seq_at_def le_at_def Let_def
      and1_odd and1_even mm_slice_def)

text \<open>
  C2 (as amended). On a connected reader, \<^verbatim>\<open>latest_frame_view_fast\<close> reads the active
  index from offset 24 of the mapping as it is now, then the sequence of that buffer, once
  (two reads in all). If the sequence is even the result is \<open>(None, last_seq)\<close> and the
  reader is unchanged. If it is odd the result is that sequence and a view that starts 8
  bytes past the buffer's base and covers \<open>height * stride\<close> bytes clipped to the end of the
  mapping (all of them when the mapping holds the whole buffer); the reader remembers the
  sequence.
\<close>

theorem latest_frame_view_fast_amended:
  assumes "fb_mm r = Some m" and "28 \<le> mm_size m"
    and "base = fb_header_size r + le_at (mm_bytes m (now w)) 24 4 * fb_onebuf_size r"
    and "base + 8 \<le> mm_size m"
  shows "latest_frame_view_fast r w =
     (if even (seq_at m base (now w + 1))
      then (Inr (None, fb_last_seq r), r, tick (tick w))
      else (Inr (Some \<lparr>mv_id = mm_id m, mv_off = base + 8,
                       mv_len = min (fb_height r * fb_stride r) (mm_size m - (base + 8))\<rparr>,
                 seq_at m base (now w + 1)),
            r\<lparr>fb_last_seq := seq_at m base (now w + 1)\<rparr>, borrow m (tick (tick w))))"
  using assms by (rule latest_frame_view_fast_eq)

text \<open>
  Scenario B (buffer 0 active, sequence 7: a view of \<open>height * stride = 3\<close> bytes), and
  the same segment with buffer 1 active, whose sequence 4 is even.
\<close>

theorem latest_frame_view_fast_amended_witness:
  "fb_mm (fb_reader_on fb_two_bytes) = Some (mmap_of 0 (static_file fb_two_bytes))
   \<and> 28 \<le> mm_size (mmap_of 0 (static_file fb_two_bytes))
   \<and> 28 + 8 \<le> mm_size (mmap_of 0 (static_file fb_two_bytes))
   \<and> latest_frame_view_fast (fb_reader_on fb_two_bytes) (fb_world_on fb_two_bytes) =
       (Inr (Some \<lparr>mv_id = 0, mv_off = 36, mv_len = 3\<rparr>, 7),
        (fb_reader_on fb_two_bytes)\<lparr>fb_last_seq := 7\<rparr>,
        borrow (mmap_of 0 (static_file fb_two_bytes)) (tick (tick (fb_world_on fb_two_bytes))))
   \<and> fb_mm (fb_reader_on fb_busy_bytes) = Some (mmap_of 0 (static_file fb_busy_bytes))
   \<and> 39 + 8 \<le> mm_size (mmap_of 0 (static_file fb_busy_bytes))
   \<and> latest_frame_view_fast (fb_reader_on fb_busy_bytes) (fb_world_on fb_busy_bytes) =
       (Inr (None, 0), fb_reader_on fb_busy_bytes, tick (tick (fb_world_on fb_busy_bytes)))"
proof -
  have a: "28 \<le> mm_size (mmap_of 0 (static_file fb_two_bytes))"
    and b: "28 = fb_header_size (fb_reader_on fb_two_bytes)
             + le_at (mm_bytes (mmap_of 0 (static_file fb_two_bytes))
                        (now (fb_world_on fb_two_bytes))) 24 4
               * fb_onebuf_size (fb_reader_on fb_two_bytes)"
    and c: "28 + 8 \<le> mm_size (mmap_of 0 (static_file fb_two_bytes))"
    by (simp_all add: fb_two_facts)
  have a': "28 \<le> mm_size (mmap_of 0 (static_file fb_busy_bytes))"
    and b': "39 = fb_header_size (fb_reader_on fb_busy_bytes)
             + le_at (mm_bytes (mmap_of 0 (static_file fb_busy_bytes))
                        (now (fb_world_on fb_busy_bytes))) 24 4
               * fb_onebuf_size (fb_reader_on fb_busy_bytes)"
    and c': "39 + 8 \<le> mm_size (mmap_of 0 (static_file fb_busy_bytes))"
    by (simp_all add: fb_busy_facts)
  show ?thesis
    using latest_frame_view_fast_amended [OF fb_two_facts(1) a b c]
      latest_frame_view_fast_amended [OF fb_busy_facts(1) a' b' c'] a c c'
    by (simp add: fb_two_facts fb_busy_facts)
qed

text \<open>
  The claim as stated fails on a segment that ends inside its buffer: \<^verbatim>\<open>connect\<close>
  accepts it, \<open>height * stride\<close> is 6, and the view holds 3 bytes.
\<close>

theorem latest_frame_view_fast_clipped_counterexample:
  "fst (FrameShmReader_connect (FrameShmReader_init ''/uc3d_fb0'')
          (world_with ''/dev/shm/uc3d_fb0'' fb_short_bytes)) = Inr ()
   \<and> fb_height (fb_reader_on fb_short_bytes) * fb_stride (fb_reader_on fb_short_bytes) = 6
   \<and> fst (latest_frame_view_fast (fb_reader_on fb_short_bytes) (fb_world_on fb_short_bytes))
       = Inr (Some \<lparr>mv_id = 0, mv_off = 36, mv_len = 3\<rparr>, 7)"
proof -
  have a: "28 \<le> mm_size (mmap_of 0 (static_file fb_short_bytes))"
    and b: "28 = fb_header_size (fb_reader_on fb_short_bytes)
             + le_at (mm_bytes (mmap_of 0 (static_file fb_short_bytes))
                        (now (fb_world_on fb_short_bytes))) 24 4
               * fb_onebuf_size (fb_reader_on fb_short_bytes)"
    and c: "28 + 8 \<le> mm_size (mmap_of 0 (static_file fb_short_bytes))"
    by (simp_all add: fb_short_facts)
  from latest_frame_view_fast_eq [OF fb_short_facts(1) a b c]
  show ?thesis
    by (simp add: fb_short_facts)
qed

section \<open>The immediate geometry read\<close>

lemma geo_latest_fast_eq:
  assumes "geo_mm g = Some m" and "24 \<le> mm_size m"
  shows "GeoShmReader_latest_fast g w =
     (if even (seq_at m 16 (now w))
      then (Inr (None, None, geo_last_seq g), g, tick w)
      else (Inr (Some \<lparr>mv_id = mm_id m, mv_off = min (geo_hdr_size g) (mm_size m),
                       mv_len = min (geo_count g * 8) (mm_size m - geo_hdr_size g)\<rparr>,
                 Some \<lparr>meta_count = geo_count g, meta_width = geo_width g,
                       meta_height = geo_height g\<rparr>,
                 seq_at m 16 (now w)),
            g\<lparr>geo_last_seq := seq_at m 16 (now w)\<rparr>, borrow m (tick w)))"
  using assms
  by (auto simp: GeoShmReader_latest_fast_def unpack_from_def seq_at_def le_at_def Let_def
      and1_odd and1_even mm_slice_def)

text \<open>
  C5 (as amended). On a connected geometry reader whose sequence at offset 16 can be read,
  \<^verbatim>\<open>latest_fast\<close> reads it once. If it is even, the result is
  \<open>(None, None, last_seq)\<close> and the reader is unchanged. If it is odd, the result is a view
  that starts after the 24-byte header and covers \<open>count * 8\<close> bytes clipped to the end of
  the mapping (all of them when the mapping holds the payload), the meta record of the
  \<open>count\<close>, \<open>width\<close> and \<open>height\<close> cached at connect, and that sequence; the reader
  changes in \<open>_last_seq\<close> only.
\<close>

theorem geo_latest_fast_amended:
  assumes "geo_mm g = Some m" and "24 \<le> mm_size m"
  shows "GeoShmReader_latest_fast g w =
     (if even (seq_at m 16 (now w))
      then (Inr (None, None, geo_last_seq g), g, tick w)
      else (Inr (Some \<lparr>mv_id = mm_id m, mv_off = min (geo_hdr_size g) (mm_size m),
                       mv_len = min (geo_count g * 8) (mm_size m - geo_hdr_size g)\<rparr>,
                 Some \<lparr>meta_count = geo_count g, meta_width = geo_width g,
                       meta_height = geo_height g\<rparr>,
                 seq_at m 16 (now w)),
            g\<lparr>geo_last_seq := seq_at m 16 (now w)\<rparr>, borrow m (tick w)))"
  using assms by (rule geo_latest_fast_eq)

text \<open>
  Scenario C and its odd counterpart: sequence 4 gives unavailable with the last sequence
  unchanged; sequence 5 gives the sixteen bytes of the two points.
\<close>

theorem geo_latest_fast_amended_witness:
  "geo_mm (geo_reader_on geo_two_bytes) = Some (mmap_of 0 (static_file geo_two_bytes))
   \<and> 24 \<le> mm_size (mmap_of 0 (static_file geo_two_bytes))
   \<and> GeoShmReader_latest_fast (geo_reader_on geo_two_bytes) (geo_world_on geo_two_bytes) =
       (Inr (Some \<lparr>mv_id = 0, mv_off = 24, mv_len = 16\<rparr>,
             Some \<lparr>meta_count = 2, meta_width = 192, meta_height = 96\<rparr>, 5),
        (geo_reader_on geo_two_bytes)\<lparr>geo_last_seq := 5\<rparr>,
        borrow (mmap_of 0 (static_file geo_two_bytes)) (tick (geo_world_on geo_two_bytes)))
   \<and> geo_mm (geo_reader_on geo_busy_bytes) = Some (mmap_of 0 (static_file geo_busy_bytes))
   \<and> 24 \<le> mm_size (mmap_of 0 (static_file geo_busy_bytes))
   \<and> GeoShmReader_latest_fast (geo_reader_on geo_busy_bytes) (geo_world_on geo_busy_bytes) =
       (Inr (None, None, 0), geo_reader_on geo_busy_bytes, tick (geo_world_on geo_busy_bytes))"
proof -
  have a: "geo_mm (geo_reader_on geo_two_bytes) = Some (mmap_of 0 (static_file geo_two_bytes))"
    and b: "24 \<le> mm_size (mmap_of 0 (static_file geo_two_bytes))"
    by (simp_all add: geo_two_facts geo_two_hdr)
  have c: "geo_mm (geo_reader_on geo_busy_bytes) = Some (mmap_of 0 (static_file geo_busy_bytes))"
    and d: "24 \<le> mm_size (mmap_of 0 (static_file geo_busy_bytes))"
    by (simp_all add: geo_busy_facts geo_busy_hdr)
  show ?thesis
    using geo_latest_fast_amended [OF a b, of "geo_world_on geo_two_bytes"]
      geo_latest_fast_amended [OF c d, of "geo_world_on geo_busy_bytes"] a b c d
    by (simp add: geo_two_facts geo_two_hdr geo_busy_facts geo_busy_hdr)
qed

text \<open>
  The claim as stated fails on a segment that ends before its payload does: \<^verbatim>\<open>connect\<close>
  accepts it, the header declares two points (16 bytes), and the view holds 8.
\<close>

theorem geo_latest_fast_clipped_counterexample:
  "fst (GeoShmReader_connect (GeoShmReader_init ''/uc3d_geom0'')
          (world_with ''/dev/shm/uc3d_geom0'' geo_short_bytes)) = Inr ()
   \<and> geo_count (geo_reader_on geo_short_bytes) * 8 = 16
   \<and> fst (GeoShmReader_latest_fast (geo_reader_on geo_short_bytes) (geo_world_on geo_short_bytes))
       = Inr (Some \<lparr>mv_id = 0, mv_off = 24, mv_len = 8\<rparr>,
              Some \<lparr>meta_count = 2, meta_width = 192, meta_height = 96\<rparr>, 5)"
proof -
  have "24 \<le> mm_size (mmap_of 0 (static_file geo_short_bytes))"
    by (simp add: geo_short_hdr)
  from geo_latest_fast_eq [OF geo_short_facts(1) this, of "geo_world_on geo_short_bytes"]
  show ?thesis
    by (simp add: geo_short_facts geo_short_hdr)
qed


section \<open>Listing the cameras\<close>

lemma unpack_cam_descriptor:
  "unpack_cam decode (map mem [off..<off + 48]) = descriptor_at decode mem off"
  by (simp add: unpack_cam_def descriptor_at_def split_nul_def field_def le_at_def
      take_map drop_map add.assoc)

lemma map_upt_Suc_shift: "map f [0..<Suc n] = f 0 # map (\<lambda>i. f (Suc i)) [0..<n]"
  by (simp add: upt_conv_Cons map_Suc_upt [symmetric] del: upt_Suc)

lemma cams_loop_ok:
  "off + 48 * n \<le> mm_size m \<Longrightarrow>
   fst (cams_loop n decode m off cams w) =
     Inr (cams @ map (\<lambda>i. descriptor_at decode (mm_bytes m (now w + i)) (off + 48 * i)) [0..<n])"
proof (induction n arbitrary: off cams w)
  case 0
  then show ?case by simp
next
  case (Suc n)
  from Suc.prems have a: "off + 48 \<le> mm_size m" and b: "(off + 48) + 48 * n \<le> mm_size m"
    by simp_all
  show ?case
    using a Suc.IH [OF b]
    by (simp add: unpack_from_def unpack_cam_descriptor map_upt_Suc_shift add.assoc add.commute
        add.left_commute del: upt_Suc)
qed

lemma cams_loop_short:
  "off \<le> mm_size m \<Longrightarrow> mm_size m < off + 48 * n \<Longrightarrow>
   fst (cams_loop n decode m off cams w) = Inl StructError"
proof (induction n arbitrary: off cams w)
  case 0
  then show ?case by simp
next
  case (Suc n)
  show ?case
  proof (cases "off + 48 \<le> mm_size m")
    case True
    from Suc.prems have "mm_size m < (off + 48) + 48 * n" by simp
    from Suc.IH [OF True this] True show ?thesis
      by (simp add: unpack_from_def)
  next
    case False
    then show ?thesis by (simp add: unpack_from_def)
  qed
qed

lemma list_cameras_eq:
  assumes "reg_mm rd = Some m" and "12 \<le> mm_size m"
  shows "fst (list_cameras decode rd w) =
     (if le_at (mm_bytes m (now w)) 0 4 = REG_MAGIC
      then if 12 + 48 * le_at (mm_bytes m (now w)) 8 4 \<le> mm_size m
           then Inr (map (\<lambda>i. descriptor_at decode (mm_bytes m (now w + 1 + i)) (12 + 48 * i))
                       [0..<le_at (mm_bytes m (now w)) 8 4])
           else Inl StructError
      else Inr [])"
proof -
  have t: "truthy (Some m)"
    using assms(2) by (simp add: truthy_def)
  have u: "unpack_from 12 m 0 (now w) = Inr (map (mm_bytes m (now w)) [0..<12])"
    using assms(2) by (simp add: unpack_from_def)
  have f: "field (map (mm_bytes m (now w)) [0..<12]) 0 4 = le_at (mm_bytes m (now w)) 0 4"
    "field (map (mm_bytes m (now w)) [0..<12]) 8 4 = le_at (mm_bytes m (now w)) 8 4"
    by (simp_all add: field_map_upt)
  show ?thesis
  proof (cases "le_at (mm_bytes m (now w)) 0 4 = REG_MAGIC")
    case False
    then show ?thesis
      by (simp add: list_cameras_def t u f assms(1) Let_def del: upt_rec_numeral)
  next
    case True
    show ?thesis
    proof (cases "12 + 48 * le_at (mm_bytes m (now w)) 8 4 \<le> mm_size m")
      case ok: True
      from cams_loop_ok [OF ok, of decode "[]" "tick w"] True ok show ?thesis
        by (simp add: list_cameras_def t u f assms(1) Let_def add.assoc del: upt_rec_numeral)
    next
      case short: False
      then have "mm_size m < 12 + 48 * le_at (mm_bytes m (now w)) 8 4" by simp
      from cams_loop_short [OF assms(2) this, of decode "[]" "tick w"] True short show ?thesis
        by (simp add: list_cameras_def t u f assms(1) Let_def del: upt_rec_numeral)
    qed
  qed
qed

lemma list_cameras_not_connected:
  "reg_mm rd = None \<Longrightarrow> list_cameras decode rd w = (Inr [], w)"
  by (simp add: list_cameras_def truthy_def)

lemma reg_on_static:
  assumes "0 < length bs"
  shows "reg_reader_on bs =
     \<lparr>reg_name = ''/uc3d_reg'', reg_fd = Some 0, reg_mm = Some (mmap_of 0 (static_file bs))\<rparr>"
    and "now (reg_world_on bs) = 0"
    and "fst (RegistryReader_connect (RegistryReader_init ''/uc3d_reg'')
                (world_with ''/dev/shm/uc3d_reg'' bs)) = Inr ()"
  using assms
  by (simp_all add: reg_reader_on_def reg_world_on_def RegistryReader_connect_def
      RegistryReader_init_def ex_defs)

lemma name_front: "decode_ascii [0x66, 0x72, 0x6F, 0x6E, 0x74] = ''front''"
  by code_simp

lemma name_rear: "decode_ascii [0x72, 0x65, 0x61, 0x72] = ''rear''"
  by code_simp

lemma descriptor_at_static:
  "off + 48 \<le> length bs \<Longrightarrow>
   descriptor_at decode (byte_at bs) off =
     \<lparr>cam_name = decode (takeWhile (\<lambda>b. b \<noteq> 0) (take 32 (drop off bs))),
      cam_index = le_nat (take 4 (drop (off + 32) bs)),
      cam_count = le_nat (take 4 (drop (off + 36) bs)),
      cam_width = le_nat (take 4 (drop (off + 40) bs)),
      cam_height = le_nat (take 4 (drop (off + 44) bs))\<rparr>"
  by (simp add: descriptor_at_def le_at_static map_byte_at_upt)

lemma reg_two_facts:
  "length reg_two_bytes = 108"
  "le_at (byte_at reg_two_bytes) 0 4 = REG_MAGIC"
  "le_at (byte_at reg_two_bytes) 8 4 = 2"
  "descriptor_at decode_ascii (byte_at reg_two_bytes) 12 =
     \<lparr>cam_name = ''front'', cam_index = 0, cam_count = 100, cam_width = 192, cam_height = 96\<rparr>"
  "descriptor_at decode_ascii (byte_at reg_two_bytes) 60 =
     \<lparr>cam_name = ''rear'', cam_index = 1, cam_count = 100, cam_width = 192, cam_height = 96\<rparr>"
proof -
  show l: "length reg_two_bytes = 108"
    by (simp add: reg_two_bytes_def)
  show "le_at (byte_at reg_two_bytes) 0 4 = REG_MAGIC" "le_at (byte_at reg_two_bytes) 8 4 = 2"
    by (simp_all add: le_at_static l) (simp_all add: reg_two_bytes_def REG_MAGIC_def)
  show "descriptor_at decode_ascii (byte_at reg_two_bytes) 12 =
     \<lparr>cam_name = ''front'', cam_index = 0, cam_count = 100, cam_width = 192, cam_height = 96\<rparr>"
    by (subst descriptor_at_static) (simp_all add: reg_two_bytes_def name_front)
  show "descriptor_at decode_ascii (byte_at reg_two_bytes) 60 =
     \<lparr>cam_name = ''rear'', cam_index = 1, cam_count = 100, cam_width = 192, cam_height = 96\<rparr>"
    by (subst descriptor_at_static) (simp_all add: reg_two_bytes_def name_rear)
qed

lemma mm_bytes_static [simp]: "mm_bytes (mmap_of i (static_file bs)) t = byte_at bs"
  by (simp add: mmap_of_def)

text \<open>
  C6 (as amended). A reader that is not connected lists no camera and raises nothing. On a
  mapped registry whose 12-byte header can be read: if the magic mismatches the list is
  empty; otherwise, when the region holds the \<open>camera_count\<close> descriptors the header
  announces (\<open>12 + 48 * camera_count\<close> bytes), the list has exactly these descriptors in
  the order of their offsets, each name cut at its first NUL byte and decoded (so it is
  empty when \<open>camera_count = 0\<close>); when the region is shorter, the call raises
  \<^verbatim>\<open>struct.error\<close>.
\<close>

theorem list_cameras_amended:
  "(reg_mm rd = None \<longrightarrow> list_cameras decode rd w = (Inr [], w))
   \<and> (\<forall>m. reg_mm rd = Some m \<and> 12 \<le> mm_size m \<longrightarrow>
         fst (list_cameras decode rd w) =
           (if le_at (mm_bytes m (now w)) 0 4 = REG_MAGIC
            then if 12 + 48 * le_at (mm_bytes m (now w)) 8 4 \<le> mm_size m
                 then Inr (map (\<lambda>i. descriptor_at decode (mm_bytes m (now w + 1 + i))
                                       (12 + 48 * i))
                             [0..<le_at (mm_bytes m (now w)) 8 4])
                 else Inl StructError
            else Inr []))"
  using list_cameras_eq list_cameras_not_connected by blast

text \<open>Scenario A, and a reader that was never connected.\<close>

theorem list_cameras_amended_witness:
  "reg_mm (RegistryReader_init ''/uc3d_reg'') = None
   \<and> list_cameras decode_ascii (RegistryReader_init ''/uc3d_reg'') world0 = (Inr [], world0)
   \<and> reg_mm (reg_reader_on reg_two_bytes) = Some (mmap_of 0 (static_file reg_two_bytes))
   \<and> 12 \<le> mm_size (mmap_of 0 (static_file reg_two_bytes))
   \<and> fst (list_cameras decode_ascii (reg_reader_on reg_two_bytes) (reg_world_on reg_two_bytes))
       = Inr [\<lparr>cam_name = ''front'', cam_index = 0, cam_count = 100, cam_width = 192,
                cam_height = 96\<rparr>,
              \<lparr>cam_name = ''rear'', cam_index = 1, cam_count = 100, cam_width = 192,
                cam_height = 96\<rparr>]"
proof -
  have a: "reg_mm (RegistryReader_init ''/uc3d_reg'') = None"
    by (simp add: RegistryReader_init_def)
  have b: "reg_mm (reg_reader_on reg_two_bytes) = Some (mmap_of 0 (static_file reg_two_bytes))"
    and n: "now (reg_world_on reg_two_bytes) = 0"
    by (simp_all add: reg_on_static reg_two_facts(1))
  have c: "12 \<le> mm_size (mmap_of 0 (static_file reg_two_bytes))"
    by (simp add: reg_two_facts(1))
  note T = list_cameras_amended [of _ decode_ascii]
  from T [of "RegistryReader_init ''/uc3d_reg''" world0] a
  have "list_cameras decode_ascii (RegistryReader_init ''/uc3d_reg'') world0 = (Inr [], world0)"
    by blast
  moreover
  from T [of "reg_reader_on reg_two_bytes" "reg_world_on reg_two_bytes"] b c
  have "fst (list_cameras decode_ascii (reg_reader_on reg_two_bytes) (reg_world_on reg_two_bytes))
      = (if le_at (byte_at reg_two_bytes) 0 4 = REG_MAGIC
         then if 12 + 48 * le_at (byte_at reg_two_bytes) 8 4 \<le> length reg_two_bytes
              then Inr (map (\<lambda>i. descriptor_at decode_ascii (byte_at reg_two_bytes) (12 + 48 * i))
                          [0..<le_at (byte_at reg_two_bytes) 8 4])
              else Inl StructError
         else Inr [])"
    by (simp add: n)
  then have "fst (list_cameras decode_ascii (reg_reader_on reg_two_bytes)
                    (reg_world_on reg_two_bytes))
      = Inr [descriptor_at decode_ascii (byte_at reg_two_bytes) 12,
             descriptor_at decode_ascii (byte_at reg_two_bytes) 60]"
    by (simp add: reg_two_facts(1-3) numeral_2_eq_2)
  ultimately show ?thesis
    using a b c by (simp add: reg_two_facts(4,5))
qed

text \<open>
  The claim as stated fails on a registry that ends after its header while announcing one
  camera: \<^verbatim>\<open>connect\<close> maps it, the magic matches, and \<^verbatim>\<open>list_cameras\<close> raises.
\<close>

theorem list_cameras_short_counterexample:
  "fst (RegistryReader_connect (RegistryReader_init ''/uc3d_reg'')
          (world_with ''/dev/shm/uc3d_reg'' reg_short_bytes)) = Inr ()
   \<and> le_at (byte_at reg_short_bytes) 0 4 = REG_MAGIC
   \<and> le_at (byte_at reg_short_bytes) 8 4 = 1
   \<and> fst (list_cameras decode_ascii (reg_reader_on reg_short_bytes)
            (reg_world_on reg_short_bytes)) = Inl StructError"
proof -
  have l: "length reg_short_bytes = 12"
    by (simp add: reg_short_bytes_def)
  have f: "le_at (byte_at reg_short_bytes) 0 4 = REG_MAGIC"
    "le_at (byte_at reg_short_bytes) 8 4 = 1"
    by (simp_all add: le_at_static l) (simp_all add: reg_short_bytes_def REG_MAGIC_def)
  have b: "reg_mm (reg_reader_on reg_short_bytes) = Some (mmap_of 0 (static_file reg_short_bytes))"
    and c: "12 \<le> mm_size (mmap_of 0 (static_file reg_short_bytes))"
    by (simp_all add: reg_on_static l)
  from list_cameras_eq [OF b c, of decode_ascii "reg_world_on reg_short_bytes"]
  show ?thesis
    by (simp add: f l reg_on_static)
qed


section \<open>Writing the control record\<close>

lemma length_le_bytes [simp]: "length (le_bytes n v) = n"
  by (induction n arbitrary: v) simp_all

lemma pack_float_ok:
  "packs pack_f x \<Longrightarrow> pack_float pack_f x = Inr (le_bytes 4 (unat (f32_bits pack_f x)))"
  by (simp add: pack_float_def packs_def f32_bits_def split: sum.splits)

lemma pack_float_fail: "\<not> packs pack_f x \<Longrightarrow> \<exists>e. pack_float pack_f x = Inl e"
  by (simp add: pack_float_def packs_def split: sum.splits)

lemma pack_floats_ok:
  "list_all (packs pack_f) xs \<Longrightarrow>
   pack_floats pack_f xs = Inr (concat (map (\<lambda>x. le_bytes 4 (unat (f32_bits pack_f x))) xs))"
  by (induction xs) (simp_all add: pack_float_ok)

lemma pack_floats_fail:
  "\<not> list_all (packs pack_f) xs \<Longrightarrow> \<exists>e. pack_floats pack_f xs = Inl e"
proof (induction xs)
  case Nil
  then show ?case by simp
next
  case (Cons x xs)
  show ?case
  proof (cases "packs pack_f x")
    case True
    with Cons.prems have "\<not> list_all (packs pack_f) xs" by simp
    from Cons.IH [OF this] True show ?thesis
      by (auto simp: pack_float_ok)
  next
    case False
    from pack_float_fail [OF this] show ?thesis by auto
  qed
qed

lemma length_concat_f32:
  "length (concat (map (\<lambda>x. le_bytes 4 (unat (f x))) xs)) = 4 * length xs"
  by (induction xs) simp_all

lemma CTRL_STRUCT_pack_ok:
  assumes "ctrl_fits pack_f c"
  shows "CTRL_STRUCT_pack pack_f (ctrl_seq c) (ctrl_pause c) (ctrl_dt_scale c)
      (ctrl_cam_pos c @ ctrl_cam_look c @ ctrl_cam_up c) (ctrl_debug_flags c)
    = Inr (ctrl_record pack_f c)"
proof -
  from assms have a: "packs pack_f (ctrl_dt_scale c)"
    and b: "list_all (packs pack_f) (ctrl_cam_pos c @ ctrl_cam_look c @ ctrl_cam_up c)"
    by (simp_all add: ctrl_fits_def)
  from assms show ?thesis
    unfolding CTRL_STRUCT_pack_def pack_float_ok [OF a] pack_floats_ok [OF b]
    by (simp add: ctrl_fits_def pack_uint_def ctrl_record_def)
qed

lemma CTRL_STRUCT_pack_fail:
  assumes "\<not> ctrl_fits pack_f c"
  shows "\<exists>e. CTRL_STRUCT_pack pack_f (ctrl_seq c) (ctrl_pause c) (ctrl_dt_scale c)
      (ctrl_cam_pos c @ ctrl_cam_look c @ ctrl_cam_up c) (ctrl_debug_flags c) = Inl e"
proof (cases "packs pack_f (ctrl_dt_scale c)")
  case False
  from pack_float_fail [OF this] show ?thesis
    by (auto simp: CTRL_STRUCT_pack_def pack_uint_def)
next
  case a: True
  show ?thesis
  proof (cases "list_all (packs pack_f) (ctrl_cam_pos c @ ctrl_cam_look c @ ctrl_cam_up c)")
    case False
    from pack_floats_fail [OF this] show ?thesis
      by (auto simp: CTRL_STRUCT_pack_def pack_uint_def pack_float_ok [OF a])
  next
    case b: True
    from assms a b show ?thesis
      unfolding CTRL_STRUCT_pack_def pack_float_ok [OF a] pack_floats_ok [OF b]
      by (auto simp: ctrl_fits_def pack_uint_def)
  qed
qed

lemma length_ctrl_record:
  "length (ctrl_cam_pos c @ ctrl_cam_look c @ ctrl_cam_up c) = 9 \<Longrightarrow>
   length (ctrl_record pack_f c) = 56"
  by (simp add: ctrl_record_def length_concat_f32)

lemma CtrlShmWriter_write_fits:
  assumes "ctrl_shm c = Some region" and "56 \<le> length region"
    and "ctrl_fits pack_f (c\<lparr>ctrl_seq := ctrl_seq c + 1\<rparr>)"
  shows "CtrlShmWriter_write pack_f c =
     (Inr (), c\<lparr>ctrl_seq := ctrl_seq c + 1,
                ctrl_shm := Some (ctrl_record pack_f (c\<lparr>ctrl_seq := ctrl_seq c + 1\<rparr>)
                                  @ drop 56 region)\<rparr>)"
proof -
  from assms(3) have "length (ctrl_record pack_f (c\<lparr>ctrl_seq := ctrl_seq c + 1\<rparr>)) = 56"
    by (intro length_ctrl_record) (simp add: ctrl_fits_def)
  with assms(1,2) CTRL_STRUCT_pack_ok [OF assms(3)] show ?thesis
    by (simp add: CtrlShmWriter_write_def CTRL_STRUCT_size_def Let_def)
qed

lemma CtrlShmWriter_write_seq:
  "ctrl_seq (snd (CtrlShmWriter_write pack_f c)) = ctrl_seq c + 1"
  by (simp add: CtrlShmWriter_write_def Let_def split: sum.splits option.splits)

lemma CtrlShmWriter_write_Inr:
  assumes "fst (CtrlShmWriter_write pack_f c) = Inr ()"
  shows "(\<exists>region. ctrl_shm c = Some region \<and> 56 \<le> length region)
       \<and> ctrl_fits pack_f (c\<lparr>ctrl_seq := ctrl_seq c + 1\<rparr>)"
proof -
  have f: "ctrl_fits pack_f (c\<lparr>ctrl_seq := ctrl_seq c + 1\<rparr>)"
  proof (rule ccontr)
    assume "\<not> ctrl_fits pack_f (c\<lparr>ctrl_seq := ctrl_seq c + 1\<rparr>)"
    from CTRL_STRUCT_pack_fail [OF this] assms show False
      by (auto simp: CtrlShmWriter_write_def Let_def)
  qed
  then have "length (ctrl_record pack_f (c\<lparr>ctrl_seq := ctrl_seq c + 1\<rparr>)) = 56"
    by (intro length_ctrl_record) (simp add: ctrl_fits_def)
  with assms CTRL_STRUCT_pack_ok [OF f]
  have "\<exists>region. ctrl_shm c = Some region \<and> 56 \<le> length region"
    by (auto simp: CtrlShmWriter_write_def CTRL_STRUCT_size_def Let_def
        split: option.splits if_splits)
  with f show ?thesis by simp
qed

lemma ctrl_example_fits: "ctrl_fits Inr (ctrl_example\<lparr>ctrl_seq := ctrl_seq ctrl_example + 1\<rparr>)"
  by (simp add: ctrl_fits_def ctrl_example_def packs_def)

lemma le_bytes_1: "le_bytes 1 v = [word_of_nat (v mod 256)]"
  by simp

lemma le_bytes_4:
  "le_bytes 4 v =
     [word_of_nat (v mod 256), word_of_nat (v div 256 mod 256),
      word_of_nat (v div 256 div 256 mod 256), word_of_nat (v div 256 div 256 div 256 mod 256)]"
proof -
  have "(4::nat) = Suc (Suc (Suc (Suc 0)))" by simp
  then show ?thesis by (simp only: le_bytes.simps)
qed

lemma le_bytes_8:
  "le_bytes 8 v = le_bytes 4 v @ le_bytes 4 (v div 256 div 256 div 256 div 256)"
proof -
  have "(8::nat) = Suc (Suc (Suc (Suc (Suc (Suc (Suc (Suc 0)))))))" by simp
  then show ?thesis by (simp only: le_bytes.simps le_bytes_4) simp
qed

lemma ctrl_example_record:
  "ctrl_record Inr (ctrl_example\<lparr>ctrl_seq := 1\<rparr>) =
   [1, 0, 0, 0, 0, 0, 0, 0,  1, 0, 0, 0,  0, 0, 0x80, 0x3F,
    0, 0, 0, 0, 0, 0, 0, 0, 0, 0, 0, 0,
    0, 0, 0, 0, 0, 0, 0, 0, 0, 0, 0x80, 0xBF,
    0, 0, 0, 0, 0, 0, 0x80, 0x3F, 0, 0, 0, 0,
    0, 0, 0, 0]"
  by (simp add: ctrl_record_def ctrl_example_def f32_bits_def le_bytes_1 le_bytes_4 le_bytes_8)


text \<open>
  C9. Every call to \<^verbatim>\<open>write\<close> leaves the counter one higher, whether or not it raises.
  A call on a writer connected to a segment of at least 56 bytes, whose values fit the
  fields of the record, returns normally and has replaced the first 56 bytes of the segment
  by the record in its fixed layout, with the new sequence first, in one slice assignment;
  the bytes after the record are untouched. No other call returns normally.
\<close>

theorem write_increments_and_writes:
  "ctrl_seq (snd (CtrlShmWriter_write pack_f c)) = ctrl_seq c + 1
   \<and> (\<forall>region. ctrl_shm c = Some region \<and> 56 \<le> length region
          \<and> ctrl_fits pack_f (c\<lparr>ctrl_seq := ctrl_seq c + 1\<rparr>) \<longrightarrow>
        CtrlShmWriter_write pack_f c =
          (Inr (), c\<lparr>ctrl_seq := ctrl_seq c + 1,
                     ctrl_shm := Some (ctrl_record pack_f (c\<lparr>ctrl_seq := ctrl_seq c + 1\<rparr>)
                                       @ drop 56 region)\<rparr>)
        \<and> length (ctrl_record pack_f (c\<lparr>ctrl_seq := ctrl_seq c + 1\<rparr>)) = CTRL_STRUCT_size)
   \<and> (fst (CtrlShmWriter_write pack_f c) = Inr () \<longrightarrow>
        (\<exists>region. ctrl_shm c = Some region \<and> 56 \<le> length region)
        \<and> ctrl_fits pack_f (c\<lparr>ctrl_seq := ctrl_seq c + 1\<rparr>))"
proof (intro conjI allI impI)
  show "ctrl_seq (snd (CtrlShmWriter_write pack_f c)) = ctrl_seq c + 1"
    by (rule CtrlShmWriter_write_seq)
next
  fix region
  assume a: "ctrl_shm c = Some region \<and> 56 \<le> length region
     \<and> ctrl_fits pack_f (c\<lparr>ctrl_seq := ctrl_seq c + 1\<rparr>)"
  then show "CtrlShmWriter_write pack_f c =
          (Inr (), c\<lparr>ctrl_seq := ctrl_seq c + 1,
                     ctrl_shm := Some (ctrl_record pack_f (c\<lparr>ctrl_seq := ctrl_seq c + 1\<rparr>)
                                       @ drop 56 region)\<rparr>)"
    by (intro CtrlShmWriter_write_fits) simp_all
  from a show "length (ctrl_record pack_f (c\<lparr>ctrl_seq := ctrl_seq c + 1\<rparr>)) = CTRL_STRUCT_size"
    unfolding CTRL_STRUCT_size_def by (intro length_ctrl_record) (simp add: ctrl_fits_def)
next
  assume "fst (CtrlShmWriter_write pack_f c) = Inr ()"
  from CtrlShmWriter_write_Inr [OF this]
  show "\<exists>region. ctrl_shm c = Some region \<and> 56 \<le> length region"
    and "ctrl_fits pack_f (c\<lparr>ctrl_seq := ctrl_seq c + 1\<rparr>)"
    by simp_all
qed

text \<open>
  The first write of a fresh writer that was paused: sequence 1, pause 1, time scale 1.0,
  the default pose, no debug flags; the four bytes after the record keep their value.
\<close>

theorem write_increments_and_writes_witness:
  "ctrl_shm ctrl_example = Some (replicate 56 0xFF @ [0xAA, 0xBB, 0xCC, 0xDD])
   \<and> 56 \<le> length (replicate 56 (0xFF :: byte) @ [0xAA, 0xBB, 0xCC, 0xDD])
   \<and> ctrl_fits Inr (ctrl_example\<lparr>ctrl_seq := ctrl_seq ctrl_example + 1\<rparr>)
   \<and> fst (CtrlShmWriter_write Inr ctrl_example) = Inr ()
   \<and> ctrl_seq (snd (CtrlShmWriter_write Inr ctrl_example)) = 1
   \<and> ctrl_shm (snd (CtrlShmWriter_write Inr ctrl_example)) =
       Some [1, 0, 0, 0, 0, 0, 0, 0,  1, 0, 0, 0,  0, 0, 0x80, 0x3F,
             0, 0, 0, 0, 0, 0, 0, 0, 0, 0, 0, 0,
             0, 0, 0, 0, 0, 0, 0, 0, 0, 0, 0x80, 0xBF,
             0, 0, 0, 0, 0, 0, 0x80, 0x3F, 0, 0, 0, 0,
             0, 0, 0, 0,  0xAA, 0xBB, 0xCC, 0xDD]"
proof -
  have a: "ctrl_shm ctrl_example = Some (replicate 56 0xFF @ [0xAA, 0xBB, 0xCC, 0xDD])"
    and s: "ctrl_seq ctrl_example = 0"
    by (simp_all add: ctrl_example_def)
  have b: "56 \<le> length (replicate 56 (0xFF :: byte) @ [0xAA, 0xBB, 0xCC, 0xDD])"
    by simp
  note T = write_increments_and_writes [of Inr ctrl_example]
  from T a b ctrl_example_fits
  have "CtrlShmWriter_write Inr ctrl_example =
      (Inr (), ctrl_example\<lparr>ctrl_seq := ctrl_seq ctrl_example + 1,
                 ctrl_shm := Some (ctrl_record Inr
                                     (ctrl_example\<lparr>ctrl_seq := ctrl_seq ctrl_example + 1\<rparr>)
                                   @ drop 56 (replicate 56 0xFF @ [0xAA, 0xBB, 0xCC, 0xDD]))\<rparr>)"
    by blast
  then show ?thesis
    using a b ctrl_example_fits by (simp add: ctrl_example_record s)
qed


section \<open>Switching cameras\<close>

lemma lowest_free_fresh: "lowest_free xs \<notin> set xs"
proof (cases "find (\<lambda>n. n \<notin> set xs) [0..<Suc (length xs)]")
  case None
  then have "\<forall>n. n < Suc (length xs) \<longrightarrow> n \<in> set xs"
    unfolding find_None_iff by (simp add: less_Suc_eq) blast
  then have "{0..<Suc (length xs)} \<subseteq> set xs"
    by (simp add: subset_iff)
  then have "card {0..<Suc (length xs)} \<le> card (set xs)"
    by (intro card_mono) auto
  moreover have "card (set xs) \<le> length xs"
    by (rule card_length)
  ultimately show ?thesis by simp
next
  case (Some n)
  then have "n \<notin> set xs"
    unfolding find_Some_iff by blast
  then show ?thesis
    unfolding lowest_free_def Some by simp
qed

lemma FrameShmReader_connect_Inr:
  assumes "FrameShmReader_connect r w = (Inr (), r', w')" and "fb_header_size r = 28"
  shows "\<exists>f. files w (fb_path r) = Some f \<and> 28 \<le> f_size f
     \<and> fb_name r' = fb_name r
     \<and> fb_fd r' = Some (lowest_free (open_fds w))
     \<and> fb_mm r' = Some \<lparr>mm_id = lowest_free (mapped w), mm_size = f_size f,
                          mm_bytes = f_bytes f\<rparr>
     \<and> fb_width r' = le_at (f_bytes f (now w)) 8 4
     \<and> fb_height r' = le_at (f_bytes f (now w)) 12 4
     \<and> fb_stride r' = le_at (f_bytes f (now w)) 16 4
     \<and> fb_bufcnt r' = le_at (f_bytes f (now w)) 20 4
     \<and> fb_onebuf_size r' = 8 + fb_height r' * fb_stride r'
     \<and> files w' = files w \<and> now w' = now w + 1
     \<and> open_fds w' = lowest_free (open_fds w) # open_fds w
     \<and> mapped w' = lowest_free (mapped w) # mapped w"
proof (cases "files w (fb_path r)")
  case None
  with assms show ?thesis
    by (simp add: FrameShmReader_connect_def os_open_def)
next
  case (Some f)
  show ?thesis
  proof (cases "28 \<le> f_size f")
    case True
    from assms(1) show ?thesis
      unfolding FrameShmReader_connect_eq [OF Some True assms(2)]
      using Some True by (auto simp: Let_def tick_def split: if_splits)
  next
    case False
    with assms Some show ?thesis
      by (auto simp: FrameShmReader_connect_def os_open_def mmap_new_def Let_def
          split: if_splits)
  qed
qed

lemma GeoShmReader_connect_eq:
  assumes "files w (''/dev/shm'' @ geo_name g) = Some f" and "16 \<le> f_size f"
  shows "GeoShmReader_connect g w =
     (let fd = lowest_free (open_fds w);
          m = \<lparr>mm_id = lowest_free (mapped w), mm_size = f_size f, mm_bytes = f_bytes f\<rparr>;
          w' = tick (w\<lparr>open_fds := fd # open_fds w, mapped := mm_id m # mapped w\<rparr>);
          mem = f_bytes f (now w)
      in if le_at mem 0 4 = GEOM_MAGIC
         then (Inr (),
               g\<lparr>geo_fd := Some fd, geo_mm := Some m, geo_count := le_at mem 4 4,
                  geo_width := le_at mem 8 4, geo_height := le_at mem 12 4\<rparr>, w')
         else (Inl RuntimeError, g\<lparr>geo_fd := Some fd, geo_mm := Some m\<rparr>, w'))"
  using assms
  by (simp add: GeoShmReader_connect_def os_open_def mmap_new_def Let_def unpack_from_def
      field_map_upt tick_def)

lemma GeoShmReader_connect_Inr:
  assumes "GeoShmReader_connect g w = (Inr (), g', w')"
  shows "\<exists>f. files w (''/dev/shm'' @ geo_name g) = Some f \<and> 16 \<le> f_size f
     \<and> geo_name g' = geo_name g
     \<and> geo_fd g' = Some (lowest_free (open_fds w))
     \<and> geo_mm g' = Some \<lparr>mm_id = lowest_free (mapped w), mm_size = f_size f,
                           mm_bytes = f_bytes f\<rparr>
     \<and> geo_count g' = le_at (f_bytes f (now w)) 4 4
     \<and> geo_width g' = le_at (f_bytes f (now w)) 8 4
     \<and> geo_height g' = le_at (f_bytes f (now w)) 12 4
     \<and> files w' = files w \<and> now w' = now w + 1
     \<and> open_fds w' = lowest_free (open_fds w) # open_fds w
     \<and> mapped w' = lowest_free (mapped w) # mapped w"
proof (cases "files w (''/dev/shm'' @ geo_name g)")
  case None
  with assms show ?thesis
    by (simp add: GeoShmReader_connect_def os_open_def)
next
  case (Some f)
  show ?thesis
  proof (cases "16 \<le> f_size f")
    case True
    from assms(1) show ?thesis
      unfolding GeoShmReader_connect_eq [OF Some True]
      using Some True by (auto simp: Let_def tick_def split: if_splits)
  next
    case False
    with assms Some show ?thesis
      by (auto simp: GeoShmReader_connect_def os_open_def mmap_new_def Let_def unpack_from_def
          split: if_splits)
  qed
qed

lemma release_current_buffers_world:
  "files (snd (release_current_buffers vp w)) = files w"
  "now (snd (release_current_buffers vp w)) = now w"
  by (simp_all add: release_current_buffers_def release_def split: option.splits)

lemma release_current_buffers_fds:
  "open_fds (snd (release_current_buffers vp w)) = open_fds w"
  "mapped (snd (release_current_buffers vp w)) = mapped w"
  by (simp_all add: release_current_buffers_def release_def split: option.splits)

lemma fb_path_cam: "fb_path (FrameShmReader_init (CHR ''/'' # nm)) = ''/dev/shm/'' @ nm"
  by (simp add: fb_path_def FrameShmReader_init_def startswith_slash_def)

lemma init_fields [simp]:
  "fb_header_size (FrameShmReader_init nm) = 28" "fb_name (FrameShmReader_init nm) = nm"
  "geo_name (GeoShmReader_init nm) = nm"
  by (simp_all add: FrameShmReader_init_def GeoShmReader_init_def)

lemma open_camera_by_index_ok:
  assumes "files w (''/dev/shm/uc3d_fb'' @ str_int idx) = Some f1" and "28 \<le> f_size f1"
    and "le_at (f_bytes f1 (now w)) 0 4 = MAGIC"
    and "files w (''/dev/shm/uc3d_geom'' @ str_int idx) = Some f2" and "16 \<le> f_size f2"
    and "le_at (f_bytes f2 (now w + 1)) 0 4 = GEOM_MAGIC"
  shows "fst (open_camera_by_index vp idx w) = Inr ()"
proof -
  define fbn where "fbn = ''/uc3d_fb'' @ str_int idx"
  define gn where "gn = ''/uc3d_geom'' @ str_int idx"
  obtain vp1 w1 where rel: "release_current_buffers vp w = (vp1, w1)"
    by (cases "release_current_buffers vp w")
  with release_current_buffers_world [of vp w]
  have w1: "files w1 = files w" "now w1 = now w" by simp_all
  have a: "files w1 (fb_path (FrameShmReader_init fbn)) = Some f1"
    using assms(1) by (simp add: fbn_def fb_path_cam w1)
  note c1 = FrameShmReader_connect_eq [OF a assms(2) init_fields(1)]
  obtain r w2 where c1': "FrameShmReader_connect (FrameShmReader_init fbn) w1 = (Inr (), r, w2)"
    and w2: "files w2 = files w1" "now w2 = now w1 + 1"
    using assms(3) by (simp add: c1 Let_def w1 tick_def)
  have b: "files w2 (''/dev/shm'' @ geo_name (GeoShmReader_init gn)) = Some f2"
    using assms(4) by (simp add: gn_def w1 w2)
  note c2 = GeoShmReader_connect_eq [OF b assms(5)]
  obtain g w3 where c2': "GeoShmReader_connect (GeoShmReader_init gn) w2 = (Inr (), g, w3)"
    using assms(6) by (simp add: c2 Let_def w1 w2)
  show ?thesis
    unfolding open_camera_by_index_def Let_def rel fbn_def [symmetric] gn_def [symmetric]
    by (simp add: c1' c2')
qed

text \<open>
  The suffix an f-string puts for an integer is the decimal numeral of that integer, so a
  segment name determines its camera index.
\<close>

lemma decimal_digit_nth:
  assumes "k < 10"
  shows "decimal_digit (''0123456789'' ! k) = Some k"
    and "''0123456789'' ! k \<noteq> CHR ''-''"
    and "''0123456789'' ! k = CHR ''0'' \<longleftrightarrow> k = 0"
proof -
  from assms have "k = 0 \<or> k = 1 \<or> k = 2 \<or> k = 3 \<or> k = 4 \<or> k = 5 \<or> k = 6 \<or> k = 7
      \<or> k = 8 \<or> k = 9"
    by arith
  then show "decimal_digit (''0123456789'' ! k) = Some k"
    and "''0123456789'' ! k \<noteq> CHR ''-''"
    and "''0123456789'' ! k = CHR ''0'' \<longleftrightarrow> k = 0"
    by (auto simp: decimal_digit_def)
qed

lemma decimal_nat_snoc:
  "decimal_nat acc (xs @ [c]) =
     (case decimal_nat acc xs of
        None \<Rightarrow> None
      | Some v \<Rightarrow> (case decimal_digit c of None \<Rightarrow> None | Some d \<Rightarrow> Some (10 * v + d)))"
  by (induction xs arbitrary: acc) (auto split: option.splits)

lemma digits_nonempty: "digits n \<noteq> []"
  by (subst digits.simps) simp

lemma decimal_nat_digits: "decimal_nat 0 (digits n) = Some n"
proof (induction n rule: digits.induct)
  case (1 n)
  show ?case
  proof (cases "n < 10")
    case True
    then show ?thesis
      by (subst digits.simps) (simp add: decimal_digit_nth)
  next
    case False
    then have "decimal_nat 0 (digits (n div 10)) = Some (n div 10)"
      using 1 by simp
    with False show ?thesis
      by (subst digits.simps) (simp add: decimal_nat_snoc decimal_digit_nth)
  qed
qed

lemma hd_digits:
  "\<exists>k<10. hd (digits n) = ''0123456789'' ! k \<and> (k = 0 \<longrightarrow> n = 0)"
proof (induction n rule: digits.induct)
  case (1 n)
  show ?case
  proof (cases "n < 10")
    case True
    then show ?thesis
      by (subst digits.simps) auto
  next
    case False
    then obtain k where k: "k < 10" "hd (digits (n div 10)) = ''0123456789'' ! k"
      "k = 0 \<longrightarrow> n div 10 = 0"
      using 1 by blast
    from False have "n div 10 \<noteq> 0" by simp
    with k have "hd (digits n) = ''0123456789'' ! k \<and> (k = 0 \<longrightarrow> n = 0)"
      using False by (subst digits.simps) (auto simp: digits_nonempty)
    with k(1) show ?thesis by blast
  qed
qed

lemma length_digits: "1 < length (digits n) \<Longrightarrow> n \<noteq> 0"
  by (subst (asm) digits.simps) (auto split: if_splits)

lemma parse_nat_digits: "parse_nat (digits n) = Some n"
proof -
  obtain k where k: "k < 10" "hd (digits n) = ''0123456789'' ! k" "k = 0 \<longrightarrow> n = 0"
    using hd_digits by blast
  have "\<not> (hd (digits n) = CHR ''0'' \<and> 1 < length (digits n))"
    using k length_digits [of n] by (auto simp: decimal_digit_nth(3))
  then show ?thesis
    by (simp add: parse_nat_def digits_nonempty decimal_nat_digits)
qed

lemma parse_int_str_int: "parse_int (str_int i) = Some i"
proof (cases "i < 0")
  case True
  then show ?thesis
    by (simp add: parse_int_def str_int_def parse_nat_digits)
next
  case False
  obtain k where k: "k < 10" "hd (digits (nat i)) = ''0123456789'' ! k"
    using hd_digits by blast
  obtain c cs where cs: "digits (nat i) = c # cs"
    using digits_nonempty [of "nat i"] by (cases "digits (nat i)") auto
  with k have "c \<noteq> CHR ''-''"
    using decimal_digit_nth(2) [OF k(1)] by simp
  with False cs parse_nat_digits [of "nat i"] show ?thesis
    by (simp add: parse_int_def str_int_def)
qed

lemma str_int_examples:
  "str_int 0 = ''0''" "str_int 3 = ''3''" "str_int 12 = ''12''" "str_int 305 = ''305''"
  "str_int (- 7) = ''-7''"
  by (simp_all add: str_int_def digits.simps)

lemma parse_int_examples:
  "parse_int ''12'' = Some 12" "parse_int ''012'' = None" "parse_int ''-7'' = Some (- 7)"
  "parse_int ''1x'' = None" "parse_int '''' = None" "parse_int ''-0'' = None"
  by (simp_all add: parse_int_def parse_nat_def decimal_digit_def)

lemma world_cams_files:
  "files world_cams ''/dev/shm/uc3d_fb3'' = Some (static_file fb_two_bytes)"
  "files world_cams ''/dev/shm/uc3d_geom3'' = Some (static_file geo_cam3_bytes)"
  "files world_cams ''/dev/shm/uc3d_fb12'' = Some (static_file fb_cam12_bytes)"
  "files world_cams ''/dev/shm/uc3d_geom12'' = Some (static_file geo_cam12_bytes)"
  "now world_cams = 2" "open_fds world_cams = [1, 0]" "mapped world_cams = [1, 0]"
  by (simp_all add: world_cams_def world0_def)

lemma cam3_headers:
  "le_at (byte_at fb_two_bytes) 0 4 = MAGIC" "le_at (byte_at fb_two_bytes) 8 4 = 1"
  "le_at (byte_at fb_two_bytes) 12 4 = 1" "le_at (byte_at fb_two_bytes) 16 4 = 3"
  "le_at (byte_at geo_cam3_bytes) 0 4 = GEOM_MAGIC" "le_at (byte_at geo_cam3_bytes) 4 4 = 1"
  "le_at (byte_at geo_cam3_bytes) 8 4 = 64" "le_at (byte_at geo_cam3_bytes) 12 4 = 32"
  "length fb_two_bytes = 50" "length geo_cam3_bytes = 32"
  by (simp_all add: le_at_static MAGIC_def GEOM_MAGIC_def fb_two_bytes_def geo_cam3_bytes_def)

lemma cam12_headers:
  "le_at (byte_at fb_cam12_bytes) 0 4 = MAGIC" "le_at (byte_at fb_cam12_bytes) 8 4 = 2"
  "le_at (byte_at fb_cam12_bytes) 12 4 = 1" "le_at (byte_at fb_cam12_bytes) 16 4 = 6"
  "le_at (byte_at geo_cam12_bytes) 0 4 = GEOM_MAGIC" "le_at (byte_at geo_cam12_bytes) 4 4 = 3"
  "le_at (byte_at geo_cam12_bytes) 8 4 = 128" "le_at (byte_at geo_cam12_bytes) 12 4 = 48"
  "length fb_cam12_bytes = 42" "length geo_cam12_bytes = 48"
  by (simp_all add: le_at_static MAGIC_def GEOM_MAGIC_def fb_cam12_bytes_def geo_cam12_bytes_def)

text \<open>
  C8. When \<^verbatim>\<open>_open_camera_by_index(idx)\<close> returns, the viewport's frame and geometry
  readers are new readers named \<^verbatim>\<open>/uc3d_fb{idx}\<close> and \<^verbatim>\<open>/uc3d_geom{idx}\<close>: the
  suffix is the decimal numeral that denotes \<open>idx\<close>. The files of those names exist
  under \<^verbatim>\<open>/dev/shm\<close> and the call has opened them: each reader holds a descriptor and
  a mapping that were not there before the call, the four are distinct and now among the
  open descriptors and the live mappings, and each mapping has the size and the bytes of
  its file. The readers' width, height, stride, buffer size and point count are the values
  in the headers of these files as read during the call; nothing of the readers the
  viewport held before goes into them. The active index is \<open>idx\<close>.
\<close>

theorem open_camera_by_index_new_headers:
  assumes "open_camera_by_index vp idx w = (Inr (), vp', w')"
  shows "parse_int (str_int idx) = Some idx
   \<and> (\<exists>r g f_fb f_geom m_fb m_geom fd_fb fd_geom.
      vp_fb vp' = Some r \<and> vp_geom vp' = Some g \<and> vp_active_idx vp' = idx
      \<and> fb_name r = ''/uc3d_fb'' @ str_int idx \<and> geo_name g = ''/uc3d_geom'' @ str_int idx
      \<and> files w (''/dev/shm/uc3d_fb'' @ str_int idx) = Some f_fb
      \<and> files w (''/dev/shm/uc3d_geom'' @ str_int idx) = Some f_geom
      \<and> fb_fd r = Some fd_fb \<and> fb_mm r = Some m_fb
      \<and> mm_size m_fb = f_size f_fb \<and> mm_bytes m_fb = f_bytes f_fb
      \<and> geo_fd g = Some fd_geom \<and> geo_mm g = Some m_geom
      \<and> mm_size m_geom = f_size f_geom \<and> mm_bytes m_geom = f_bytes f_geom
      \<and> fd_fb \<notin> set (open_fds w) \<and> fd_geom \<notin> set (open_fds w) \<and> fd_fb \<noteq> fd_geom
      \<and> mm_id m_fb \<notin> set (mapped w) \<and> mm_id m_geom \<notin> set (mapped w)
      \<and> mm_id m_fb \<noteq> mm_id m_geom
      \<and> open_fds w' = fd_geom # fd_fb # open_fds w
      \<and> mapped w' = mm_id m_geom # mm_id m_fb # mapped w
      \<and> fb_width r = le_at (f_bytes f_fb (now w)) 8 4
      \<and> fb_height r = le_at (f_bytes f_fb (now w)) 12 4
      \<and> fb_stride r = le_at (f_bytes f_fb (now w)) 16 4
      \<and> fb_onebuf_size r = 8 + fb_height r * fb_stride r
      \<and> geo_count g = le_at (f_bytes f_geom (now w + 1)) 4 4
      \<and> geo_width g = le_at (f_bytes f_geom (now w + 1)) 8 4
      \<and> geo_height g = le_at (f_bytes f_geom (now w + 1)) 12 4)"
proof -
  obtain vp1 w1 where rel: "release_current_buffers vp w = (vp1, w1)"
    by (cases "release_current_buffers vp w")
  with release_current_buffers_world [of vp w] release_current_buffers_fds [of vp w]
  have w1: "files w1 = files w" "now w1 = now w" "open_fds w1 = open_fds w"
    "mapped w1 = mapped w" by simp_all
  obtain res1 r w2 where c1:
    "FrameShmReader_connect (FrameShmReader_init (''/uc3d_fb'' @ str_int idx)) w1 = (res1, r, w2)"
    using prod_cases3 by blast
  obtain res2 g w3 where c2:
    "GeoShmReader_connect (GeoShmReader_init (''/uc3d_geom'' @ str_int idx)) w2 = (res2, g, w3)"
    using prod_cases3 by blast
  from assms rel c1 have r1: "res1 = Inr ()"
    by (auto simp: open_camera_by_index_def Let_def split: sum.splits)
  with assms rel c1 c2 have r2: "res2 = Inr ()"
    by (auto simp: open_camera_by_index_def Let_def split: sum.splits)
  from assms rel c1 c2 r1 r2
  have vp': "vp_fb vp' = Some r" "vp_geom vp' = Some g" "vp_active_idx vp' = idx" "w' = w3"
    by (auto simp: open_camera_by_index_def Let_def)
  define fd_fb where "fd_fb = lowest_free (open_fds w1)"
  define i_fb where "i_fb = lowest_free (mapped w1)"
  define fd_geom where "fd_geom = lowest_free (open_fds w2)"
  define i_geom where "i_geom = lowest_free (mapped w2)"
  from FrameShmReader_connect_Inr [OF c1 [unfolded r1]]
  obtain f_fb where fb: "files w1 (''/dev/shm/uc3d_fb'' @ str_int idx) = Some f_fb"
    "fb_name r = ''/uc3d_fb'' @ str_int idx"
    "fb_fd r = Some fd_fb"
    "fb_mm r = Some \<lparr>mm_id = i_fb, mm_size = f_size f_fb, mm_bytes = f_bytes f_fb\<rparr>"
    "fb_width r = le_at (f_bytes f_fb (now w1)) 8 4"
    "fb_height r = le_at (f_bytes f_fb (now w1)) 12 4"
    "fb_stride r = le_at (f_bytes f_fb (now w1)) 16 4"
    "fb_onebuf_size r = 8 + fb_height r * fb_stride r"
    "files w2 = files w1" "now w2 = now w1 + 1"
    "open_fds w2 = fd_fb # open_fds w1" "mapped w2 = i_fb # mapped w1"
    unfolding fd_fb_def i_fb_def by (auto simp: fb_path_cam)
  from GeoShmReader_connect_Inr [OF c2 [unfolded r2]]
  obtain f_geom where geo: "files w2 (''/dev/shm/uc3d_geom'' @ str_int idx) = Some f_geom"
    "geo_name g = ''/uc3d_geom'' @ str_int idx"
    "geo_fd g = Some fd_geom"
    "geo_mm g = Some \<lparr>mm_id = i_geom, mm_size = f_size f_geom, mm_bytes = f_bytes f_geom\<rparr>"
    "geo_count g = le_at (f_bytes f_geom (now w2)) 4 4"
    "geo_width g = le_at (f_bytes f_geom (now w2)) 8 4"
    "geo_height g = le_at (f_bytes f_geom (now w2)) 12 4"
    "open_fds w3 = fd_geom # open_fds w2" "mapped w3 = i_geom # mapped w2"
    unfolding fd_geom_def i_geom_def by auto
  have fresh: "fd_fb \<notin> set (open_fds w)" "fd_geom \<notin> set (open_fds w)" "fd_fb \<noteq> fd_geom"
    "i_fb \<notin> set (mapped w)" "i_geom \<notin> set (mapped w)" "i_fb \<noteq> i_geom"
  proof -
    have "fd_fb \<notin> set (open_fds w1)" "fd_geom \<notin> set (open_fds w2)"
      "i_fb \<notin> set (mapped w1)" "i_geom \<notin> set (mapped w2)"
      unfolding fd_fb_def fd_geom_def i_fb_def i_geom_def by (rule lowest_free_fresh)+
    then show "fd_fb \<notin> set (open_fds w)" "fd_geom \<notin> set (open_fds w)" "fd_fb \<noteq> fd_geom"
      "i_fb \<notin> set (mapped w)" "i_geom \<notin> set (mapped w)" "i_fb \<noteq> i_geom"
      unfolding fb(11,12) w1 by auto
  qed
  let ?m_fb = "\<lparr>mm_id = i_fb, mm_size = f_size f_fb, mm_bytes = f_bytes f_fb\<rparr>"
  let ?m_geom = "\<lparr>mm_id = i_geom, mm_size = f_size f_geom, mm_bytes = f_bytes f_geom\<rparr>"
  have "vp_fb vp' = Some r \<and> vp_geom vp' = Some g \<and> vp_active_idx vp' = idx
      \<and> fb_name r = ''/uc3d_fb'' @ str_int idx \<and> geo_name g = ''/uc3d_geom'' @ str_int idx
      \<and> files w (''/dev/shm/uc3d_fb'' @ str_int idx) = Some f_fb
      \<and> files w (''/dev/shm/uc3d_geom'' @ str_int idx) = Some f_geom
      \<and> fb_fd r = Some fd_fb \<and> fb_mm r = Some ?m_fb
      \<and> mm_size ?m_fb = f_size f_fb \<and> mm_bytes ?m_fb = f_bytes f_fb
      \<and> geo_fd g = Some fd_geom \<and> geo_mm g = Some ?m_geom
      \<and> mm_size ?m_geom = f_size f_geom \<and> mm_bytes ?m_geom = f_bytes f_geom
      \<and> fd_fb \<notin> set (open_fds w) \<and> fd_geom \<notin> set (open_fds w) \<and> fd_fb \<noteq> fd_geom
      \<and> mm_id ?m_fb \<notin> set (mapped w) \<and> mm_id ?m_geom \<notin> set (mapped w)
      \<and> mm_id ?m_fb \<noteq> mm_id ?m_geom
      \<and> open_fds w' = fd_geom # fd_fb # open_fds w
      \<and> mapped w' = mm_id ?m_geom # mm_id ?m_fb # mapped w
      \<and> fb_width r = le_at (f_bytes f_fb (now w)) 8 4
      \<and> fb_height r = le_at (f_bytes f_fb (now w)) 12 4
      \<and> fb_stride r = le_at (f_bytes f_fb (now w)) 16 4
      \<and> fb_onebuf_size r = 8 + fb_height r * fb_stride r
      \<and> geo_count g = le_at (f_bytes f_geom (now w + 1)) 4 4
      \<and> geo_width g = le_at (f_bytes f_geom (now w + 1)) 8 4
      \<and> geo_height g = le_at (f_bytes f_geom (now w + 1)) 12 4"
    using vp' fb geo w1 fresh by simp
  then show ?thesis
    using parse_int_str_int [of idx] by blast
qed

text \<open>
  Switching the viewport from camera 0 (two rows, two points) to camera 3 and to camera
  12: the readers are named \<^verbatim>\<open>/uc3d_fb3\<close>, \<^verbatim>\<open>/uc3d_geom3\<close> and \<^verbatim>\<open>/uc3d_fb12\<close>,
  \<^verbatim>\<open>/uc3d_geom12\<close>, map the 50 and 32 bytes of the segments of camera 3 and the 42 and
  48 bytes of those of camera 12, and carry the one row of three bytes and the single point
  on a 64 by 32 grid of camera 3, the one row of six bytes and the three points on a 128 by
  48 grid of camera 12.
\<close>

theorem open_camera_by_index_new_headers_witness:
  "fst (open_camera_by_index vp_cam0 3 world_cams) = Inr ()
   \<and> fst (open_camera_by_index vp_cam0 12 world_cams) = Inr ()
   \<and> fb_height (the (vp_fb vp_cam0)) = 2 \<and> geo_count (the (vp_geom vp_cam0)) = 2
   \<and> vp_active_idx (switched_to 3) = 3
   \<and> fb_name (the (vp_fb (switched_to 3))) = ''/uc3d_fb3''
   \<and> geo_name (the (vp_geom (switched_to 3))) = ''/uc3d_geom3''
   \<and> mm_size (the (fb_mm (the (vp_fb (switched_to 3))))) = 50
   \<and> mm_size (the (geo_mm (the (vp_geom (switched_to 3))))) = 32
   \<and> the (fb_fd (the (vp_fb (switched_to 3)))) \<notin> set (open_fds world_cams)
   \<and> fb_width (the (vp_fb (switched_to 3))) = 1
   \<and> fb_height (the (vp_fb (switched_to 3))) = 1
   \<and> fb_stride (the (vp_fb (switched_to 3))) = 3
   \<and> geo_count (the (vp_geom (switched_to 3))) = 1
   \<and> geo_width (the (vp_geom (switched_to 3))) = 64
   \<and> geo_height (the (vp_geom (switched_to 3))) = 32
   \<and> vp_active_idx (switched_to 12) = 12
   \<and> fb_name (the (vp_fb (switched_to 12))) = ''/uc3d_fb12''
   \<and> geo_name (the (vp_geom (switched_to 12))) = ''/uc3d_geom12''
   \<and> mm_size (the (fb_mm (the (vp_fb (switched_to 12))))) = 42
   \<and> mm_size (the (geo_mm (the (vp_geom (switched_to 12))))) = 48
   \<and> the (fb_fd (the (vp_fb (switched_to 12)))) \<notin> set (open_fds world_cams)
   \<and> fb_width (the (vp_fb (switched_to 12))) = 2
   \<and> fb_height (the (vp_fb (switched_to 12))) = 1
   \<and> fb_stride (the (vp_fb (switched_to 12))) = 6
   \<and> geo_count (the (vp_geom (switched_to 12))) = 3
   \<and> geo_width (the (vp_geom (switched_to 12))) = 128
   \<and> geo_height (the (vp_geom (switched_to 12))) = 48"
proof -
  have s3: "str_int 3 = ''3''" and s12: "str_int 12 = ''12''"
    by (simp_all add: str_int_def digits.simps)
  have old: "fb_height (the (vp_fb vp_cam0)) = 2" "geo_count (the (vp_geom vp_cam0)) = 2"
    by (simp_all add: vp_cam0_def fb_short_facts geo_two_facts)
  let ?res3 = "open_camera_by_index vp_cam0 3 world_cams"
  have ok3: "fst ?res3 = Inr ()"
    by (rule open_camera_by_index_ok [where ?f1.0 = "static_file fb_two_bytes"
          and ?f2.0 = "static_file geo_cam3_bytes"])
       (simp_all add: s3 world_cams_files cam3_headers)
  then have eq3: "?res3 = (Inr (), switched_to 3, snd (snd ?res3))"
    unfolding switched_to_def by (metis prod.collapse)
  from open_camera_by_index_new_headers [OF eq3]
  obtain r g f_fb f_geom m_fb m_geom fd_fb where
    "vp_fb (switched_to 3) = Some r" "vp_geom (switched_to 3) = Some g"
    "vp_active_idx (switched_to 3) = 3"
    "fb_name r = ''/uc3d_fb'' @ str_int 3" "geo_name g = ''/uc3d_geom'' @ str_int 3"
    "files world_cams (''/dev/shm/uc3d_fb'' @ str_int 3) = Some f_fb"
    "files world_cams (''/dev/shm/uc3d_geom'' @ str_int 3) = Some f_geom"
    "fb_fd r = Some fd_fb" "fb_mm r = Some m_fb" "mm_size m_fb = f_size f_fb"
    "geo_mm g = Some m_geom" "mm_size m_geom = f_size f_geom"
    "fd_fb \<notin> set (open_fds world_cams)"
    "fb_width r = le_at (f_bytes f_fb (now world_cams)) 8 4"
    "fb_height r = le_at (f_bytes f_fb (now world_cams)) 12 4"
    "fb_stride r = le_at (f_bytes f_fb (now world_cams)) 16 4"
    "geo_count g = le_at (f_bytes f_geom (now world_cams + 1)) 4 4"
    "geo_width g = le_at (f_bytes f_geom (now world_cams + 1)) 8 4"
    "geo_height g = le_at (f_bytes f_geom (now world_cams + 1)) 12 4"
    by blast
  then have cam3: "vp_active_idx (switched_to 3) = 3
   \<and> fb_name (the (vp_fb (switched_to 3))) = ''/uc3d_fb3''
   \<and> geo_name (the (vp_geom (switched_to 3))) = ''/uc3d_geom3''
   \<and> mm_size (the (fb_mm (the (vp_fb (switched_to 3))))) = 50
   \<and> mm_size (the (geo_mm (the (vp_geom (switched_to 3))))) = 32
   \<and> the (fb_fd (the (vp_fb (switched_to 3)))) \<notin> set (open_fds world_cams)
   \<and> fb_width (the (vp_fb (switched_to 3))) = 1
   \<and> fb_height (the (vp_fb (switched_to 3))) = 1
   \<and> fb_stride (the (vp_fb (switched_to 3))) = 3
   \<and> geo_count (the (vp_geom (switched_to 3))) = 1
   \<and> geo_width (the (vp_geom (switched_to 3))) = 64
   \<and> geo_height (the (vp_geom (switched_to 3))) = 32"
    by (auto simp add: s3 world_cams_files cam3_headers)
  let ?res12 = "open_camera_by_index vp_cam0 12 world_cams"
  have ok12: "fst ?res12 = Inr ()"
    by (rule open_camera_by_index_ok [where ?f1.0 = "static_file fb_cam12_bytes"
          and ?f2.0 = "static_file geo_cam12_bytes"])
       (simp_all add: s12 world_cams_files cam12_headers)
  then have eq12: "?res12 = (Inr (), switched_to 12, snd (snd ?res12))"
    unfolding switched_to_def by (metis prod.collapse)
  from open_camera_by_index_new_headers [OF eq12]
  obtain r g f_fb f_geom m_fb m_geom fd_fb where
    "vp_fb (switched_to 12) = Some r" "vp_geom (switched_to 12) = Some g"
    "vp_active_idx (switched_to 12) = 12"
    "fb_name r = ''/uc3d_fb'' @ str_int 12" "geo_name g = ''/uc3d_geom'' @ str_int 12"
    "files world_cams (''/dev/shm/uc3d_fb'' @ str_int 12) = Some f_fb"
    "files world_cams (''/dev/shm/uc3d_geom'' @ str_int 12) = Some f_geom"
    "fb_fd r = Some fd_fb" "fb_mm r = Some m_fb" "mm_size m_fb = f_size f_fb"
    "geo_mm g = Some m_geom" "mm_size m_geom = f_size f_geom"
    "fd_fb \<notin> set (open_fds world_cams)"
    "fb_width r = le_at (f_bytes f_fb (now world_cams)) 8 4"
    "fb_height r = le_at (f_bytes f_fb (now world_cams)) 12 4"
    "fb_stride r = le_at (f_bytes f_fb (now world_cams)) 16 4"
    "geo_count g = le_at (f_bytes f_geom (now world_cams + 1)) 4 4"
    "geo_width g = le_at (f_bytes f_geom (now world_cams + 1)) 8 4"
    "geo_height g = le_at (f_bytes f_geom (now world_cams + 1)) 12 4"
    by blast
  then have cam12: "vp_active_idx (switched_to 12) = 12
   \<and> fb_name (the (vp_fb (switched_to 12))) = ''/uc3d_fb12''
   \<and> geo_name (the (vp_geom (switched_to 12))) = ''/uc3d_geom12''
   \<and> mm_size (the (fb_mm (the (vp_fb (switched_to 12))))) = 42
   \<and> mm_size (the (geo_mm (the (vp_geom (switched_to 12))))) = 48
   \<and> the (fb_fd (the (vp_fb (switched_to 12)))) \<notin> set (open_fds world_cams)
   \<and> fb_width (the (vp_fb (switched_to 12))) = 2
   \<and> fb_height (the (vp_fb (switched_to 12))) = 1
   \<and> fb_stride (the (vp_fb (switched_to 12))) = 6
   \<and> geo_count (the (vp_geom (switched_to 12))) = 3
   \<and> geo_width (the (vp_geom (switched_to 12))) = 128
   \<and> geo_height (the (vp_geom (switched_to 12))) = 48"
    by (auto simp add: s12 world_cams_files cam12_headers)
  from ok3 ok12 old cam3 cam12 show ?thesis
    by blast
qed


section \<open>Closing while a view is borrowed\<close>

lemma fb_world_on_static:
  assumes "length bs = n" and "28 \<le> n" and "field (take 28 bs) 0 4 = MAGIC"
  shows "fb_world_on bs =
     (world_with ''/dev/shm/uc3d_fb0'' bs)\<lparr>now := 1, open_fds := [0], mapped := [0]\<rparr>"
  by (simp add: fb_world_on_def fb_connect_static [OF assms])

lemma held_facts:
  "held_reader = (fb_reader_on fb_two_bytes)\<lparr>fb_last_seq := 7\<rparr>"
  "held_world = borrow (mmap_of 0 (static_file fb_two_bytes))
                  (tick (tick (fb_world_on fb_two_bytes)))"
proof -
  have act: "le_at (byte_at fb_two_bytes) 24 4 = 0"
    by (simp add: le_at_static fb_two_bytes_def)
  have a: "28 \<le> mm_size (mmap_of 0 (static_file fb_two_bytes))"
    and b: "28 = fb_header_size (fb_reader_on fb_two_bytes)
             + le_at (mm_bytes (mmap_of 0 (static_file fb_two_bytes))
                        (now (fb_world_on fb_two_bytes))) 24 4
               * fb_onebuf_size (fb_reader_on fb_two_bytes)"
    and c: "28 + 8 \<le> mm_size (mmap_of 0 (static_file fb_two_bytes))"
    by (simp_all add: fb_two_facts act)
  note e = latest_frame_view_fast_eq [OF fb_two_facts(1) a b c]
  show "held_reader = (fb_reader_on fb_two_bytes)\<lparr>fb_last_seq := 7\<rparr>"
    "held_world = borrow (mmap_of 0 (static_file fb_two_bytes))
                  (tick (tick (fb_world_on fb_two_bytes)))"
    by (simp_all add: held_reader_def held_world_def e fb_two_facts)
qed

lemma held_state:
  "fb_mm held_reader = Some (mmap_of 0 (static_file fb_two_bytes))"
  "fb_fd held_reader = Some 0"
  "exports held_world 0 = 1" "mapped held_world = [0]" "open_fds held_world = [0]"
proof -
  have l: "length fb_two_bytes = 50" and m: "field (take 28 fb_two_bytes) 0 4 = MAGIC"
    by (simp_all add: fb_two_bytes_def field_def MAGIC_def)
  note w = fb_world_on_static [OF l _ m]
  note r = fb_on_static(1) [OF l _ m]
  show "fb_mm held_reader = Some (mmap_of 0 (static_file fb_two_bytes))"
    "fb_fd held_reader = Some 0"
    by (simp_all add: held_facts r)
  show "exports held_world 0 = 1" "mapped held_world = [0]" "open_fds held_world = [0]"
    by (simp_all add: held_facts w borrow_def tick_def world_with_def world0_def)
qed

lemma truthy_held: "truthy (Some (mmap_of 0 (static_file fb_two_bytes)))"
  by (simp add: truthy_def fb_two_bytes_def)

lemma close_held:
  "FrameShmReader_close held_reader held_world =
     (Inl BufferError, held_reader\<lparr>fb_mm := None, fb_fd := None\<rparr>, held_world)"
  by (simp add: FrameShmReader_close_def held_state truthy_held mmap_close_def)

lemma close_cleared:
  "FrameShmReader_close (held_reader\<lparr>fb_mm := None, fb_fd := None\<rparr>) w =
     (Inr (), held_reader\<lparr>fb_mm := None, fb_fd := None\<rparr>, w)"
  by (simp add: FrameShmReader_close_def truthy_def)

lemma released_state:
  "exports (release held_view held_world) 0 = 0"
  "mapped (release held_view held_world) = [0]"
  "open_fds (release held_view held_world) = [0]"
  by (simp_all add: release_def held_view_def held_state)

lemma close_retained:
  "fst (FrameShmReader_close held_reader (release held_view held_world)) = Inr ()"
  "mapped (snd (snd (FrameShmReader_close held_reader (release held_view held_world)))) = []"
  "open_fds (snd (snd (FrameShmReader_close held_reader (release held_view held_world)))) = []"
  by (simp_all add: FrameShmReader_close_def held_state truthy_held mmap_close_def os_close_def
      released_state)

text \<open>Whatever reader is closed over an exported mapping loses its fields.\<close>

lemma close_busy_clears:
  assumes "fb_mm r = Some m" and "mm_size m \<noteq> 0" and "0 < exports w (mm_id m)"
  shows "FrameShmReader_close r w = (Inl BufferError, r\<lparr>fb_mm := None, fb_fd := None\<rparr>, w)"
  using assms by (simp add: FrameShmReader_close_def truthy_def mmap_close_def)

lemma geo_close_busy_clears:
  assumes "geo_mm g = Some m" and "mm_size m \<noteq> 0" and "0 < exports w (mm_id m)"
  shows "GeoShmReader_close g w = (Inl BufferError, g\<lparr>geo_mm := None, geo_fd := None\<rparr>, w)"
  using assms by (simp add: GeoShmReader_close_def truthy_def mmap_close_def)

text \<open>
  C7. A frame reader has handed out a view (one export on its mapping) and is closed.
  The \<^verbatim>\<open>try\<close> body raises \<^verbatim>\<open>BufferError\<close> and the \<^verbatim>\<open>finally\<close> clause still sets
  \<^verbatim>\<open>mm\<close> and \<^verbatim>\<open>fd\<close> to \<^verbatim>\<open>None\<close>: the failed attempt does not leave the reader as it
  was. \<^verbatim>\<open>_delayed_close\<close> catches the error and re-arms itself; once the view is released
  the second attempt finds nothing to close and returns: it changes nothing, and the
  descriptor that \<^verbatim>\<open>os.open\<close> gave is still open. Had the reader kept its fields, that
  second \<^verbatim>\<open>close\<close> would have unmapped the mapping and closed the descriptor (last three
  lines).
\<close>

theorem close_with_view_outstanding:
  "fb_mm held_reader = Some (mmap_of 0 (static_file fb_two_bytes))
   \<and> fb_fd held_reader = Some 0
   \<and> exports held_world 0 = 1 \<and> mapped held_world = [0] \<and> open_fds held_world = [0]
   \<and> FrameShmReader_close held_reader held_world =
       (Inl BufferError, held_reader\<lparr>fb_mm := None, fb_fd := None\<rparr>, held_world)
   \<and> delayed_close (Some held_reader) None held_world =
       (Inr True, Some (held_reader\<lparr>fb_mm := None, fb_fd := None\<rparr>), None, held_world)
   \<and> exports (release held_view held_world) 0 = 0
   \<and> delayed_close (Some (held_reader\<lparr>fb_mm := None, fb_fd := None\<rparr>)) None
         (release held_view held_world) =
       (Inr False, Some (held_reader\<lparr>fb_mm := None, fb_fd := None\<rparr>), None,
        release held_view held_world)
   \<and> open_fds (release held_view held_world) = [0]
   \<and> fst (FrameShmReader_close held_reader (release held_view held_world)) = Inr ()
   \<and> mapped (snd (snd (FrameShmReader_close held_reader (release held_view held_world)))) = []
   \<and> open_fds (snd (snd (FrameShmReader_close held_reader (release held_view held_world)))) = []"
  by (simp add: held_state close_held close_cleared released_state close_retained
      delayed_close_def)


section \<open>Readers that are not connected\<close>

text \<open>A reader has no mapping when it is made and after every \<^verbatim>\<open>close\<close>, failed or not.\<close>

lemma init_not_connected:
  "fb_mm (FrameShmReader_init nm) = None" "geo_mm (GeoShmReader_init nm) = None"
  by (simp_all add: FrameShmReader_init_def GeoShmReader_init_def)

lemma close_not_connected:
  "fb_mm (fst (snd (FrameShmReader_close r w))) = None"
  "geo_mm (fst (snd (GeoShmReader_close g w))) = None"
  by (simp_all add: FrameShmReader_close_def GeoShmReader_close_def split: prod.splits)

text \<open>
  C10. On a reader whose mapping is \<^verbatim>\<open>None\<close> (never connected, or closed), each of the
  four read operations returns the not-ready result with the last known sequence; it raises
  nothing, reads nothing and leaves the reader and the world as they were.
\<close>

theorem not_connected_reads_not_ready:
  assumes "fb_mm r = None" and "geo_mm g = None"
  shows "latest_frame_view r max_spins sleep_ns w = (Inr (None, fb_last_seq r), r, w)
       \<and> latest_frame_view_fast r w = (Inr (None, fb_last_seq r), r, w)
       \<and> GeoShmReader_latest g max_spins sleep_ns w = (Inr (None, None, geo_last_seq g), g, w)
       \<and> GeoShmReader_latest_fast g w = (Inr (None, None, geo_last_seq g), g, w)"
  using assms
  by (simp add: latest_frame_view_def latest_frame_view_fast_def
        GeoShmReader_latest_def GeoShmReader_latest_fast_def)

theorem not_connected_reads_not_ready_witness:
  "fb_mm (FrameShmReader_init ''/uc3d_fb0'') = None
   \<and> geo_mm (GeoShmReader_init ''/uc3d_geom0'') = None
   \<and> latest_frame_view (FrameShmReader_init ''/uc3d_fb0'') 64 0 world0
       = (Inr (None, 0), FrameShmReader_init ''/uc3d_fb0'', world0)
   \<and> latest_frame_view_fast (FrameShmReader_init ''/uc3d_fb0'') world0
       = (Inr (None, 0), FrameShmReader_init ''/uc3d_fb0'', world0)
   \<and> GeoShmReader_latest (GeoShmReader_init ''/uc3d_geom0'') 64 0 world0
       = (Inr (None, None, 0), GeoShmReader_init ''/uc3d_geom0'', world0)
   \<and> GeoShmReader_latest_fast (GeoShmReader_init ''/uc3d_geom0'') world0
       = (Inr (None, None, 0), GeoShmReader_init ''/uc3d_geom0'', world0)"
proof -
  have a: "fb_mm (FrameShmReader_init ''/uc3d_fb0'') = None"
    by (simp add: FrameShmReader_init_def)
  have b: "geo_mm (GeoShmReader_init ''/uc3d_geom0'') = None"
    by (simp add: GeoShmReader_init_def)
  have c: "fb_last_seq (FrameShmReader_init ''/uc3d_fb0'') = 0"
    by (simp add: FrameShmReader_init_def)
  have d: "geo_last_seq (GeoShmReader_init ''/uc3d_geom0'') = 0"
    by (simp add: GeoShmReader_init_def)
  show ?thesis
    using not_connected_reads_not_ready [OF a b, where max_spins = 64 and sleep_ns = 0 and w = world0]
      a b c d
    by simp
qed

end
